(* ===== verification/ForgePrelude.thy ===== *)
theory ForgePrelude
  imports Main "HOL-Library.Word"
begin

text \<open>
  Shared vocabulary of the praxis-forge development: the Go-level types (nil-able
  slices and maps, dynamically typed values, error values), the three-way outcome
  of a Go call (a value, an error, a nil-dereference panic), the loop combinators
  that stand for Go's \<^verbatim>\<open>for i, x := range xs\<close> with early return, and the
  lemmas about them that the component theories share.

  Error texts are kept unrendered: \<open>Errorf fmt args\<close> holds the format string of the
  source and its arguments, so two errors are equal exactly when the source formats
  the same arguments with the same format. \<open>AWrap\<close> marks the operand of a \<^verbatim>\<open>%w\<close>
  verb, which is what \<^verbatim>\<open>errors.Is\<close> follows.
\<close>

named_theorems forge_defs \<open>definitions the component proofs unfold\<close>
named_theorems forge_simps \<open>rewrite rules shared by the component proofs\<close>
named_theorems forge_inv \<open>invariant preservation facts\<close>

section \<open>Machine integers\<close>

type_synonym int64 = "64 word"

abbreviation int64_gt :: "int64 \<Rightarrow> int64 \<Rightarrow> bool" where
  "int64_gt a b \<equiv> sint b < sint a"

section \<open>Dynamically typed values\<close>

text \<open>
  A nil-able slice is a list option with \<open>None\<close> for nil. A Go map is an association
  list, again under option: the order of the list stands for the (unspecified)
  iteration order of the Go map, and \<open>wf_goval\<close> says that keys are distinct.
\<close>

type_synonym 'a slice = "'a list option"

definition elems :: "'a slice \<Rightarrow> 'a list" where
  "elems s = (case s of None \<Rightarrow> [] | Some xs \<Rightarrow> xs)"

lemma elems_simps [simp]: "elems None = []" "elems (Some xs) = xs"
  by (simp_all add: elems_def)

text \<open>
  The dynamic types a decoded YAML or programmatic configuration holds. \<open>VOther\<close> is
  any value whose dynamic type is none of the others, carrying its type name; every
  type switch of the source sends it to the default branch.
\<close>

datatype goval =
    VNil
  | VBool bool
  | VInt int64
  | VInt64 int64
  | VFloat64 "64 word"
  | VString string
  | VSlice "goval slice"
  | VStrings "string slice"
  | VMap "(string \<times> goval) list option"
  | VOther string

type_synonym gomap = "(string \<times> goval) list option"

text \<open>Indexing a Go map yields the zero value (nil for \<^verbatim>\<open>any\<close>) on a missing key.\<close>

definition map_lookup :: "gomap \<Rightarrow> string \<Rightarrow> goval option" where
  "map_lookup m k = (case m of None \<Rightarrow> None | Some kvs \<Rightarrow> map_of kvs k)"

definition map_index :: "gomap \<Rightarrow> string \<Rightarrow> goval" where
  "map_index m k = (case map_lookup m k of None \<Rightarrow> VNil | Some v \<Rightarrow> v)"

text \<open>The comma-ok assertion \<^verbatim>\<open>v, _ := x.(string)\<close>: the empty string when it fails.\<close>

definition as_string :: "goval \<Rightarrow> string option" where
  "as_string v = (case v of VString s \<Rightarrow> Some s | _ \<Rightarrow> None)"

definition string_or_empty :: "goval \<Rightarrow> string" where
  "string_or_empty v = (case as_string v of None \<Rightarrow> [] | Some s \<Rightarrow> s)"

fun wf_goval :: "goval \<Rightarrow> bool" where
  "wf_goval (VSlice (Some vs)) = list_all wf_goval vs"
| "wf_goval (VMap (Some kvs)) = (distinct (map fst kvs) \<and> list_all wf_goval (map snd kvs))"
| "wf_goval _ = True"

section \<open>Errors\<close>

datatype sentinel =
    ErrValidation | ErrNoSpecStore | ErrSpecNotFound | ErrExtendsInvalid
  | ErrLockedFieldOverride | ErrPhaseGatedInOverlay | ErrCompositionLimit
  | ErrRegistryFrozen | ErrDuplicate | ErrNotFound | ErrKindMismatch
  | ErrBudgetLoosening | ErrFilterBlocked
  | ErrToolNameCollision | ErrToolNotFound | ErrToolNameReservedPrefix
  | ErrBadPattern | CtxCanceled | CtxDeadlineExceeded
  | ErrExternal string

datatype gerror =
    Sentinel sentinel
  | Errorf string "garg list"
  | ErrorsAgg "garg list" "gerror list"
  | ExtendsError "string list" string
and garg =
    AStr string
  | AInt int
  | AVal goval
  | AStrs "string list"
  | AFmt string "garg list"
  | AErr gerror
  | AWrap gerror

text \<open>
  \<^verbatim>\<open>errors.Is\<close> against a package-level sentinel: the error itself, what its
  \<^verbatim>\<open>Is\<close> method answers, or anything in its \<^verbatim>\<open>%w\<close> chain. \<open>ErrorsAgg\<close> is
  \<^verbatim>\<open>spec.Errors\<close> and \<open>ExtendsError\<close> is \<^verbatim>\<open>*spec.ExtendsError\<close>, whose
  \<^verbatim>\<open>Is\<close> methods are those of the source.
\<close>

fun errors_is :: "gerror \<Rightarrow> sentinel \<Rightarrow> bool"
  and arg_is :: "garg \<Rightarrow> sentinel \<Rightarrow> bool" where
  "errors_is (Sentinel s) t = (s = t)"
| "errors_is (Errorf f as) t = list_ex (\<lambda>a. arg_is a t) as"
| "errors_is (ErrorsAgg msgs ss) t = (t = ErrValidation \<or> list_ex (\<lambda>e. errors_is e t) ss)"
| "errors_is (ExtendsError ch r) t = (t = ErrExtendsInvalid)"
| "arg_is (AWrap e) t = errors_is e t"
| "arg_is _ t = False"

section \<open>Outcomes\<close>

datatype 'a result = Ok 'a | Err gerror | Panic string

definition bindR :: "'a result \<Rightarrow> ('a \<Rightarrow> 'b result) \<Rightarrow> 'b result" where
  "bindR r f = (case r of Ok x \<Rightarrow> f x | Err e \<Rightarrow> Err e | Panic p \<Rightarrow> Panic p)"

text \<open>\<open>wrapErr g r\<close>: an error of \<open>r\<close> is returned as \<open>g e\<close>, everything else unchanged.\<close>

definition wrapErr :: "(gerror \<Rightarrow> gerror) \<Rightarrow> 'a result \<Rightarrow> 'a result" where
  "wrapErr g r = (case r of Ok x \<Rightarrow> Ok x | Err e \<Rightarrow> Err (g e) | Panic p \<Rightarrow> Panic p)"

definition isOk :: "'a result \<Rightarrow> bool" where
  "isOk r = (case r of Ok _ \<Rightarrow> True | _ \<Rightarrow> False)"

definition noPanic :: "'a result \<Rightarrow> bool" where
  "noPanic r = (case r of Panic _ \<Rightarrow> False | _ \<Rightarrow> True)"

lemma bindR_simps [simp]:
  "bindR (Ok x) f = f x" "bindR (Err e) f = Err e" "bindR (Panic p) f = Panic p"
  by (simp_all add: bindR_def)

lemma wrapErr_simps [simp]:
  "wrapErr g (Ok x) = Ok x" "wrapErr g (Err e) = Err (g e)" "wrapErr g (Panic p) = Panic p"
  by (simp_all add: wrapErr_def)

lemma isOk_simps [simp]: "isOk (Ok x)" "\<not> isOk (Err e)" "\<not> isOk (Panic p)"
  by (simp_all add: isOk_def)

lemma noPanic_simps [simp]: "noPanic (Ok x)" "noPanic (Err e)" "\<not> noPanic (Panic p)"
  by (simp_all add: noPanic_def)

lemma bindR_eq_Ok [simp]: "bindR r f = Ok y \<longleftrightarrow> (\<exists>x. r = Ok x \<and> f x = Ok y)"
  by (cases r) simp_all

lemma wrapErr_eq_Ok [simp]: "wrapErr g r = Ok x \<longleftrightarrow> r = Ok x"
  by (cases r) simp_all

lemma bindR_eq_Panic [simp]:
  "bindR r f = Panic p \<longleftrightarrow> r = Panic p \<or> (\<exists>x. r = Ok x \<and> f x = Panic p)"
  by (cases r) simp_all

lemma wrapErr_eq_Panic [simp]: "wrapErr g r = Panic p \<longleftrightarrow> r = Panic p"
  by (cases r) simp_all

lemma bindR_eq_Err:
  "bindR r f = Err e \<longleftrightarrow> r = Err e \<or> (\<exists>x. r = Ok x \<and> f x = Err e)"
  by (cases r) auto

text \<open>The idiom \<^verbatim>\<open>if err := f(); err != nil { return err }\<close>.\<close>

lemma case_err_eq_Ok [simp]:
  "(case e of None \<Rightarrow> r | Some err \<Rightarrow> Err err) = Ok y \<longleftrightarrow> e = None \<and> r = Ok y"
  by (cases e) simp_all

lemma case_err_noPanic [simp]:
  "noPanic (case e of None \<Rightarrow> r | Some err \<Rightarrow> Err err) \<longleftrightarrow> (e = None \<longrightarrow> noPanic r)"
  by (cases e) simp_all

lemma isOk_iff: "isOk r \<longleftrightarrow> (\<exists>x. r = Ok x)"
  by (cases r) simp_all

lemma noPanic_bindR [simp, intro]:
  "noPanic r \<Longrightarrow> (\<And>x. r = Ok x \<Longrightarrow> noPanic (f x)) \<Longrightarrow> noPanic (bindR r f)"
  by (cases r) simp_all

lemma noPanic_wrapErr [simp]: "noPanic (wrapErr g r) = noPanic r"
  by (cases r) simp_all

section \<open>Loops with early return\<close>

text \<open>
  \<open>loopR f i xs\<close> is \<^verbatim>\<open>for i, x := range xs { y, err := f(i, x); if err != nil
  { return err }; out = append(out, y) }\<close>; \<open>foldR\<close> threads a state instead of
  collecting values.
\<close>

fun loopR :: "(nat \<Rightarrow> 'a \<Rightarrow> 'b result) \<Rightarrow> nat \<Rightarrow> 'a list \<Rightarrow> 'b list result" where
  "loopR f i [] = Ok []"
| "loopR f i (x # xs) = bindR (f i x) (\<lambda>y. bindR (loopR f (Suc i) xs) (\<lambda>ys. Ok (y # ys)))"

fun foldR :: "(nat \<Rightarrow> 'a \<Rightarrow> 's \<Rightarrow> 's result) \<Rightarrow> nat \<Rightarrow> 'a list \<Rightarrow> 's \<Rightarrow> 's result" where
  "foldR f i [] s = Ok s"
| "foldR f i (x # xs) s = bindR (f i x s) (foldR f (Suc i) xs)"

lemma loopR_Ok_iff:
  "loopR f i xs = Ok ys \<longleftrightarrow>
     length ys = length xs \<and> (\<forall>j < length xs. f (i + j) (xs ! j) = Ok (ys ! j))"
proof (induction xs arbitrary: i ys)
  case Nil
  then show ?case by auto
next
  case (Cons x xs)
  show ?case
  proof (cases ys)
    case Nil
    then show ?thesis by auto
  next
    case (Cons y ys')
    have all: "(\<forall>j < Suc (length xs). f (i + j) ((x # xs) ! j) = Ok ((y # ys') ! j)) \<longleftrightarrow>
        f i x = Ok y \<and> (\<forall>j < length xs. f (Suc i + j) (xs ! j) = Ok (ys' ! j))"
      by (simp only: All_less_Suc2) simp
    show ?thesis
      unfolding Cons by (simp only: loopR.simps bindR_eq_Ok Cons.IH all) (auto simp: all)
  qed
qed

lemma loopR_length: "loopR f i xs = Ok ys \<Longrightarrow> length ys = length xs"
  by (simp add: loopR_Ok_iff)

lemma loopR_noPanic:
  "(\<And>j x. x \<in> set xs \<Longrightarrow> noPanic (f j x)) \<Longrightarrow> noPanic (loopR f i xs)"
  by (induction xs arbitrary: i) auto

lemma loopR_first_error:
  assumes "n < length xs" and "f (i + n) (xs ! n) = Err e"
    and "\<And>j. j < n \<Longrightarrow> isOk (f (i + j) (xs ! j))"
  shows "loopR f i xs = Err e"
  using assms
proof (induction xs arbitrary: i n)
  case Nil
  then show ?case by simp
next
  case (Cons x xs)
  show ?case
  proof (cases n)
    case 0
    with Cons.prems show ?thesis by simp
  next
    case (Suc m)
    from Cons.prems(3)[of 0] Suc obtain y where y: "f i x = Ok y"
      by (auto simp: isOk_iff)
    have "loopR f (Suc i) xs = Err e"
    proof (rule Cons.IH[of m])
      show "m < length xs" using Cons.prems(1) Suc by simp
      show "f (Suc i + m) (xs ! m) = Err e" using Cons.prems(2) Suc by simp
      show "isOk (f (Suc i + j) (xs ! j))" if "j < m" for j
        using Cons.prems(3)[of "Suc j"] that Suc by simp
    qed
    with y show ?thesis by simp
  qed
qed

lemma foldR_invariant:
  assumes "foldR f i xs s = Ok t" and "P s"
    and "\<And>j x s t. x \<in> set xs \<Longrightarrow> P s \<Longrightarrow> f j x s = Ok t \<Longrightarrow> P t"
  shows "P t"
  using assms
proof (induction xs arbitrary: i s)
  case Nil
  then show ?case by simp
next
  case (Cons x xs)
  from Cons.prems(1) obtain s' where "f i x s = Ok s'" and *: "foldR f (Suc i) xs s' = Ok t"
    by auto
  then have "P s'" using Cons.prems(2,3) by auto
  with * show ?case by (rule Cons.IH) (use Cons.prems(3) in auto)
qed

lemma foldR_noPanic:
  "(\<And>j x s. x \<in> set xs \<Longrightarrow> noPanic (f j x s)) \<Longrightarrow> noPanic (foldR f i xs s)"
  by (induction xs arbitrary: i s) auto

text \<open>The first error of a list of outcomes, or all the values.\<close>

fun seqR :: "'a result list \<Rightarrow> 'a list result" where
  "seqR [] = Ok []"
| "seqR (r # rs) = bindR r (\<lambda>x. bindR (seqR rs) (\<lambda>xs. Ok (x # xs)))"

lemma seqR_Ok_iff: "seqR rs = Ok xs \<longleftrightarrow> rs = map Ok xs"
  by (induction rs arbitrary: xs) (auto simp: map_eq_Cons_conv Cons_eq_map_conv)

lemma seqR_noPanic: "(\<And>r. r \<in> set rs \<Longrightarrow> noPanic r) \<Longrightarrow> noPanic (seqR rs)"
  by (induction rs) auto

section \<open>Strings\<close>

text \<open>\<^verbatim>\<open>strings.HasPrefix\<close> and \<^verbatim>\<open>strings.Join\<close>.\<close>

fun hasPrefix :: "string \<Rightarrow> string \<Rightarrow> bool" where
  "hasPrefix s [] = True"
| "hasPrefix [] (p # ps) = False"
| "hasPrefix (c # s) (p # ps) = (c = p \<and> hasPrefix s ps)"

lemma hasPrefix_iff: "hasPrefix s p \<longleftrightarrow> (\<exists>r. s = p @ r)"
  by (induction s p rule: hasPrefix.induct) auto

fun join :: "string list \<Rightarrow> string \<Rightarrow> string" where
  "join [] sep = []"
| "join [x] sep = x"
| "join (x # y # ys) sep = x @ sep @ join (y # ys) sep"

end
