(* ===== verification/GoUtf8.thy ===== *)
theory GoUtf8
  imports ForgePrelude
begin

text \<open>
  \<^verbatim>\<open>utf8.DecodeRuneInString\<close>: the rune at the front of a byte string and the number
  of bytes it takes. Malformed input gives U+FFFD with width 1, the empty string U+FFFD
  with width 0.
\<close>

definition byte :: "char \<Rightarrow> nat" where
  "byte c = of_char c"

definition runeError :: nat where
  "runeError = 65533"

definition cont :: "nat \<Rightarrow> bool" where
  "cont b \<longleftrightarrow> 128 \<le> b \<and> b \<le> 191"

text \<open>The range the second byte must lie in, given the first.\<close>

definition second_ok :: "nat \<Rightarrow> nat \<Rightarrow> bool" where
  "second_ok b0 b1 \<longleftrightarrow>
     (if b0 = 224 then 160 \<le> b1 \<and> b1 \<le> 191
      else if b0 = 237 then 128 \<le> b1 \<and> b1 \<le> 159
      else if b0 = 240 then 144 \<le> b1 \<and> b1 \<le> 191
      else if b0 = 244 then 128 \<le> b1 \<and> b1 \<le> 143
      else cont b1)"

definition decode_rune :: "string \<Rightarrow> nat \<times> nat" where
  "decode_rune s =
     (case map byte s of
        [] \<Rightarrow> (runeError, 0)
      | b0 # bs \<Rightarrow>
          if b0 < 128 then (b0, 1)
          else if 194 \<le> b0 \<and> b0 \<le> 223 then
            (case bs of b1 # _ \<Rightarrow>
               if second_ok b0 b1 then ((b0 - 192) * 64 + (b1 - 128), 2) else (runeError, 1)
             | _ \<Rightarrow> (runeError, 1))
          else if 224 \<le> b0 \<and> b0 \<le> 239 then
            (case bs of b1 # b2 # _ \<Rightarrow>
               if second_ok b0 b1 \<and> cont b2
               then ((b0 - 224) * 4096 + (b1 - 128) * 64 + (b2 - 128), 3) else (runeError, 1)
             | _ \<Rightarrow> (runeError, 1))
          else if 240 \<le> b0 \<and> b0 \<le> 244 then
            (case bs of b1 # b2 # b3 # _ \<Rightarrow>
               if second_ok b0 b1 \<and> cont b2 \<and> cont b3
               then ((b0 - 240) * 262144 + (b1 - 128) * 4096 + (b2 - 128) * 64 + (b3 - 128), 4)
               else (runeError, 1)
             | _ \<Rightarrow> (runeError, 1))
          else (runeError, 1))"

lemma decode_rune_width:
  "s \<noteq> [] \<Longrightarrow> 0 < snd (decode_rune s) \<and> snd (decode_rune s) \<le> length s"
  by (cases s) (auto simp: decode_rune_def split: list.splits)

lemma decode_rune_width_pos: "s \<noteq> [] \<Longrightarrow> 0 < snd (decode_rune s)"
  by (simp add: decode_rune_width)

lemma decode_rune_ascii: "byte c < 128 \<Longrightarrow> decode_rune (c # s) = (byte c, 1)"
  by (simp add: decode_rune_def)

lemma two_bytes_high: "194 \<le> b0 \<Longrightarrow> 128 \<le> (b0 - 192) * 64 + (b1 - 128 :: nat)"
  by simp

lemma three_bytes_high:
  "224 \<le> b0 \<Longrightarrow> second_ok b0 b1 \<Longrightarrow> 128 \<le> (b0 - 224) * 4096 + (b1 - 128) * 64 + (b2 - 128)"
  by (cases "b0 = 224") (simp_all add: second_ok_def, linarith?)

lemma four_bytes_high:
  "240 \<le> b0 \<Longrightarrow> second_ok b0 b1 \<Longrightarrow>
     128 \<le> (b0 - 240) * 262144 + (b1 - 128) * 4096 + (b2 - 128) * 64 + (b3 - 128)"
  by (cases "b0 = 240") (simp_all add: second_ok_def, linarith?)

lemma decode_rune_high: "\<not> byte c < 128 \<Longrightarrow> 128 \<le> fst (decode_rune (c # s))"
  by (simp add: decode_rune_def runeError_def two_bytes_high three_bytes_high four_bytes_high
      split: list.split)

end
