(* ===== verification/GoGlob.thy ===== *)
theory GoGlob
  imports GoUtf8
begin

text \<open>
  \<^verbatim>\<open>filepath.Match(pattern, "")\<close> on a Unix system, which the sources call only for
  its error: whether the glob is well formed. With an empty name \<^verbatim>\<open>matchChunk\<close> sets
  its \<^verbatim>\<open>failed\<close> flag before the first pattern byte, so what remains of it is the
  syntax scan below.
\<close>

abbreviation backslash :: char where
  "backslash \<equiv> CHR 0x5C"

text \<open>\<^verbatim>\<open>getEsc\<close>: a possibly escaped character of a class; \<open>None\<close> is ErrBadPattern.\<close>

definition getEsc :: "string \<Rightarrow> string option" where
  "getEsc chunk =
     (case chunk of
        [] \<Rightarrow> None
      | c # cs \<Rightarrow>
          if c = CHR ''-'' \<or> c = CHR '']'' then None
          else
            let chunk' = (if c = backslash then cs else chunk) in
            if chunk' = [] then None
            else
              let (r, n) = decode_rune chunk'; nchunk = drop n chunk' in
              if r = runeError \<and> n = 1 then None
              else if nchunk = [] then None else Some nchunk)"

lemma getEsc_shorter: "getEsc s = Some t \<Longrightarrow> length t < length s \<and> t \<noteq> []"
proof -
  assume *: "getEsc s = Some t"
  then obtain c cs where s: "s = c # cs" by (cases s) (auto simp: getEsc_def)
  let ?s' = "if c = backslash then cs else s"
  from * s have ne: "?s' \<noteq> []" by (auto simp: getEsc_def Let_def split: if_splits)
  from * s have t: "t = drop (snd (decode_rune ?s')) ?s'" "t \<noteq> []"
    by (auto simp: getEsc_def Let_def split: if_splits prod.splits)
  have "length (drop (snd (decode_rune u)) u) < length u" if "u \<noteq> []" for u
    using decode_rune_width[OF that] that by simp
  from this[OF ne] have "length t < length ?s'" unfolding t(1) .
  with t(2) s show ?thesis by (auto split: if_splits)
qed

text \<open>The loop that parses the ranges of a class up to its closing bracket.\<close>

function class_loop :: "nat \<Rightarrow> string \<Rightarrow> string option" where
  "class_loop nrange chunk =
     (if chunk \<noteq> [] \<and> hd chunk = CHR '']'' \<and> nrange > 0 then Some (tl chunk)
      else case getEsc chunk of
        None \<Rightarrow> None
      | Some c1 \<Rightarrow>
          if hd c1 = CHR ''-'' then
            (case getEsc (tl c1) of None \<Rightarrow> None | Some c2 \<Rightarrow> class_loop (Suc nrange) c2)
          else class_loop (Suc nrange) c1)"
  by pat_completeness auto
termination
proof (relation "measure (\<lambda>(n, c). length c)")
  show "wf (measure (\<lambda>(n :: nat, c :: string). length c))" by simp
next
  fix nrange :: nat and chunk c1 c2 :: string
  assume "getEsc chunk = Some c1" "getEsc (tl c1) = Some c2"
  then show "((Suc nrange, c2), nrange, chunk) \<in> measure (\<lambda>(n, c). length c)"
    using getEsc_shorter[of chunk c1] getEsc_shorter[of "tl c1" c2] by (cases c1) auto
next
  fix nrange :: nat and chunk c1 :: string
  assume "getEsc chunk = Some c1"
  then show "((Suc nrange, c1), nrange, chunk) \<in> measure (\<lambda>(n, c). length c)"
    using getEsc_shorter[of chunk c1] by simp
qed

declare class_loop.simps [simp del]

lemma class_loop_shorter: "class_loop n s = Some t \<Longrightarrow> length t < length s"
proof (induction n s rule: class_loop.induct)
  case (1 n s)
  show ?case
  proof (cases "s \<noteq> [] \<and> hd s = CHR '']'' \<and> n > 0")
    case True
    with "1.prems" have "t = tl s" by (simp add: class_loop.simps[of n s])
    with True show ?thesis by simp
  next
    case False
    with "1.prems" obtain c1 where c1: "getEsc s = Some c1"
      by (auto simp: class_loop.simps[of n s] split: option.splits)
    note less = getEsc_shorter[OF c1]
    show ?thesis
    proof (cases "hd c1 = CHR ''-''")
      case True
      with False "1.prems" c1 obtain c2 where c2: "getEsc (tl c1) = Some c2" "class_loop (Suc n) c2 = Some t"
        by (auto simp: class_loop.simps[of n s] split: option.splits)
      from "1.IH"(1)[OF False c1 True c2] getEsc_shorter[OF c2(1)] less show ?thesis
        by (cases c1) auto
    next
      case no_dash: False
      with False "1.prems" c1 have "class_loop (Suc n) c1 = Some t"
        by (simp add: class_loop.simps[of n s] split: if_splits)
      from "1.IH"(2)[OF False c1 no_dash this] less show ?thesis by simp
    qed
  qed
qed

text \<open>\<^verbatim>\<open>matchChunk(chunk, "")\<close>: whether the chunk scans without ErrBadPattern.\<close>

function chunk_ok :: "string \<Rightarrow> bool" where
  "chunk_ok [] = True"
| "chunk_ok (c # cs) =
     (if c = CHR ''['' then
        (case class_loop 0 (if cs \<noteq> [] \<and> hd cs = CHR ''^'' then tl cs else cs) of
           None \<Rightarrow> False | Some rest \<Rightarrow> chunk_ok rest)
      else if c = backslash then (if cs = [] then False else chunk_ok (tl cs))
      else chunk_ok cs)"
  by pat_completeness auto
termination
proof (relation "measure length")
  fix c :: char and cs rest :: string
  assume "class_loop 0 (if cs \<noteq> [] \<and> hd cs = CHR ''^'' then tl cs else cs) = Some rest"
  from class_loop_shorter[OF this] show "(rest, c # cs) \<in> measure length"
    by (auto split: if_splits)
qed auto

text \<open>\<^verbatim>\<open>scanChunk\<close>: leading stars, then everything up to the next star outside a class.\<close>

fun scan :: "bool \<Rightarrow> string \<Rightarrow> string \<times> string" where
  "scan inrange [] = ([], [])"
| "scan inrange (c # cs) =
     (if c = backslash then
        (case cs of [] \<Rightarrow> ([c], [])
         | d # ds \<Rightarrow> (let (a, b) = scan inrange ds in (c # d # a, b)))
      else if c = CHR ''*'' \<and> \<not> inrange then ([], c # cs)
      else (let (a, b) = scan (if c = CHR ''['' then True else if c = CHR '']'' then False else inrange) cs
            in (c # a, b)))"

definition scanChunk :: "string \<Rightarrow> bool \<times> string \<times> string" where
  "scanChunk pattern =
     (let p = dropWhile (\<lambda>c. c = CHR ''*'') pattern
      in (p \<noteq> pattern, scan False p))"

lemma scan_append: "fst (scan b p) @ snd (scan b p) = p"
proof (induction b p rule: scan.induct)
  case (2 b c cs)
  then show ?case by (cases cs) (simp_all add: Let_def split_beta)
qed simp

lemma scan_head: "p \<noteq> [] \<Longrightarrow> hd p \<noteq> CHR ''*'' \<Longrightarrow> fst (scan False p) \<noteq> []"
proof (cases p)
  case (Cons c cs)
  assume "hd p \<noteq> CHR ''*''"
  with Cons show ?thesis by (cases cs) (simp_all add: Let_def split_beta)
qed simp

lemma scan_progress: "p \<noteq> [] \<Longrightarrow> hd p \<noteq> CHR ''*'' \<Longrightarrow> length (snd (scan False p)) < length p"
  using scan_append[of False p] scan_head[of p]
  by (metis append_eq_conv_conj length_append length_greater_0_conv less_add_same_cancel2)

lemma scanChunk_shorter:
  "pattern \<noteq> [] \<Longrightarrow> length (snd (snd (scanChunk pattern))) < length pattern"
proof -
  assume ne: "pattern \<noteq> []"
  let ?p = "dropWhile (\<lambda>c. c = CHR ''*'') pattern"
  show ?thesis
  proof (cases "?p = []")
    case True
    have "snd (snd (scanChunk pattern)) = []" unfolding scanChunk_def Let_def True by simp
    with ne show ?thesis by simp
  next
    case False
    then have "hd ?p \<noteq> CHR ''*''" by (rule hd_dropWhile)
    from scan_progress[OF False this] length_dropWhile_le[of "\<lambda>c. c = CHR ''*''" pattern]
    have "length (snd (scan False ?p)) < length pattern" by (rule order_less_le_trans)
    then show ?thesis unfolding scanChunk_def Let_def snd_conv .
  qed
qed

text \<open>The loop over the remaining chunks, reached once the empty name failed to match.\<close>

function rest_ok :: "string \<Rightarrow> bool" where
  "rest_ok pattern =
     (if pattern = [] then True
      else (case scanChunk pattern of (star, chunk, rest) \<Rightarrow>
        if chunk_ok chunk then rest_ok rest else False))"
  by pat_completeness auto
termination
  by (relation "measure length") (simp_all, metis scanChunk_shorter snd_conv)

declare rest_ok.simps [simp del]

definition Match_empty :: "string \<Rightarrow> gerror option" where
  "Match_empty pattern =
     (if pattern = [] then None
      else (case scanChunk pattern of (star, chunk, rest) \<Rightarrow>
        if star \<and> chunk = [] then None
        else if chunk_ok chunk \<and> rest_ok rest then None
        else Some (Sentinel ErrBadPattern)))"

end
