(* ===== verification/GoRegexp.thy ===== *)
theory GoRegexp
  imports ForgePrelude
begin

text \<open>
  The fragment of Go's \<^verbatim>\<open>regexp\<close> package the sources use: byte classes,
  concatenation, alternation, greedy repetition and the word boundary \<^verbatim>\<open>\b\<close>.
  \<open>mt r x\<close> lists the positions a match of \<open>r\<close> starting at \<open>x\<close> can end at, in the
  priority order of Perl-style matching (the order \<^verbatim>\<open>regexp\<close> documents for its
  leftmost-first searches); a position is the preceding byte, which \<^verbatim>\<open>\b\<close> looks
  at, and the remaining input. \<open>lang\<close> is the textbook language, and \<open>mt_lang\<close>
  connects the two for boundary-free expressions.
\<close>

datatype regex =
    Eps
  | Cls "char \<Rightarrow> bool"
  | Seq regex regex
  | Alt regex regex
  | Star regex
  | WordB

type_synonym pos = "char option \<times> string"

definition in_range :: "char \<Rightarrow> char \<Rightarrow> char \<Rightarrow> bool" where
  "in_range lo hi c \<longleftrightarrow> (of_char lo :: nat) \<le> of_char c \<and> (of_char c :: nat) \<le> of_char hi"

definition is_digit :: "char \<Rightarrow> bool" where
  "is_digit c = in_range CHR ''0'' CHR ''9'' c"

definition is_lower :: "char \<Rightarrow> bool" where
  "is_lower c = in_range CHR ''a'' CHR ''z'' c"

definition is_upper :: "char \<Rightarrow> bool" where
  "is_upper c = in_range CHR ''A'' CHR ''Z'' c"

definition is_word :: "char \<Rightarrow> bool" where
  "is_word c \<longleftrightarrow> is_digit c \<or> is_lower c \<or> is_upper c \<or> c = CHR ''_''"

definition word_at :: "char option \<Rightarrow> bool" where
  "word_at c = (case c of None \<Rightarrow> False | Some d \<Rightarrow> is_word d)"

definition next_char :: "string \<Rightarrow> char option" where
  "next_char s = (case s of [] \<Rightarrow> None | c # _ \<Rightarrow> Some c)"

function mt :: "regex \<Rightarrow> pos \<Rightarrow> pos list" where
  "mt Eps x = [x]"
| "mt (Cls P) x = (case snd x of [] \<Rightarrow> [] | c # cs \<Rightarrow> if P c then [(Some c, cs)] else [])"
| "mt (Seq a b) x = concat (map (mt b) (mt a x))"
| "mt (Alt a b) x = mt a x @ mt b x"
| "mt (Star a) x =
     concat (map (\<lambda>y. if length (snd y) < length (snd x) then mt (Star a) y else []) (mt a x)) @ [x]"
| "mt WordB x = (if word_at (fst x) \<noteq> word_at (next_char (snd x)) then [x] else [])"
  by pat_completeness auto
termination
  by (relation "measures [\<lambda>(r, x). size r, \<lambda>(r, x). length (snd x)]") auto

text \<open>The equation for \<open>Star\<close> unfolds itself; proofs use \<open>mt_Star_set\<close> instead.\<close>

declare mt.simps(5) [simp del]

definition lit :: "char \<Rightarrow> regex" where
  "lit c = Cls (\<lambda>d. d = c)"

definition Plus :: "regex \<Rightarrow> regex" where
  "Plus r = Seq r (Star r)"

definition Opt :: "regex \<Rightarrow> regex" where
  "Opt r = Alt r Eps"

primrec lits :: "string \<Rightarrow> regex" where
  "lits [] = Eps"
| "lits (c # cs) = Seq (lit c) (lits cs)"

primrec rep :: "nat \<Rightarrow> regex \<Rightarrow> regex" where
  "rep 0 r = Eps"
| "rep (Suc n) r = Seq r (rep n r)"

primrec rep_upto :: "nat \<Rightarrow> regex \<Rightarrow> regex" where
  "rep_upto 0 r = Eps"
| "rep_upto (Suc n) r = Opt (Seq r (rep_upto n r))"

text \<open>\<^verbatim>\<open>MatchString\<close> of a pattern anchored on both sides.\<close>

definition full_match :: "regex \<Rightarrow> string \<Rightarrow> bool" where
  "full_match r s = list_ex (\<lambda>y. snd y = []) (mt r (None, s))"

text \<open>\<^verbatim>\<open>MatchString\<close> of an unanchored pattern: some start position matches.\<close>

fun search :: "regex \<Rightarrow> pos \<Rightarrow> bool" where
  "search r (p, []) = (mt r (p, []) \<noteq> [])"
| "search r (p, c # cs) = (mt r (p, c # cs) \<noteq> [] \<or> search r (Some c, cs))"

text \<open>
  \<^verbatim>\<open>FindStringSubmatch\<close> of a pattern of the shape \<^verbatim>\<open>^(a)b(c)$\<close>: the two groups
  of the highest-priority match.
\<close>

definition consumed :: "pos \<Rightarrow> pos \<Rightarrow> string" where
  "consumed x y = take (length (snd x) - length (snd y)) (snd x)"

definition submatches :: "regex \<Rightarrow> regex \<Rightarrow> regex \<Rightarrow> pos \<Rightarrow> (string \<times> string) list" where
  "submatches a b c x =
     concat (map (\<lambda>y. concat (map (\<lambda>z.
       map (\<lambda>w. (consumed x y, consumed z w)) (filter (\<lambda>w. snd w = []) (mt c z)))
       (mt b y))) (mt a x))"

definition submatch2 :: "regex \<Rightarrow> regex \<Rightarrow> regex \<Rightarrow> string \<Rightarrow> (string \<times> string) option" where
  "submatch2 a b c s =
     (case submatches a b c (None, s) of [] \<Rightarrow> None | m # _ \<Rightarrow> Some m)"

section \<open>Languages\<close>

inductive_set star :: "string set \<Rightarrow> string set" for L :: "string set" where
  star_empty: "[] \<in> star L"
| star_step: "u \<in> L \<Longrightarrow> v \<in> star L \<Longrightarrow> u @ v \<in> star L"

primrec lang :: "regex \<Rightarrow> string set" where
  "lang Eps = {[]}"
| "lang (Cls P) = {[c] |c. P c}"
| "lang (Seq a b) = {u @ v |u v. u \<in> lang a \<and> v \<in> lang b}"
| "lang (Alt a b) = lang a \<union> lang b"
| "lang (Star a) = star (lang a)"
| "lang WordB = {}"

primrec boundary_free :: "regex \<Rightarrow> bool" where
  "boundary_free Eps = True"
| "boundary_free (Cls P) = True"
| "boundary_free (Seq a b) = (boundary_free a \<and> boundary_free b)"
| "boundary_free (Alt a b) = (boundary_free a \<and> boundary_free b)"
| "boundary_free (Star a) = boundary_free a"
| "boundary_free WordB = False"

lemma mt_Star_set:
  "y \<in> set (mt (Star a) x) \<longleftrightarrow>
     y = x \<or> (\<exists>z \<in> set (mt a x). length (snd z) < length (snd x) \<and> y \<in> set (mt (Star a) z))"
  by (subst mt.simps(5)) auto

lemma mt_Star_refl: "x \<in> set (mt (Star a) x)"
  using mt_Star_set[of x a x] by blast

lemma mt_Star_step:
  "z \<in> set (mt a x) \<Longrightarrow> length (snd z) < length (snd x) \<Longrightarrow> y \<in> set (mt (Star a) z) \<Longrightarrow>
    y \<in> set (mt (Star a) x)"
  using mt_Star_set[of y a x] by blast

lemma mt_suffix: "y \<in> set (mt r x) \<Longrightarrow> \<exists>u. snd x = u @ snd y"
proof (induction r x arbitrary: y rule: mt.induct)
  case (3 a b x)
  then obtain z where z: "z \<in> set (mt a x)" "y \<in> set (mt b z)" by auto
  then obtain u v where "snd x = u @ snd z" "snd z = v @ snd y"
    using 3 by blast
  then have "snd x = (u @ v) @ snd y" by simp
  then show ?case by blast
next
  case (5 a x)
  show ?case
  proof (cases "y = x")
    case False
    with 5(3) obtain z where z: "z \<in> set (mt a x)" "length (snd z) < length (snd x)"
      "y \<in> set (mt (Star a) z)" unfolding mt_Star_set[of y a x] by blast
    then obtain u v where "snd x = u @ snd z" "snd z = v @ snd y"
      using 5 by blast
    then have "snd x = (u @ v) @ snd y" by simp
    then show ?thesis by blast
  qed simp
qed (auto split: list.splits if_splits)

lemma star_nonempty_step:
  "w \<in> star L \<Longrightarrow> w \<noteq> [] \<Longrightarrow> \<exists>u v. w = u @ v \<and> u \<noteq> [] \<and> u \<in> L \<and> v \<in> star L"
proof (induction rule: star.induct)
  case (star_step u v)
  show ?case
  proof (cases "u = []")
    case True
    with star_step show ?thesis by simp
  next
    case False
    with star_step show ?thesis by blast
  qed
qed simp

text \<open>Everything the matcher consumes is in the language \<dots>\<close>

lemma mt_sound:
  "boundary_free r \<Longrightarrow> y \<in> set (mt r x) \<Longrightarrow> \<exists>u. snd x = u @ snd y \<and> u \<in> lang r"
proof (induction r x arbitrary: y rule: mt.induct)
  case (3 a b x)
  then obtain z where z: "z \<in> set (mt a x)" "y \<in> set (mt b z)" by auto
  moreover have "boundary_free a" "boundary_free b" using 3(3) by simp_all
  ultimately obtain u v where "snd x = u @ snd z" "u \<in> lang a" "snd z = v @ snd y" "v \<in> lang b"
    using 3(1,2) by blast
  then have "snd x = (u @ v) @ snd y \<and> u @ v \<in> lang (Seq a b)" by auto
  then show ?case by blast
next
  case (4 a b x)
  then have "\<exists>u. snd x = u @ snd y \<and> (u \<in> lang a \<or> u \<in> lang b)"
    by (metis Un_iff boundary_free.simps(4) mt.simps(4) set_append)
  then show ?case by simp
next
  case (5 a x)
  show ?case
  proof (cases "y = x")
    case True
    then show ?thesis by (auto intro: star_empty)
  next
    case False
    with 5(4) obtain z where z: "z \<in> set (mt a x)" "length (snd z) < length (snd x)"
      "y \<in> set (mt (Star a) z)" unfolding mt_Star_set[of y a x] by blast
    moreover have "boundary_free a" using 5(3) by simp
    ultimately obtain u v where "snd x = u @ snd z" "u \<in> lang a" "snd z = v @ snd y" "v \<in> lang (Star a)"
      using 5(1,2) 5(3) by blast
    then have "snd x = (u @ v) @ snd y \<and> u @ v \<in> lang (Star a)" by (auto intro: star_step)
    then show ?thesis by blast
  qed
qed (auto split: list.splits if_splits)

text \<open>\<dots> and every word of the language is consumed by some match.\<close>

lemma mt_complete:
  "u \<in> lang r \<Longrightarrow> \<exists>q. (q, v) \<in> set (mt r (p, u @ v))"
proof (induction r arbitrary: u v p)
  case (Seq a b)
  then obtain u1 u2 where u: "u = u1 @ u2" "u1 \<in> lang a" "u2 \<in> lang b" by auto
  from Seq.IH(1)[OF u(2), of "u2 @ v" p] obtain q where q: "(q, u2 @ v) \<in> set (mt a (p, u @ v))"
    by (auto simp: u(1))
  from Seq.IH(2)[OF u(3)] obtain q' where "(q', v) \<in> set (mt b (q, u2 @ v))" by blast
  with q show ?case by (auto intro!: bexI[of _ "(q, u2 @ v)"])
next
  case (Alt a b)
  then show ?case by fastforce
next
  case (Star a)
  have "\<exists>q. (q, v) \<in> set (mt (Star a) (p, u @ v))"
    using Star.prems
  proof (induction "length u" arbitrary: u p rule: less_induct)
    case less
    show ?case
    proof (cases "u = []")
      case True
      then show ?thesis using mt_Star_refl[of "(p, v)" a] by auto
    next
      case False
      with less.prems obtain u1 u2 where u: "u = u1 @ u2" "u1 \<noteq> []" "u1 \<in> lang a" "u2 \<in> star (lang a)"
        using star_nonempty_step[of u "lang a"] by auto
      from Star.IH[OF u(3), of "u2 @ v" p] obtain q where q: "(q, u2 @ v) \<in> set (mt a (p, u @ v))"
        by (auto simp: u(1))
      have "length u2 < length u" using u by simp
      from less.hyps[OF this] u(4) obtain q' where "(q', v) \<in> set (mt (Star a) (q, u2 @ v))" by auto
      moreover have "length (snd (q, u2 @ v)) < length (snd (p, u @ v))" using u by simp
      ultimately have "(q', v) \<in> set (mt (Star a) (p, u @ v))" by (intro mt_Star_step[OF q])
      then show ?thesis ..
    qed
  qed
  then show ?case .
qed auto

lemma full_match_lang: "boundary_free r \<Longrightarrow> full_match r s \<longleftrightarrow> s \<in> lang r"
proof
  assume bf: "boundary_free r" and "full_match r s"
  then obtain q where "(q, []) \<in> set (mt r (None, s))"
    by (auto simp: full_match_def list_ex_iff)
  from mt_sound[OF bf this] show "s \<in> lang r" by auto
next
  assume "s \<in> lang r"
  from mt_complete[OF this, of "[]" None] obtain q where "(q, []) \<in> set (mt r (None, s))"
    by auto
  then show "full_match r s"
    by (auto simp: full_match_def list_ex_iff intro!: bexI[of _ "(q, [])"])
qed

section \<open>The derived forms\<close>

lemma star_class: "star {[c] |c. P c} = {s. list_all P s}"
proof (rule set_eqI)
  fix s
  have "s \<in> star {[c] |c. P c} \<Longrightarrow> list_all P s"
    by (induction rule: star.induct) auto
  moreover have "list_all P s \<Longrightarrow> s \<in> star {[c] |c. P c}"
  proof (induction s)
    case Nil
    show ?case by (rule star_empty)
  next
    case (Cons c s)
    then show ?case using star_step[of "[c]" "{[c] |c. P c}" s] by auto
  qed
  ultimately show "s \<in> star {[c] |c. P c} \<longleftrightarrow> s \<in> {s. list_all P s}" by auto
qed

lemma lang_lit [simp]: "lang (lit c) = {[c]}"
  by (auto simp: lit_def)

lemma lang_lits [simp]: "lang (lits s) = {s}"
  by (induction s) auto

lemma lang_Opt [simp]: "lang (Opt r) = insert [] (lang r)"
  by (auto simp: Opt_def)

lemma lang_Seq_Cls: "lang (Seq (Cls P) r) = {c # v |c v. P c \<and> v \<in> lang r}"
proof (rule set_eqI)
  fix s
  show "s \<in> lang (Seq (Cls P) r) \<longleftrightarrow> s \<in> {c # v |c v. P c \<and> v \<in> lang r}"
    by simp (metis append_Cons append_Nil)
qed

lemma lang_Star_Cls [simp]: "lang (Star (Cls P)) = {s. list_all P s}"
  by (simp add: star_class)

lemma lang_Plus_Cls [simp]: "lang (Plus (Cls P)) = {s. s \<noteq> [] \<and> list_all P s}"
proof (rule set_eqI)
  fix s
  show "s \<in> lang (Plus (Cls P)) \<longleftrightarrow> s \<in> {s. s \<noteq> [] \<and> list_all P s}"
    by (cases s) (auto simp: Plus_def lang_Seq_Cls star_class simp del: lang.simps(3))
qed

lemma lang_rep_Cls: "lang (rep n (Cls P)) = {s. length s = n \<and> list_all P s}"
proof (induction n)
  case (Suc n)
  show ?case
  proof (rule set_eqI)
    fix s
    show "s \<in> lang (rep (Suc n) (Cls P)) \<longleftrightarrow> s \<in> {s. length s = Suc n \<and> list_all P s}"
      by (cases s) (auto simp: Suc lang_Seq_Cls simp del: lang.simps(3))
  qed
qed auto

lemma boundary_free_derived [simp]:
  "boundary_free (lit c)" "boundary_free (lits s)"
  "boundary_free (Plus r) = boundary_free r" "boundary_free (Opt r) = boundary_free r"
  by (auto simp: lit_def Plus_def Opt_def) (induction s; simp add: lit_def)

lemma boundary_free_rep [simp]: "boundary_free r \<Longrightarrow> boundary_free (rep n r)"
  by (induction n) auto

section \<open>Submatches\<close>

lemma consumed_append: "snd x = u @ snd y \<Longrightarrow> consumed x y = u"
  by (simp add: consumed_def)

lemma submatches_iff:
  "(g1, g2) \<in> set (submatches a b c x) \<longleftrightarrow>
     (\<exists>y z w. y \<in> set (mt a x) \<and> z \<in> set (mt b y) \<and> w \<in> set (mt c z) \<and> snd w = [] \<and>
        g1 = consumed x y \<and> g2 = consumed z w)"
proof
  assume "(g1, g2) \<in> set (submatches a b c x)"
  then obtain y z w where "y \<in> set (mt a x)" "z \<in> set (mt b y)"
      "(g1, g2) = (consumed x y, consumed z w)" "w \<in> set (mt c z)" "snd w = []"
    by (auto simp: submatches_def)
  then show "\<exists>y z w. y \<in> set (mt a x) \<and> z \<in> set (mt b y) \<and> w \<in> set (mt c z) \<and> snd w = [] \<and>
        g1 = consumed x y \<and> g2 = consumed z w" by blast
next
  assume "\<exists>y z w. y \<in> set (mt a x) \<and> z \<in> set (mt b y) \<and> w \<in> set (mt c z) \<and> snd w = [] \<and>
        g1 = consumed x y \<and> g2 = consumed z w"
  then obtain y z w where "y \<in> set (mt a x)" "z \<in> set (mt b y)"
      "(g1, g2) = (consumed x y, consumed z w)" "w \<in> set (mt c z)" "snd w = []" by blast
  then show "(g1, g2) \<in> set (submatches a b c x)"
    by (force simp: submatches_def)
qed

lemma submatch2_sound:
  assumes "boundary_free a" "boundary_free b" "boundary_free c"
    and "submatch2 a b c s = Some (g1, g2)"
  shows "\<exists>m. s = g1 @ m @ g2 \<and> g1 \<in> lang a \<and> m \<in> lang b \<and> g2 \<in> lang c"
proof -
  from assms(4) have "(g1, g2) \<in> set (submatches a b c (None, s))"
    by (cases "submatches a b c (None, s)") (simp_all add: submatch2_def)
  then obtain y z w where m: "y \<in> set (mt a (None, s))" "z \<in> set (mt b y)" "w \<in> set (mt c z)"
      "snd w = []" "g1 = consumed (None, s) y" "g2 = consumed z w"
    unfolding submatches_iff by blast
  from mt_sound[OF assms(1) m(1)] obtain u where u: "s = u @ snd y" "u \<in> lang a" by auto
  from mt_sound[OF assms(2) m(2)] obtain v where v: "snd y = v @ snd z" "v \<in> lang b" by auto
  from mt_sound[OF assms(3) m(3)] obtain t where t: "snd z = t @ snd w" "t \<in> lang c" by auto
  have "g1 = u" "g2 = t" using m u t by (auto simp: consumed_def)
  with u v t m(4) show ?thesis by auto
qed

lemma submatch2_complete:
  assumes "g1 \<in> lang a" "m \<in> lang b" "g2 \<in> lang c"
  shows "submatch2 a b c (g1 @ m @ g2) \<noteq> None"
proof -
  let ?x = "(None, g1 @ m @ g2) :: pos"
  from mt_complete[OF assms(1), of "m @ g2" None] obtain q1
    where 1: "(q1, m @ g2) \<in> set (mt a ?x)" by blast
  from mt_complete[OF assms(2), of g2 q1] obtain q2
    where 2: "(q2, g2) \<in> set (mt b (q1, m @ g2))" by blast
  from mt_complete[OF assms(3), of "[]" q2] obtain q3
    where 3: "(q3, []) \<in> set (mt c (q2, g2))" by auto
  have "(consumed ?x (q1, m @ g2), consumed (q2, g2) (q3, [])) \<in> set (submatches a b c ?x)"
    unfolding submatches_iff by (intro exI conjI, rule 1, rule 2, rule 3) simp_all
  then show ?thesis
    by (cases "submatches a b c ?x") (simp_all add: submatch2_def)
qed

end
