(* ===== verification/SpecIds.thy ===== *)
theory SpecIds
  imports GoRegexp
begin

text \<open>
  Component identifiers: \<^verbatim>\<open>spec/ids.go\<close> and \<^verbatim>\<open>registry/id.go\<close>. The patterns are
  those of the source, written with the constructors of \<open>GoRegexp\<close>; the lemmas give
  the grammar of a component id, that \<^verbatim>\<open>ParseID\<close> splits it in the one possible way,
  and that parsing inverts \<open>name @ ''@'' @ version\<close>.
\<close>

definition name_head :: "char \<Rightarrow> bool" where
  "name_head c = is_lower c"

definition name_tail :: "char \<Rightarrow> bool" where
  "name_tail c \<longleftrightarrow> is_lower c \<or> is_digit c \<or> c = CHR ''.'' \<or> c = CHR ''-''"

text \<open>\<^verbatim>\<open>^([a-z][a-z0-9.-]*)@(\d+\.\d+\.\d+)$\<close>\<close>

definition idNameRegexp :: regex where
  "idNameRegexp = Seq (Cls name_head) (Star (Cls name_tail))"

definition idVersionRegexp :: regex where
  "idVersionRegexp =
     Seq (Plus (Cls is_digit)) (Seq (lit CHR ''.'') (Seq (Plus (Cls is_digit))
       (Seq (lit CHR ''.'') (Plus (Cls is_digit)))))"

definition ParseID :: "string \<Rightarrow> (string \<times> string) result" where
  "ParseID s =
     (case submatch2 idNameRegexp (lit CHR ''@'') idVersionRegexp s of
        None \<Rightarrow> Err (Errorf ''invalid component id %q: want <dotted-name>@<semver>'' [AStr s])
      | Some (name, version) \<Rightarrow> Ok (name, version))"

text \<open>\<^verbatim>\<open>registry.ParseID\<close>: the same check, returning the id unchanged.\<close>

definition RegistryParseID :: "string \<Rightarrow> string result" where
  "RegistryParseID s = bindR (ParseID s) (\<lambda>_. Ok s)"

section \<open>The grammar\<close>

definition valid_name :: "string \<Rightarrow> bool" where
  "valid_name s = (case s of [] \<Rightarrow> False | c # cs \<Rightarrow> name_head c \<and> list_all name_tail cs)"

definition digits :: "string \<Rightarrow> bool" where
  "digits s \<longleftrightarrow> s \<noteq> [] \<and> list_all is_digit s"

definition valid_version :: "string \<Rightarrow> bool" where
  "valid_version s \<longleftrightarrow>
     (\<exists>a b c. digits a \<and> digits b \<and> digits c \<and> s = a @ ''.'' @ b @ ''.'' @ c)"

lemma lang_idName: "lang idNameRegexp = {s. valid_name s}"
proof (rule set_eqI)
  fix s
  show "s \<in> lang idNameRegexp \<longleftrightarrow> s \<in> {s. valid_name s}"
    by (cases s)
      (auto simp: idNameRegexp_def valid_name_def lang_Seq_Cls simp del: lang.simps(3,5))
qed

lemma lang_idVersion: "lang idVersionRegexp = {s. valid_version s}"
  by (auto simp: idVersionRegexp_def valid_version_def digits_def) blast

lemma id_boundary_free [simp]:
  "boundary_free idNameRegexp" "boundary_free idVersionRegexp"
  by (simp_all add: idNameRegexp_def idVersionRegexp_def)

lemma at_not_name_char: "\<not> name_head CHR ''@''" "\<not> name_tail CHR ''@''"
  by (simp_all add: name_head_def name_tail_def is_lower_def is_digit_def in_range_def)

lemma valid_name_no_at: "valid_name s \<Longrightarrow> CHR ''@'' \<notin> set s"
  using at_not_name_char by (cases s) (auto simp: valid_name_def list_all_iff)

lemma split_at_unique:
  assumes "n @ c # v = n' @ c # v'" "c \<notin> set n" "c \<notin> set n'"
  shows "n = n' \<and> v = v'"
  using assms
proof (induction n arbitrary: n')
  case Nil
  then show ?case by (cases n') auto
next
  case (Cons a n)
  then show ?case by (cases n') auto
qed

lemma ParseID_Ok_iff:
  "ParseID s = Ok (n, v) \<longleftrightarrow> s = n @ ''@'' @ v \<and> valid_name n \<and> valid_version v"
proof
  assume "ParseID s = Ok (n, v)"
  then have "submatch2 idNameRegexp (lit CHR ''@'') idVersionRegexp s = Some (n, v)"
    by (auto simp: ParseID_def split: option.splits)
  from submatch2_sound[OF _ _ _ this] show "s = n @ ''@'' @ v \<and> valid_name n \<and> valid_version v"
    by (auto simp: lang_idName lang_idVersion)
next
  assume *: "s = n @ ''@'' @ v \<and> valid_name n \<and> valid_version v"
  then have "submatch2 idNameRegexp (lit CHR ''@'') idVersionRegexp s \<noteq> None"
    using submatch2_complete[of n idNameRegexp "''@''" "lit CHR ''@''" v idVersionRegexp]
    by (simp add: lang_idName lang_idVersion)
  then obtain n' v' where m: "submatch2 idNameRegexp (lit CHR ''@'') idVersionRegexp s = Some (n', v')"
    by auto
  from submatch2_sound[OF _ _ _ this] have "s = n' @ ''@'' @ v'" "valid_name n'"
    by (auto simp: lang_idName)
  with * have "n = n' \<and> v = v'"
    using split_at_unique[of n "CHR ''@''" v n' v'] valid_name_no_at by auto
  with m show "ParseID s = Ok (n, v)" by (simp add: ParseID_def)
qed

lemma ParseID_not_Panic [simp]: "ParseID s \<noteq> Panic p"
  by (auto simp: ParseID_def split: option.splits)

lemma ParseID_noPanic [simp]: "noPanic (ParseID s)"
  by (cases "ParseID s") auto

definition valid_id :: "string \<Rightarrow> bool" where
  "valid_id s = isOk (ParseID s)"

lemma valid_id_iff: "valid_id s \<longleftrightarrow> (\<exists>n v. s = n @ ''@'' @ v \<and> valid_name n \<and> valid_version v)"
  by (auto simp: valid_id_def isOk_iff ParseID_Ok_iff)

lemma valid_id_nonempty: "valid_id s \<Longrightarrow> s \<noteq> []"
  by (auto simp: valid_id_iff valid_name_def)

lemma ParseID_inj:
  "ParseID s = Ok nv \<Longrightarrow> ParseID t = Ok nv \<Longrightarrow> s = t"
  by (cases nv) (simp add: ParseID_Ok_iff)

lemma RegistryParseID_Ok [simp]: "RegistryParseID s = Ok t \<longleftrightarrow> t = s \<and> valid_id s"
  by (auto simp: RegistryParseID_def valid_id_def isOk_iff)

section \<open>Properties\<close>

text \<open>A component id is accepted exactly when it is a dotted lowercase name, an at sign
  and a three-part numeric version, and the parser returns those two parts.\<close>

theorem ParseID_splits:
  "ParseID s = Ok (n, v) \<longleftrightarrow>
     s = n @ ''@'' @ v \<and> valid_name n \<and> valid_version v"
  by (rule ParseID_Ok_iff)

end
