(* ===== verification/SpecTypes.thy ===== *)
theory SpecTypes
  imports SpecIds
begin

text \<open>
  The data of the \<^verbatim>\<open>spec\<close> package: \<^verbatim>\<open>types.go\<close>, the overlay types of
  \<^verbatim>\<open>overlay.go\<close>, the provenance types of \<^verbatim>\<open>provenance.go\<close> and the error
  aggregator of \<^verbatim>\<open>errors.go\<close>. A Go pointer to a struct is an option (\<open>None\<close> is
  nil), a slice whose nilness the code tests is a \<open>slice\<close>. Every record field carries
  a short prefix naming its struct, followed by the Go field name.
\<close>

section \<open>types.go\<close>

type_synonym labels = "(string \<times> string) list option"

record Owner =
  ow_Team :: string
  ow_Contact :: string

record Metadata =
  md_ID :: string
  md_Version :: string
  md_DisplayName :: string
  md_Description :: string
  md_Owners :: "Owner slice"
  md_Labels :: labels

record ComponentRef =
  cr_Ref :: string
  cr_Config :: gomap

record PromptBlock =
  pb_System :: "ComponentRef option"
  pb_User :: "ComponentRef option"

record FilterBlock =
  fb_PreLLM :: "ComponentRef slice"
  fb_PreTool :: "ComponentRef slice"
  fb_PostTool :: "ComponentRef slice"

record BudgetOverrides =
  bo_MaxWallClock :: string
  bo_MaxInputTokens :: int64
  bo_MaxOutputTokens :: int64
  bo_MaxToolCalls :: int64
  bo_MaxCostMicrodollars :: int64

record BudgetRef =
  br_Ref :: string
  br_Overrides :: BudgetOverrides

record CredRef =
  cd_Ref :: string
  cd_Scopes :: "string slice"

record AgentSpec =
  s_APIVersion :: string
  s_Kind :: string
  s_Metadata :: Metadata
  s_Provider :: ComponentRef
  s_Prompt :: PromptBlock
  s_Tools :: "ComponentRef slice"
  s_Policies :: "ComponentRef slice"
  s_Filters :: FilterBlock
  s_Budget :: "BudgetRef option"
  s_Telemetry :: "ComponentRef option"
  s_Credentials :: "CredRef option"
  s_Identity :: "ComponentRef option"
  s_Extends :: "string slice"
  s_Skills :: "ComponentRef slice"
  s_MCPImports :: "ComponentRef slice"
  s_OutputContract :: "ComponentRef option"

text \<open>Go's zero values, which \<^verbatim>\<open>var merged AgentSpec\<close> starts from.\<close>

definition zeroMetadata :: Metadata where
  "zeroMetadata = \<lparr>md_ID = [], md_Version = [], md_DisplayName = [], md_Description = [],
     md_Owners = None, md_Labels = None\<rparr>"

definition zeroAgentSpec :: AgentSpec where
  "zeroAgentSpec = \<lparr>s_APIVersion = [], s_Kind = [], s_Metadata = zeroMetadata,
     s_Provider = \<lparr>cr_Ref = [], cr_Config = None\<rparr>,
     s_Prompt = \<lparr>pb_System = None, pb_User = None\<rparr>,
     s_Tools = None, s_Policies = None,
     s_Filters = \<lparr>fb_PreLLM = None, fb_PreTool = None, fb_PostTool = None\<rparr>,
     s_Budget = None, s_Telemetry = None, s_Credentials = None, s_Identity = None,
     s_Extends = None, s_Skills = None, s_MCPImports = None, s_OutputContract = None\<rparr>"

section \<open>overlay.go\<close>

record RefList =
  rl_Set :: bool
  rl_Items :: "ComponentRef slice"
  rl_Line :: int

record OverlayMetadata =
  om_ID :: string
  om_Version :: string
  om_DisplayName :: string
  om_Description :: string
  om_Owners :: "Owner slice"
  om_Labels :: labels

record FilterOverlay =
  fo_PreLLM :: RefList
  fo_PreTool :: RefList
  fo_PostTool :: RefList

record AgentOverlayBody =
  ob_Metadata :: "OverlayMetadata option"
  ob_Provider :: "ComponentRef option"
  ob_Prompt :: "PromptBlock option"
  ob_Tools :: RefList
  ob_Policies :: RefList
  ob_Filters :: "FilterOverlay option"
  ob_Budget :: "BudgetRef option"
  ob_Telemetry :: "ComponentRef option"
  ob_Credentials :: "CredRef option"
  ob_Identity :: "ComponentRef option"

record AgentOverlay =
  ov_APIVersion :: string
  ov_Kind :: string
  ov_Name :: string
  ov_Spec :: AgentOverlayBody
  ov_File :: string

definition unsetRefList :: RefList where
  "unsetRefList = \<lparr>rl_Set = False, rl_Items = None, rl_Line = 0\<rparr>"

definition emptyBody :: AgentOverlayBody where
  "emptyBody = \<lparr>ob_Metadata = None, ob_Provider = None, ob_Prompt = None,
     ob_Tools = unsetRefList, ob_Policies = unsetRefList, ob_Filters = None,
     ob_Budget = None, ob_Telemetry = None, ob_Credentials = None, ob_Identity = None\<rparr>"

section \<open>provenance.go\<close>

datatype Role = RoleBase | RoleParent | RoleOverlay

record Provenance =
  pv_File :: string
  pv_Line :: int
  pv_Role :: Role
  pv_Step :: int

definition baseProv :: Provenance where
  "baseProv = \<lparr>pv_File = [], pv_Line = 0, pv_Role = RoleBase, pv_Step = 0\<rparr>"

record provenanceFields =
  pf_APIVersion :: Provenance
  pf_Kind :: Provenance
  pf_Metadata :: Provenance
  pf_Provider :: Provenance
  pf_Prompt :: Provenance
  pf_Tools :: Provenance
  pf_Policies :: Provenance
  pf_Filters :: Provenance
  pf_Budget :: Provenance
  pf_Telemetry :: Provenance
  pf_Credentials :: Provenance
  pf_Identity :: Provenance
  pf_Skills :: Provenance
  pf_OutputContract :: Provenance
  pf_MCPImports :: Provenance

record OverlayAttribution =
  oa_Name :: string
  oa_File :: string

record NormalizedSpec =
  ns_Spec :: AgentSpec
  ns_ExtendsChain :: "string slice"
  ns_Overlays :: "OverlayAttribution slice"
  ns_fields :: provenanceFields

section \<open>errors.go\<close>

record Errors =
  er_msgs :: "garg list"
  er_sentinels :: "gerror list"

definition noErrors :: Errors where
  "noErrors = \<lparr>er_msgs = [], er_sentinels = []\<rparr>"

definition Addf :: "string \<Rightarrow> garg list \<Rightarrow> Errors \<Rightarrow> Errors" where
  "Addf f args e = e\<lparr>er_msgs := er_msgs e @ [AFmt f args]\<rparr>"

definition Wrap :: "gerror \<Rightarrow> string \<Rightarrow> garg list \<Rightarrow> Errors \<Rightarrow> Errors" where
  "Wrap sent f args e =
     e\<lparr>er_msgs := er_msgs e @ [AFmt f args], er_sentinels := er_sentinels e @ [sent]\<rparr>"

definition Len :: "Errors \<Rightarrow> nat" where
  "Len e = length (er_msgs e)"

definition OrNil :: "Errors \<Rightarrow> gerror option" where
  "OrNil e = (if length (er_msgs e) = 0 then None
     else Some (ErrorsAgg (er_msgs e) (er_sentinels e)))"

definition Errors_Is :: "Errors \<Rightarrow> sentinel \<Rightarrow> bool" where
  "Errors_Is e target =
     (if target = ErrValidation then True
      else list_ex (\<lambda>s. errors_is s target) (er_sentinels e))"

text \<open>
  An \<open>Errors\<close> value is well formed when every sentinel came with a message: only
  \<open>Wrap\<close> appends sentinels, so \<open>OrNil\<close> cannot drop one.
\<close>

definition errors_wf :: "Errors \<Rightarrow> bool" where
  "errors_wf e \<longleftrightarrow> length (er_sentinels e) \<le> length (er_msgs e)"

lemma errors_wf_ops [simp, forge_inv]:
  "errors_wf noErrors" "errors_wf e \<Longrightarrow> errors_wf (Addf f as e)"
  "errors_wf e \<Longrightarrow> errors_wf (Wrap s f as e)"
  by (simp_all add: errors_wf_def noErrors_def Addf_def Wrap_def)

lemma Addf_msgs [simp]:
  "er_msgs (Addf f as e) = er_msgs e @ [AFmt f as]"
  "er_sentinels (Addf f as e) = er_sentinels e"
  by (simp_all add: Addf_def)

lemma Wrap_msgs [simp]:
  "er_msgs (Wrap s f as e) = er_msgs e @ [AFmt f as]"
  "er_sentinels (Wrap s f as e) = er_sentinels e @ [s]"
  by (simp_all add: Wrap_def)

lemma noErrors_msgs [simp]: "er_msgs noErrors = []" "er_sentinels noErrors = []"
  by (simp_all add: noErrors_def)

lemma OrNil_None_iff [simp]: "OrNil e = None \<longleftrightarrow> er_msgs e = []"
  by (simp add: OrNil_def)

lemma OrNil_Some: "er_msgs e \<noteq> [] \<Longrightarrow> OrNil e = Some (ErrorsAgg (er_msgs e) (er_sentinels e))"
  by (simp add: OrNil_def)

text \<open>The aggregate answers \<^verbatim>\<open>errors.Is\<close> exactly as its \<^verbatim>\<open>Is\<close> method does.\<close>

lemma OrNil_is: "OrNil e = Some err \<Longrightarrow> errors_is err t = Errors_Is e t"
  by (auto simp: OrNil_def Errors_Is_def split: if_splits)

lemma Errors_Is_ops [simp]:
  "Errors_Is (Addf f as e) t = Errors_Is e t"
  "Errors_Is (Wrap s f as e) t \<longleftrightarrow> Errors_Is e t \<or> errors_is s t"
  by (auto simp: Errors_Is_def)

end
