(* ===== verification/SpecExtends.thy ===== *)
theory SpecExtends
  imports SpecTypes
begin

text \<open>
  Resolution of \<^verbatim>\<open>extends\<close>: the store interface and \<^verbatim>\<open>MapSpecStore\<close> of
  \<^verbatim>\<open>store.go\<close>, and \<^verbatim>\<open>resolveExtendsChain\<close> of \<^verbatim>\<open>normalize.go\<close>.

  A context is the stream of answers its \<^verbatim>\<open>Err()\<close> method gives: \<open>ctx n\<close> is the
  answer at the \<open>n\<close>-th observation, and the clock of the walk counts observations (one
  per \<^verbatim>\<open>ctx.Err()\<close>, one per call of the store). A store is called with the context
  and the clock, so that it may observe cancellation and may answer differently at
  different times; a nil \<^verbatim>\<open>*AgentSpec\<close> returned without an error is \<open>Ok None\<close>.
\<close>

type_synonym ctx = "nat \<Rightarrow> gerror option"
type_synonym SpecStore = "ctx \<Rightarrow> nat \<Rightarrow> string \<Rightarrow> AgentSpec option result"

text \<open>The context that is never cancelled (\<^verbatim>\<open>context.Background()\<close>).\<close>

definition background :: ctx where
  "background n = None"

lemma background_simp [simp]: "background n = None"
  by (simp add: background_def)

section \<open>store.go: MapSpecStore\<close>

definition MapSpecStore_Load :: "(string \<times> AgentSpec option) list \<Rightarrow> SpecStore" where
  "MapSpecStore_Load m ctx n ref =
     (case ctx n of
        Some err \<Rightarrow> Err err
      | None \<Rightarrow> (case map_of m ref of
          None \<Rightarrow> Err (Errorf ''MapSpecStore: %s: %w'' [AStr ref, AWrap (Sentinel ErrSpecNotFound)])
        | Some s \<Rightarrow> Ok s))"

section \<open>normalize.go: resolveExtendsChain\<close>

definition MaxExtendsDepth :: nat where
  "MaxExtendsDepth = 8"

text \<open>
  The variables captured by the \<^verbatim>\<open>walk\<close> closure, and the clock of the context.
\<close>

record walkState =
  w_visited :: "string list"
  w_parents :: "AgentSpec list"
  w_chain :: "string list"
  w_clock :: nat

definition resolveErr :: "string \<Rightarrow> gerror \<Rightarrow> gerror" where
  "resolveErr ref e = Errorf ''resolve %q: %w'' [AStr ref, AWrap e]"

text \<open>
  One iteration of the loop over \<^verbatim>\<open>node.Extends\<close>; \<open>rec\<close> is the recursive call
  \<^verbatim>\<open>walk(parent, parentRef, depth+1, cycledPath)\<close>.
\<close>

definition walkStep :: "SpecStore \<Rightarrow> ctx \<Rightarrow> (AgentSpec option \<Rightarrow> string list \<Rightarrow> walkState \<Rightarrow> walkState result)
    \<Rightarrow> string list \<Rightarrow> string \<Rightarrow> walkState \<Rightarrow> walkState result" where
  "walkStep store ctx rec path parentRef st =
     (let cycledPath = path @ [parentRef] in
      if parentRef \<in> set (w_visited st) then Err (ExtendsError cycledPath ''cycle'')
      else
        let loaded = store ctx (w_clock st) parentRef;
            st = st\<lparr>w_visited := parentRef # w_visited st, w_clock := Suc (w_clock st)\<rparr>
        in bindR (wrapErr (resolveErr parentRef) loaded)
          (\<lambda>parent. bindR (rec parent cycledPath st)
            (\<lambda>st. case parent of
               None \<Rightarrow> Panic ''nil pointer dereference: parent''
             | Some p \<Rightarrow> Ok (st\<lparr>w_parents := w_parents st @ [p],
                              w_chain := w_chain st @ [parentRef]\<rparr>))))"

function walk :: "SpecStore \<Rightarrow> ctx \<Rightarrow> AgentSpec option \<Rightarrow> nat \<Rightarrow> string list \<Rightarrow> walkState \<Rightarrow>
    walkState result" where
  "walk store ctx node depth path st =
     (case ctx (w_clock st) of
        Some err \<Rightarrow> Err err
      | None \<Rightarrow>
        let st = st\<lparr>w_clock := Suc (w_clock st)\<rparr> in
        if depth > MaxExtendsDepth then Err (ExtendsError path ''depth'')
        else (case node of
          None \<Rightarrow> Panic ''nil pointer dereference: node.Extends''
        | Some s \<Rightarrow>
            foldR (\<lambda>_. walkStep store ctx (\<lambda>parent. walk store ctx parent (depth + 1)) path)
              0 (elems (s_Extends s)) st))"
  by pat_completeness auto
termination
  by (relation "measure (\<lambda>(_, _, _, depth, _, _). Suc MaxExtendsDepth - depth)") auto

declare walk.simps [simp del]

text \<open>
  Results are the parents and their refs, root first. Without \<^verbatim>\<open>extends\<close> the store
  is not consulted and both slices are nil.
\<close>

definition emptyWalk :: "nat \<Rightarrow> walkState" where
  "emptyWalk n = \<lparr>w_visited = [], w_parents = [], w_chain = [], w_clock = n\<rparr>"

definition resolveExtendsChain :: "ctx \<Rightarrow> AgentSpec \<Rightarrow> SpecStore option \<Rightarrow>
    (AgentSpec list \<times> string slice) result" where
  "resolveExtendsChain ctx s store =
     (if length (elems (s_Extends s)) = 0 then Ok ([], None)
      else (case store of
        None \<Rightarrow> Err (Sentinel ErrNoSpecStore)
      | Some ld \<Rightarrow> bindR (walk ld ctx (Some s) 0 [] (emptyWalk 0))
          (\<lambda>st. Ok (w_parents st, Some (w_chain st)))))"

text \<open>
  \<open>append(parents, p)\<close> on a non-empty \<^verbatim>\<open>extends\<close> runs at least once before the walk
  succeeds, so the chain of a successful walk is never the nil slice.
\<close>


section \<open>What any walk guarantees\<close>

text \<open>
  \<open>walked\<close> relates the state before and after: the chain is extended by refs that were
  not visited before, pairwise distinct, now all visited, each with its parent.
\<close>

definition walked :: "walkState \<Rightarrow> walkState \<Rightarrow> bool" where
  "walked st st' \<longleftrightarrow> (\<exists>ch ps. w_chain st' = w_chain st @ ch \<and> w_parents st' = w_parents st @ ps \<and>
     length ps = length ch \<and> distinct ch \<and> set ch \<inter> set (w_visited st) = {} \<and>
     set (w_visited st') = set (w_visited st) \<union> set ch)"

lemma walked_refl [simp, intro]: "walked st st" "walked st (st\<lparr>w_clock := n\<rparr>)"
  by (simp_all add: walked_def)

lemma walked_trans: "walked a b \<Longrightarrow> walked b c \<Longrightarrow> walked a c"
proof -
  assume "walked a b" "walked b c"
  then obtain ch ps dh qs where
    "w_chain b = w_chain a @ ch" "w_parents b = w_parents a @ ps" "length ps = length ch"
    "distinct ch" "set ch \<inter> set (w_visited a) = {}"
    "set (w_visited b) = set (w_visited a) \<union> set ch"
    "w_chain c = w_chain b @ dh" "w_parents c = w_parents b @ qs" "length qs = length dh"
    "distinct dh" "set dh \<inter> set (w_visited b) = {}"
    "set (w_visited c) = set (w_visited b) \<union> set dh"
    unfolding walked_def by blast
  then show ?thesis
    unfolding walked_def by (intro exI[of _ "ch @ dh"] exI[of _ "ps @ qs"]) auto
qed

lemma foldR_walked:
  assumes "foldR (\<lambda>_. f) i xs st = Ok st'" and "\<And>x s t. f x s = Ok t \<Longrightarrow> walked s t"
  shows "walked st st'"
  using assms(1)
proof (induction xs arbitrary: i st)
  case (Cons x xs)
  then obtain s where "f x st = Ok s" "foldR (\<lambda>_. f) (Suc i) xs s = Ok st'" by auto
  with Cons.IH assms(2) show ?case by (blast intro: walked_trans)
qed simp

lemma walkStep_walked:
  assumes "walkStep store ctx rec path r st = Ok st'"
    and "\<And>p q s t. rec p q s = Ok t \<Longrightarrow> walked s t"
  shows "walked st st'"
proof -
  from assms(1) obtain p s where r: "r \<notin> set (w_visited st)"
    and s: "rec (Some p) (path @ [r]) (st\<lparr>w_visited := r # w_visited st, w_clock := Suc (w_clock st)\<rparr>) = Ok s"
    and st': "st' = s\<lparr>w_parents := w_parents s @ [p], w_chain := w_chain s @ [r]\<rparr>"
    by (auto simp: walkStep_def Let_def split: if_splits option.splits)
  from assms(2)[OF s] obtain ch ps where
    "w_chain s = w_chain st @ ch" "w_parents s = w_parents st @ ps" "length ps = length ch"
    "distinct ch" "set ch \<inter> set (r # w_visited st) = {}"
    "set (w_visited s) = set (r # w_visited st) \<union> set ch"
    by (auto simp: walked_def)
  with r st' show ?thesis
    unfolding walked_def by (intro exI[of _ "ch @ [r]"] exI[of _ "ps @ [p]"]) auto
qed

lemma walk_walked: "walk store ctx node depth path st = Ok st' \<Longrightarrow> walked st st'"
proof (induction store ctx node depth path st arbitrary: st' rule: walk.induct)
  case (1 store ctx node depth path st)
  from "1.prems" obtain s where d: "\<not> depth > MaxExtendsDepth" and c: "ctx (w_clock st) = None"
    and n: "node = Some s"
    and f: "foldR (\<lambda>_. walkStep store ctx (\<lambda>parent. walk store ctx parent (depth + 1)) path)
              0 (elems (s_Extends s)) (st\<lparr>w_clock := Suc (w_clock st)\<rparr>) = Ok st'"
    by (subst (asm) walk.simps) (auto simp: Let_def split: option.splits if_splits)
  have "walked (st\<lparr>w_clock := Suc (w_clock st)\<rparr>) st'"
    using f
  proof (rule foldR_walked)
    show "walked s t" if "walkStep store ctx (\<lambda>parent. walk store ctx parent (depth + 1)) path x s = Ok t"
      for x s t
      using that
    proof (rule walkStep_walked)
      show "walked s t" if "walk store ctx p (depth + 1) q s = Ok t" for p q s t
        using "1.IH"[OF c refl d n] that by blast
    qed
  qed
  then show ?case by (rule walked_trans[OF walked_refl(2)])
qed

section \<open>Which errors a walk returns\<close>

lemma foldR_Err:
  "foldR (\<lambda>_. f) i xs st = Err e \<Longrightarrow> \<exists>x \<in> set xs. \<exists>s. f x s = Err e"
  by (induction xs arbitrary: i st) (auto simp: bindR_eq_Err)

lemma foldR_Panic:
  "foldR (\<lambda>_. f) i xs st = Panic e \<Longrightarrow> \<exists>x \<in> set xs. \<exists>s. f x s = Panic e"
  by (induction xs arbitrary: i st) auto

lemma wrapErr_eq_Err: "wrapErr g r = Err e \<longleftrightarrow> (\<exists>e'. r = Err e' \<and> e = g e')"
  by (cases r) auto

text \<open>
  The context's own error; a cycle or depth violation, with the refs that led to it; or
  an error of the store, wrapped with the ref it was loading.
\<close>

definition walkError :: "SpecStore \<Rightarrow> ctx \<Rightarrow> gerror \<Rightarrow> bool" where
  "walkError store ctx e \<longleftrightarrow> (\<exists>n. ctx n = Some e) \<or>
     (\<exists>ch. e = ExtendsError ch ''cycle'' \<and> 1 \<le> length ch \<and> length ch \<le> Suc MaxExtendsDepth) \<or>
     (\<exists>ch. e = ExtendsError ch ''depth'' \<and> length ch = Suc MaxExtendsDepth) \<or>
     (\<exists>n ref e'. store ctx n ref = Err e' \<and> e = resolveErr ref e')"

lemma walkError_intros:
  "ctx n = Some e \<Longrightarrow> walkError store ctx e"
  "1 \<le> length ch \<Longrightarrow> length ch \<le> Suc MaxExtendsDepth \<Longrightarrow> walkError store ctx (ExtendsError ch ''cycle'')"
  "length ch = Suc MaxExtendsDepth \<Longrightarrow> walkError store ctx (ExtendsError ch ''depth'')"
  "store ctx n ref = Err e' \<Longrightarrow> walkError store ctx (resolveErr ref e')"
  unfolding walkError_def by blast+

lemma walkStep_Err:
  assumes "walkStep store ctx rec path r st = Err e" and "length path \<le> MaxExtendsDepth"
    and "\<And>p s. rec p (path @ [r]) s = Err e \<Longrightarrow> walkError store ctx e"
  shows "walkError store ctx e"
  using assms by (auto simp: walkStep_def Let_def bindR_eq_Err wrapErr_eq_Err
      intro: walkError_intros split: if_splits option.splits)

lemma walk_Err:
  "walk store ctx node depth path st = Err e \<Longrightarrow> length path = depth \<Longrightarrow>
     depth \<le> Suc MaxExtendsDepth \<Longrightarrow> walkError store ctx e"
proof (induction store ctx node depth path st rule: walk.induct)
  case (1 store ctx node depth path st)
  let ?st = "st\<lparr>w_clock := Suc (w_clock st)\<rparr>"
  let ?rec = "\<lambda>parent. walk store ctx parent (depth + 1)"
  show ?case
  proof (cases "(\<exists>e. ctx (w_clock st) = Some e) \<or> depth > MaxExtendsDepth \<or> node = None")
    case True
    with "1.prems" show ?thesis
      by (subst (asm) walk.simps) (auto intro: walkError_intros split: option.splits if_splits)
  next
    case False
    then obtain s where c: "ctx (w_clock st) = None" and d: "\<not> depth > MaxExtendsDepth"
      and n: "node = Some s" by auto
    from "1.prems"(1) c d n
    have "foldR (\<lambda>_. walkStep store ctx ?rec path) 0 (elems (s_Extends s)) ?st = Err e"
      by (subst (asm) walk.simps) simp
    from foldR_Err[OF this] obtain r t where "walkStep store ctx ?rec path r t = Err e" by blast
    then show ?thesis
    proof (rule walkStep_Err)
      show "length path \<le> MaxExtendsDepth" using d "1.prems"(2) by simp
      show "walkError store ctx e" if "?rec p (path @ [r]) s = Err e" for p s
        using "1.IH"[OF c refl d n that] d "1.prems"(2) by simp
    qed
  qed
qed

text \<open>A walk dereferences nil only when the store hands out a nil spec.\<close>

lemma walk_noPanic:
  "(\<And>n ref. noPanic (store ctx n ref)) \<Longrightarrow> (\<And>n ref. store ctx n ref \<noteq> Ok None) \<Longrightarrow>
     node \<noteq> None \<Longrightarrow> noPanic (walk store ctx node depth path st)"
proof (induction store ctx node depth path st rule: walk.induct)
  case (1 store ctx node depth path st)
  let ?rec = "\<lambda>parent. walk store ctx parent (depth + 1)"
  from "1.prems"(3) obtain s where n: "node = Some s" by auto
  show ?case
  proof (cases "ctx (w_clock st) = None \<and> \<not> depth > MaxExtendsDepth")
    case False
    then show ?thesis by (subst walk.simps) (auto split: option.splits)
  next
    case True
    then have c: "ctx (w_clock st) = None" and d: "\<not> depth > MaxExtendsDepth" by auto
    have rec: "noPanic (?rec p q t)" if "p \<noteq> None" for p q t
      using "1.IH"[OF c refl d n] "1.prems"(1,2) that by blast
    have "noPanic (walkStep store ctx ?rec path r t)" for r t
      using "1.prems"(1)[of "w_clock t" r] "1.prems"(2)[of "w_clock t" r] rec
      by (cases "store ctx (w_clock t) r") (auto simp: walkStep_def Let_def split: option.splits)
    then show ?thesis
      using c d n by (subst walk.simps) (auto intro: foldR_noPanic)
  qed
qed

section \<open>The specification: ancestors in post-order\<close>

text \<open>
  \<open>ancestry ld n refs\<close> lists the refs of the \<^verbatim>\<open>extends\<close> forest over the spec table
  \<open>ld\<close>, every ancestor before the spec that extends it, or is \<open>None\<close> when a ref is
  not in the table or the forest is more than \<open>n\<close> levels deep.
\<close>

fun ancestry :: "(string \<Rightarrow> AgentSpec option) \<Rightarrow> nat \<Rightarrow> string list \<Rightarrow> string list option" where
  "ancestry ld n [] = Some []"
| "ancestry ld 0 (r # rs) = None"
| "ancestry ld (Suc n) (r # rs) =
     (case ld r of None \<Rightarrow> None
      | Some p \<Rightarrow> (case ancestry ld n (elems (s_Extends p)) of None \<Rightarrow> None
          | Some upper \<Rightarrow> map_option (\<lambda>rest. upper @ r # rest) (ancestry ld (Suc n) rs)))"

lemma ancestry_known: "ancestry ld n refs = Some ch \<Longrightarrow> r \<in> set ch \<Longrightarrow> ld r \<noteq> None"
  by (induction ld n refs arbitrary: ch rule: ancestry.induct) (auto split: option.splits)

lemma ancestry_contains: "ancestry ld n refs = Some ch \<Longrightarrow> set refs \<subseteq> set ch"
  by (induction ld n refs arbitrary: ch rule: ancestry.induct) (force split: option.splits)+

text \<open>The chain is closed under \<^verbatim>\<open>extends\<close>, and lists ancestors first.\<close>

lemma ancestry_root_first:
  "ancestry ld n refs = Some ch \<Longrightarrow> ch = xs @ r # ys \<Longrightarrow> ld r = Some p \<Longrightarrow>
     set (elems (s_Extends p)) \<subseteq> set xs"
proof (induction ld n refs arbitrary: ch xs ys rule: ancestry.induct)
  case (3 ld n q rs)
  from "3.prems"(1) obtain pq upper rest where q: "ld q = Some pq"
    and upper: "ancestry ld n (elems (s_Extends pq)) = Some upper"
    and rest: "ancestry ld (Suc n) rs = Some rest" and ch: "ch = upper @ q # rest"
    by (auto split: option.splits)
  from ch "3.prems"(2) have "upper @ q # rest = xs @ r # ys" by simp
  then consider (up) us where "upper = xs @ r # us" | (here) "xs = upper" "r = q"
    | (later) us where "xs = upper @ q # us" "rest = us @ r # ys"
    by (auto simp: append_eq_append_conv2 append_eq_Cons_conv Cons_eq_append_conv)
  then show ?case
  proof cases
    case up
    with "3.IH"(1)[OF q upper] "3.prems"(3) show ?thesis by auto
  next
    case here
    with q "3.prems"(3) ancestry_contains[OF upper] show ?thesis by simp
  next
    case later
    with "3.IH"(2)[OF q upper rest] "3.prems"(3) show ?thesis by auto
  qed
qed auto

text \<open>
  The interface a store offers the resolver: a live context gets the table's entry or
  an error that is \<^verbatim>\<open>ErrSpecNotFound\<close>; a cancelled one gets the context's error.
\<close>

locale spec_table =
  fixes load :: SpecStore and ld :: "string \<Rightarrow> AgentSpec option"
  assumes load_hit: "ctx n = None \<Longrightarrow> ld ref = Some s \<Longrightarrow> load ctx n ref = Ok (Some s)"
    and load_miss: "ctx n = None \<Longrightarrow> ld ref = None \<Longrightarrow>
      \<exists>e. load ctx n ref = Err e \<and> errors_is e ErrSpecNotFound"
    and load_cancelled: "ctx n = Some e \<Longrightarrow> load ctx n ref = Err e"
begin

lemma load_Ok: "load ctx n ref = Ok q \<longleftrightarrow> ctx n = None \<and> (\<exists>p. q = Some p \<and> ld ref = Some p)"
  using load_hit[of ctx n ref] load_miss[of ctx n ref] load_cancelled[of ctx n _ ref]
  by (cases "ctx n"; cases "ld ref") auto

lemma load_noPanic: "noPanic (load ctx n ref)" "load ctx n ref \<noteq> Ok None"
  using load_hit[of ctx n ref] load_miss[of ctx n ref] load_cancelled[of ctx n _ ref]
  by (cases "ctx n"; cases "ld ref"; auto)+

text \<open>\<open>grown st ch st'\<close>: the walk appended exactly the refs \<open>ch\<close>, with their specs.\<close>

definition grown :: "walkState \<Rightarrow> string list \<Rightarrow> walkState \<Rightarrow> bool" where
  "grown st ch st' \<longleftrightarrow> w_chain st' = w_chain st @ ch \<and>
     w_parents st' = w_parents st @ map (\<lambda>r. the (ld r)) ch \<and>
     set (w_visited st') = set (w_visited st) \<union> set ch"

definition fresh :: "string list \<Rightarrow> walkState \<Rightarrow> bool" where
  "fresh ch st \<longleftrightarrow> distinct ch \<and> set ch \<inter> set (w_visited st) = {}"

lemma step_sound:
  assumes "walkStep load ctx rec path r st = Ok st'"
    and "\<And>p s t. ld r = Some p \<Longrightarrow> rec (Some p) (path @ [r]) s = Ok t \<Longrightarrow>
      \<exists>m ch. n = Suc m \<and> ancestry ld m (elems (s_Extends p)) = Some ch \<and> fresh ch s \<and> grown s ch t"
  shows "\<exists>p m ch. ld r = Some p \<and> n = Suc m \<and> ancestry ld m (elems (s_Extends p)) = Some ch \<and>
    fresh (ch @ [r]) st \<and> grown st (ch @ [r]) st'"
proof -
  let ?st = "st\<lparr>w_visited := r # w_visited st, w_clock := Suc (w_clock st)\<rparr>"
  from assms(1) obtain p s where r: "r \<notin> set (w_visited st)" and p: "ld r = Some p"
    and s: "rec (Some p) (path @ [r]) ?st = Ok s"
    and st': "st' = s\<lparr>w_parents := w_parents s @ [p], w_chain := w_chain s @ [r]\<rparr>"
    by (auto simp: walkStep_def Let_def load_Ok split: if_splits option.splits)
  from assms(2)[OF p s] obtain m ch where a: "n = Suc m" "ancestry ld m (elems (s_Extends p)) = Some ch"
    and "fresh ch ?st" "grown ?st ch s" by blast
  with r p st' have "fresh (ch @ [r]) st" "grown st (ch @ [r]) st'"
    by (auto simp: fresh_def grown_def)
  with p a show ?thesis by blast
qed

lemma loop_sound:
  assumes "foldR (\<lambda>_. walkStep load ctx rec path) i rs st = Ok st'"
    and "\<And>r p s t. ld r = Some p \<Longrightarrow> rec (Some p) (path @ [r]) s = Ok t \<Longrightarrow>
      \<exists>m ch. n = Suc m \<and> ancestry ld m (elems (s_Extends p)) = Some ch \<and> fresh ch s \<and> grown s ch t"
  shows "\<exists>ch. ancestry ld n rs = Some ch \<and> fresh ch st \<and> grown st ch st'"
  using assms(1)
proof (induction rs arbitrary: i st)
  case Nil
  then show ?case by (simp add: fresh_def grown_def)
next
  case (Cons r rs)
  then obtain s where s: "walkStep load ctx rec path r st = Ok s"
    and rest: "foldR (\<lambda>_. walkStep load ctx rec path) (Suc i) rs s = Ok st'" by auto
  from step_sound[OF s assms(2)[of r]] obtain p m ch where
    p: "ld r = Some p" "n = Suc m" "ancestry ld m (elems (s_Extends p)) = Some ch"
    and 1: "fresh (ch @ [r]) st" "grown st (ch @ [r]) s" by blast
  from Cons.IH[OF rest] obtain dh where
    d: "ancestry ld n rs = Some dh" and 2: "fresh dh s" "grown s dh st'" by blast
  from p d have "ancestry ld n (r # rs) = Some (ch @ r # dh)" by simp
  moreover from 1 2 have "fresh (ch @ r # dh) st" "grown st (ch @ r # dh) st'"
    by (auto simp: fresh_def grown_def)
  ultimately show ?case by blast
qed

lemma walk_sound:
  "walk load ctx (Some s) depth path st = Ok st' \<Longrightarrow> depth \<le> MaxExtendsDepth \<and>
     (\<exists>ch. ancestry ld (MaxExtendsDepth - depth) (elems (s_Extends s)) = Some ch \<and>
       fresh ch st \<and> grown st ch st')"
proof (induction "Suc MaxExtendsDepth - depth" arbitrary: s depth path st st')
  case 0
  then show ?case
    by (subst (asm) walk.simps) (auto split: option.splits if_splits)
next
  case (Suc n)
  let ?st = "st\<lparr>w_clock := Suc (w_clock st)\<rparr>"
  let ?rec = "\<lambda>parent. walk load ctx parent (depth + 1)"
  from Suc.hyps(2) have d: "depth \<le> MaxExtendsDepth" "n = Suc MaxExtendsDepth - Suc depth" by auto
  from Suc.prems d(1) have fold: "foldR (\<lambda>_. walkStep load ctx ?rec path) 0 (elems (s_Extends s)) ?st = Ok st'"
    by (subst (asm) walk.simps) (auto simp: Let_def split: option.splits)
  have rec: "\<exists>m ch. MaxExtendsDepth - depth = Suc m \<and> ancestry ld m (elems (s_Extends p)) = Some ch \<and>
      fresh ch u \<and> grown u ch v" if "?rec (Some p) (path @ [r]) u = Ok v" for r p u v
    using Suc.hyps(1)[of "Suc depth" p "path @ [r]" u v] that d(2) by (auto intro!: exI[of _ "MaxExtendsDepth - Suc depth"])
  have "\<exists>ch. ancestry ld (MaxExtendsDepth - depth) (elems (s_Extends s)) = Some ch \<and>
      fresh ch ?st \<and> grown ?st ch st'"
    by (rule loop_sound[OF fold]) (rule rec)
  with d(1) show ?case by (auto simp: fresh_def grown_def)
qed

lemma step_complete:
  assumes "\<And>n. ctx n = None" and "ld r = Some p" and "fresh (ch @ [r]) st"
    and "\<And>s. fresh ch s \<Longrightarrow> \<exists>t. rec (Some p) (path @ [r]) s = Ok t \<and> grown s ch t"
  shows "\<exists>st'. walkStep load ctx rec path r st = Ok st' \<and> grown st (ch @ [r]) st'"
proof -
  let ?st = "st\<lparr>w_visited := r # w_visited st, w_clock := Suc (w_clock st)\<rparr>"
  have "fresh ch ?st" using assms(3) by (auto simp: fresh_def)
  from assms(4)[OF this] obtain t where t: "rec (Some p) (path @ [r]) ?st = Ok t" "grown ?st ch t"
    by blast
  moreover have "load ctx (w_clock st) r = Ok (Some p)" by (rule load_hit) (simp_all add: assms)
  ultimately show ?thesis
    using assms(2,3) by (auto simp: walkStep_def Let_def fresh_def grown_def)
qed

lemma loop_complete:
  assumes "\<And>n. ctx n = None" and "ancestry ld n rs = Some ch" and "fresh ch st"
    and "\<And>r p m up s. ld r = Some p \<Longrightarrow> n = Suc m \<Longrightarrow> ancestry ld m (elems (s_Extends p)) = Some up \<Longrightarrow>
      fresh up s \<Longrightarrow> \<exists>t. rec (Some p) (path @ [r]) s = Ok t \<and> grown s up t"
  shows "\<exists>st'. foldR (\<lambda>_. walkStep load ctx rec path) i rs st = Ok st' \<and> grown st ch st'"
  using assms(2,3)
proof (induction rs arbitrary: i st ch)
  case Nil
  then show ?case by (simp add: grown_def)
next
  case (Cons r rs)
  from Cons.prems(1) obtain m p up rest where n: "n = Suc m" and p: "ld r = Some p"
    and up: "ancestry ld m (elems (s_Extends p)) = Some up"
    and rest: "ancestry ld n rs = Some rest" and ch: "ch = up @ r # rest"
    by (cases n) (auto split: option.splits)
  from ch Cons.prems(2) have "fresh (up @ [r]) st" by (auto simp: fresh_def)
  then have "\<exists>s. walkStep load ctx rec path r st = Ok s \<and> grown st (up @ [r]) s"
    by (rule step_complete[where ctx = ctx and rec = rec, OF assms(1) p]) (rule assms(4)[OF p n up])
  then obtain s where s: "walkStep load ctx rec path r st = Ok s" "grown st (up @ [r]) s" by blast
  with ch Cons.prems(2) have "fresh rest s" by (auto simp: fresh_def grown_def)
  from Cons.IH[OF rest this, of "Suc i"] s ch show ?case by (auto simp: grown_def)
qed

lemma walk_complete:
  assumes "\<And>n. ctx n = None"
  shows "depth \<le> MaxExtendsDepth \<Longrightarrow>
    ancestry ld (MaxExtendsDepth - depth) (elems (s_Extends s)) = Some ch \<Longrightarrow> fresh ch st \<Longrightarrow>
    \<exists>st'. walk load ctx (Some s) depth path st = Ok st' \<and> grown st ch st'"
proof (induction "MaxExtendsDepth - depth" arbitrary: s depth path st ch rule: less_induct)
  case less
  let ?st = "st\<lparr>w_clock := Suc (w_clock st)\<rparr>"
  let ?rec = "\<lambda>parent. walk load ctx parent (depth + 1)"
  have rec: "\<exists>v. ?rec (Some p) (path @ [r]) u = Ok v \<and> grown u up v"
    if "MaxExtendsDepth - depth = Suc m" "ancestry ld m (elems (s_Extends p)) = Some up" "fresh up u"
    for r p m up u
  proof -
    from that(1) have "m = MaxExtendsDepth - Suc depth" by simp
    with that show ?thesis using less.hyps[of "Suc depth" p up u "path @ [r]"] by simp
  qed
  have "fresh ch ?st" using less.prems(3) by (simp add: fresh_def)
  then have "\<exists>st'. foldR (\<lambda>_. walkStep load ctx ?rec path) 0 (elems (s_Extends s)) ?st = Ok st' \<and>
      grown ?st ch st'"
    by (rule loop_complete[where ctx = ctx, OF assms less.prems(2)]) (rule rec)
  with less.prems(1) assms show ?case
    by (subst walk.simps) (auto simp: Let_def grown_def)
qed

text \<open>
  The resolver's contract: under a live context it succeeds exactly on the specs whose
  ancestry is complete, at most eight levels deep and free of repetitions, and then
  returns that ancestry with its specs.
\<close>

lemma resolve_sound:
  assumes "resolveExtendsChain ctx s (Some load) = Ok (ps, ch)"
  shows "ancestry ld MaxExtendsDepth (elems (s_Extends s)) = Some (elems ch) \<and>
    distinct (elems ch) \<and> map Some ps = map ld (elems ch)"
proof (cases "elems (s_Extends s)")
  case Nil
  with assms show ?thesis by (simp add: resolveExtendsChain_def)
next
  case Cons
  with assms obtain st where w: "walk load ctx (Some s) 0 [] (emptyWalk 0) = Ok st"
    and r: "ps = w_parents st" "ch = Some (w_chain st)"
    by (auto simp: resolveExtendsChain_def)
  from walk_sound[OF w] obtain ch' where
    a: "ancestry ld MaxExtendsDepth (elems (s_Extends s)) = Some ch'"
    and "fresh ch' (emptyWalk 0)" "grown (emptyWalk 0) ch' st" by auto
  moreover have "map (\<lambda>r. Some (the (ld r))) ch' = map ld ch'"
    using ancestry_known[OF a] by (intro map_cong) auto
  ultimately show ?thesis
    using r a by (auto simp: fresh_def grown_def emptyWalk_def o_def)
qed

lemma resolve_complete:
  assumes "\<And>n. ctx n = None"
    and "ancestry ld MaxExtendsDepth (elems (s_Extends s)) = Some ch" and "distinct ch"
  shows "\<exists>ps. resolveExtendsChain ctx s (Some load) =
    Ok (ps, if ch = [] then None else Some ch)"
proof (cases "elems (s_Extends s)")
  case Nil
  with assms show ?thesis by (simp add: resolveExtendsChain_def)
next
  case (Cons r rs)
  have "fresh ch (emptyWalk 0)" using assms(3) by (simp add: fresh_def emptyWalk_def)
  then obtain st where "walk load ctx (Some s) 0 [] (emptyWalk 0) = Ok st" "grown (emptyWalk 0) ch st"
    using walk_complete[where ctx = ctx and depth = 0 and path = "[]", OF assms(1)] assms(2) by fastforce
  moreover have "ch \<noteq> []" using ancestry_contains[OF assms(2)] Cons by auto
  ultimately show ?thesis
    using Cons by (simp add: resolveExtendsChain_def grown_def emptyWalk_def)
qed

lemma resolve_noPanic: "noPanic (resolveExtendsChain ctx s (Some load))"
  by (auto simp: resolveExtendsChain_def intro!: walk_noPanic load_noPanic split: option.splits)

end

text \<open>\<^verbatim>\<open>MapSpecStore\<close> without nil entries is a spec table.\<close>

definition specMap :: "(string \<times> AgentSpec) list \<Rightarrow> (string \<times> AgentSpec option) list" where
  "specMap kvs = map (\<lambda>(k, s). (k, Some s)) kvs"

lemma map_of_specMap [simp]: "map_of (specMap kvs) r = map_option Some (map_of kvs r)"
  by (induction kvs) (auto simp: specMap_def)

interpretation mapStore: spec_table "MapSpecStore_Load (specMap kvs)" "map_of kvs" for kvs
  by unfold_locales (auto simp: MapSpecStore_Load_def)

section \<open>Properties\<close>

text \<open>C6. Over an in-memory store and a live context, resolution of \<^verbatim>\<open>extends\<close> succeeds
  exactly when the ancestry (post-order over the store) is complete, at most eight levels
  deep and free of repetitions; the chain returned is that ancestry.\<close>

theorem resolveExtendsChain_complete:
  "(\<exists>ps. resolveExtendsChain background s (Some (MapSpecStore_Load (specMap kvs))) =
       Ok (ps, if ch = [] then None else Some ch)) \<longleftrightarrow>
     ancestry (map_of kvs) MaxExtendsDepth (elems (s_Extends s)) = Some ch \<and> distinct ch"
proof
  assume "\<exists>ps. resolveExtendsChain background s (Some (MapSpecStore_Load (specMap kvs))) =
    Ok (ps, if ch = [] then None else Some ch)"
  then show "ancestry (map_of kvs) MaxExtendsDepth (elems (s_Extends s)) = Some ch \<and> distinct ch"
    by (auto dest!: mapStore.resolve_sound split: if_splits)
next
  assume "ancestry (map_of kvs) MaxExtendsDepth (elems (s_Extends s)) = Some ch \<and> distinct ch"
  then show "\<exists>ps. resolveExtendsChain background s (Some (MapSpecStore_Load (specMap kvs))) =
    Ok (ps, if ch = [] then None else Some ch)"
    by (intro mapStore.resolve_complete) simp_all
qed

text \<open>In a resolved chain every parent comes after all the specs it extends itself (root
  first), each entry is paired with the spec the store holds for it, and no entry repeats.\<close>

theorem resolveExtendsChain_root_first:
  assumes "resolveExtendsChain ctx s (Some (MapSpecStore_Load (specMap kvs))) = Ok (ps, ch)"
    and "elems ch = xs @ r # ys" and "map_of kvs r = Some p"
  shows "set (elems (s_Extends p)) \<subseteq> set xs \<and> distinct (elems ch) \<and> map Some ps = map (map_of kvs) (elems ch)"
  using mapStore.resolve_sound[OF assms(1)] ancestry_root_first assms(2,3) by blast

definition sampleRoot :: AgentSpec where
  "sampleRoot = zeroAgentSpec"

definition sampleMid :: AgentSpec where
  "sampleMid = zeroAgentSpec\<lparr>s_Extends := Some [''root'']\<rparr>"

definition sampleLeaf :: AgentSpec where
  "sampleLeaf = zeroAgentSpec\<lparr>s_Extends := Some [''mid'']\<rparr>"

definition sampleStore :: "(string \<times> AgentSpec) list" where
  "sampleStore = [(''root'', sampleRoot), (''mid'', sampleMid)]"

lemma sample_resolves:
  "resolveExtendsChain background sampleLeaf (Some (MapSpecStore_Load (specMap sampleStore))) =
     Ok ([sampleRoot, sampleMid], Some [''root'', ''mid''])"
  by (simp add: resolveExtendsChain_def walk.simps walkStep_def MapSpecStore_Load_def sampleStore_def
      sampleLeaf_def sampleMid_def sampleRoot_def zeroAgentSpec_def emptyWalk_def MaxExtendsDepth_def Let_def)

theorem resolveExtendsChain_root_first_witness:
  "set (elems (s_Extends sampleMid)) \<subseteq> set [''root''] \<and> distinct [''root'', ''mid''] \<and>
     map Some [sampleRoot, sampleMid] = map (map_of sampleStore) [''root'', ''mid'']"
  using resolveExtendsChain_root_first[OF sample_resolves, of "[''root'']" "''mid''" "[]" sampleMid]
  by (simp add: sampleStore_def)

text \<open>C7. Whatever the store and the context do, a failed resolution returns the missing-store
  sentinel, the context's own error, a cycle error naming at most nine refs, a depth error
  naming exactly nine, or the store's error wrapped with the ref being loaded; the wrapped
  error still answers \<^verbatim>\<open>errors.Is\<close> for every sentinel the store's error did.\<close>

theorem resolveExtendsChain_errors:
  assumes "resolveExtendsChain ctx s store = Err e"
  shows "e = Sentinel ErrNoSpecStore \<or> (\<exists>n. ctx n = Some e) \<or>
    (\<exists>ch. e = ExtendsError ch ''cycle'' \<and> 1 \<le> length ch \<and> length ch \<le> 9) \<or>
    (\<exists>ch. e = ExtendsError ch ''depth'' \<and> length ch = 9) \<or>
    (\<exists>ld n ref e'. store = Some ld \<and> ld ctx n ref = Err e' \<and> e = resolveErr ref e' \<and>
       (\<forall>t. errors_is e t = errors_is e' t))"
proof (cases store)
  case None
  with assms show ?thesis by (auto simp: resolveExtendsChain_def split: if_splits)
next
  case (Some ld)
  with assms have "walk ld ctx (Some s) 0 [] (emptyWalk 0) = Err e"
    by (auto simp: resolveExtendsChain_def bindR_eq_Err split: if_splits)
  from walk_Err[OF this] have "walkError ld ctx e" by simp
  then show ?thesis
    unfolding walkError_def MaxExtendsDepth_def Some by (elim disjE) (auto simp: resolveErr_def)
qed

theorem resolveExtendsChain_errors_witness:
  "\<exists>n ref e'. MapSpecStore_Load [] background n ref = Err e' \<and>
     resolveErr ''mid'' (Errorf ''MapSpecStore: %s: %w'' [AStr ''mid'', AWrap (Sentinel ErrSpecNotFound)]) = resolveErr ref e'"
proof -
  have "resolveExtendsChain background sampleLeaf (Some (MapSpecStore_Load [])) =
      Err (resolveErr ''mid'' (Errorf ''MapSpecStore: %s: %w'' [AStr ''mid'', AWrap (Sentinel ErrSpecNotFound)]))"
    by (simp add: resolveExtendsChain_def walk.simps walkStep_def MapSpecStore_Load_def
        sampleLeaf_def zeroAgentSpec_def emptyWalk_def MaxExtendsDepth_def Let_def)
  from resolveExtendsChain_errors[OF this] show ?thesis by (auto simp: resolveErr_def)
qed

text \<open>The visited set is never cleared, so an acyclic diamond (two parents sharing a
  grandparent) is refused as a cycle, with a chain that does not contain its last ref
  twice.\<close>

theorem diamond_reported_as_cycle:
  "resolveExtendsChain background (zeroAgentSpec\<lparr>s_Extends := Some [''a'', ''b'']\<rparr>)
     (Some (MapSpecStore_Load (specMap [(''a'', sampleMid), (''b'', sampleMid), (''root'', sampleRoot)]))) =
   Err (ExtendsError [''b'', ''root''] ''cycle'')"
  by (simp add: resolveExtendsChain_def walk.simps walkStep_def MapSpecStore_Load_def
      sampleMid_def sampleRoot_def zeroAgentSpec_def emptyWalk_def MaxExtendsDepth_def Let_def)

end
