(* ===== verification/Registry.thy ===== *)
theory Registry
  imports SpecExtends
begin

text \<open>
  The typed component registry (\<^verbatim>\<open>registry/\<close>): the values factories build
  (\<^verbatim>\<open>types.go\<close>), the factory interfaces (\<^verbatim>\<open>factories.go\<close>), and
  \<^verbatim>\<open>ComponentRegistry\<close> with its fourteen pairs of register and lookup operations
  (\<^verbatim>\<open>registry.go\<close>).

  Objects of the praxis module (providers, hooks, filters, guards, emitters, invokers,
  resolvers, signers) are handles of type \<open>'h\<close>; the registry and the builder only pass
  them on. The builder tests the credential resolver and the identity signer for nil, so
  for those two kinds a built value is an option. The read-write lock makes every operation atomic, so an interleaving of
  concurrent callers is a sequence of the steps below.

  The contract of one kind's table is the locale \<open>kind_table\<close>; all fourteen tables
  interpret it.
\<close>

section \<open>types.go\<close>

record ToolDefinition =
  td_Name :: string
  td_Description :: string
  td_InputSchema :: string

text \<open>\<^verbatim>\<open>RiskTier\<close>, \<^verbatim>\<open>MCPTransport\<close> and \<^verbatim>\<open>OnNewToolPolicy\<close> are string types with these named values.\<close>

definition RiskLow :: string where
  "RiskLow = ''low''"
definition RiskModerate :: string where
  "RiskModerate = ''moderate''"
definition RiskHigh :: string where
  "RiskHigh = ''high''"
definition RiskDestructive :: string where
  "RiskDestructive = ''destructive''"

definition MCPTransportStdio :: string where
  "MCPTransportStdio = ''stdio''"
definition MCPTransportHTTP :: string where
  "MCPTransportHTTP = ''http''"

definition OnNewToolBlock :: string where
  "OnNewToolBlock = ''block''"
definition OnNewToolAllowIfMatch :: string where
  "OnNewToolAllowIfMatch = ''allow-if-match-allowlist''"
definition OnNewToolRequireReapprove :: string where
  "OnNewToolRequireReapprove = ''require-reapproval''"

lemmas tier_names [simp] = RiskLow_def RiskModerate_def RiskHigh_def RiskDestructive_def MCPTransportStdio_def
  MCPTransportHTTP_def OnNewToolBlock_def OnNewToolAllowIfMatch_def OnNewToolRequireReapprove_def

record ToolDescriptor =
  tdc_Name :: string
  tdc_Owner :: string
  tdc_RiskTier :: string
  tdc_PolicyTags :: "string slice"
  tdc_AuthScopes :: "string slice"
  tdc_TimeoutHint :: int64
  tdc_Source :: string

record PolicyDescriptor =
  pdc_Name :: string
  pdc_Owner :: string
  pdc_PolicyTags :: "string slice"
  pdc_Source :: string

record 'h ToolPack =
  tp_Invoker :: 'h
  tp_Definitions :: "ToolDefinition list"
  tp_Descriptors :: "ToolDescriptor list"

record 'h PolicyPack =
  pp_Hook :: 'h
  pp_Descriptors :: "PolicyDescriptor list"

text \<open>\<^verbatim>\<open>budget.Config\<close> of praxis: the ceilings the builder compares.\<close>

record BudgetConfig =
  bc_MaxWallClock :: int64
  bc_MaxInputTokens :: int64
  bc_MaxOutputTokens :: int64
  bc_MaxToolCalls :: int64
  bc_MaxCostMicrodollars :: int64

record 'h BudgetProfile =
  bp_Guard :: 'h
  bp_DefaultConfig :: BudgetConfig

record 'h TelemetryProfile =
  te_Emitter :: 'h
  te_Enricher :: 'h

record RequiredComponent =
  rc_ID :: string
  rc_Config :: gomap

record SkillDescriptor =
  sd_Name :: string
  sd_Owner :: string
  sd_Summary :: string
  sd_Tags :: "string slice"

record Skill =
  sk_PromptFragment :: string
  sk_RequiredTools :: "RequiredComponent slice"
  sk_RequiredPolicies :: "RequiredComponent slice"
  sk_RequiredOutputContract :: "RequiredComponent option"
  sk_Descriptor :: SkillDescriptor

record OutputContractDescriptor =
  ocd_Name :: string
  ocd_Owner :: string
  ocd_Summary :: string

record OutputContract =
  oc_Schema :: gomap
  oc_Descriptor :: OutputContractDescriptor

record MCPConnection =
  mc_Transport :: string
  mc_Command :: "string slice"
  mc_Env :: "(string \<times> string) list option"
  mc_URL :: string
  mc_Headers :: "(string \<times> string) list option"

record MCPAuth =
  ma_CredentialRef :: string
  ma_Scheme :: string
  ma_HeaderName :: string

record MCPTrust =
  mt_Tier :: string
  mt_Owner :: string
  mt_Tags :: "string slice"

record MCPBindingDescriptor =
  mbd_Name :: string
  mbd_Summary :: string
  mbd_Tags :: "string slice"

record MCPBinding =
  mb_ID :: string
  mb_Connection :: MCPConnection
  mb_Auth :: "MCPAuth option"
  mb_Allow :: "string slice"
  mb_Deny :: "string slice"
  mb_Policies :: "string slice"
  mb_Trust :: MCPTrust
  mb_OnNewTool :: string
  mb_Descriptor :: MCPBindingDescriptor

section \<open>factories.go\<close>

text \<open>
  The factory interfaces share one shape: an identifier and a build function of the
  context and the configuration.
\<close>

record 'v Factory =
  f_ID :: string
  f_Description :: string
  f_Build :: "ctx \<Rightarrow> gomap \<Rightarrow> 'v result"

type_synonym 'v table = "string \<Rightarrow> 'v Factory option"

section \<open>kind.go\<close>

definition KindProvider :: string where "KindProvider = ''provider''"
definition KindPromptAsset :: string where "KindPromptAsset = ''prompt_asset''"
definition KindToolPack :: string where "KindToolPack = ''tool_pack''"
definition KindPolicyPack :: string where "KindPolicyPack = ''policy_pack''"
definition KindPreLLMFilter :: string where "KindPreLLMFilter = ''pre_llm_filter''"
definition KindPreToolFilter :: string where "KindPreToolFilter = ''pre_tool_filter''"
definition KindPostToolFilter :: string where "KindPostToolFilter = ''post_tool_filter''"
definition KindBudgetProfile :: string where "KindBudgetProfile = ''budget_profile''"
definition KindTelemetryProfile :: string where "KindTelemetryProfile = ''telemetry_profile''"
definition KindCredentialResolver :: string where "KindCredentialResolver = ''credential_resolver''"
definition KindIdentitySigner :: string where "KindIdentitySigner = ''identity_signer''"
definition KindSkill :: string where "KindSkill = ''skill''"
definition KindOutputContract :: string where "KindOutputContract = ''output_contract''"
definition KindMCPBinding :: string where "KindMCPBinding = ''mcp_binding''"

lemmas kind_defs =
  KindProvider_def KindPromptAsset_def KindToolPack_def KindPolicyPack_def KindPreLLMFilter_def KindPreToolFilter_def KindPostToolFilter_def KindBudgetProfile_def KindTelemetryProfile_def KindCredentialResolver_def KindIdentitySigner_def KindSkill_def KindOutputContract_def KindMCPBinding_def

section \<open>registry.go: state\<close>

record 'h ComponentRegistry =
  frozen :: bool
  providers :: "'h table"
  promptAssets :: "string table"
  toolPacks :: "('h ToolPack) table"
  policyPacks :: "('h PolicyPack) table"
  preLLMFilters :: "'h table"
  preToolFilters :: "'h table"
  postToolFilters :: "'h table"
  budgetProfiles :: "('h BudgetProfile) table"
  telemetryProfiles :: "('h TelemetryProfile) table"
  credResolvers :: "'h option table"
  identitySigners :: "'h option table"
  skills :: "Skill table"
  outputContracts :: "OutputContract table"
  mcpBindings :: "MCPBinding table"

definition NewComponentRegistry :: "'h ComponentRegistry" where
  "NewComponentRegistry = \<lparr>frozen = False,
     providers = (\<lambda>_. None),
     promptAssets = (\<lambda>_. None),
     toolPacks = (\<lambda>_. None),
     policyPacks = (\<lambda>_. None),
     preLLMFilters = (\<lambda>_. None),
     preToolFilters = (\<lambda>_. None),
     postToolFilters = (\<lambda>_. None),
     budgetProfiles = (\<lambda>_. None),
     telemetryProfiles = (\<lambda>_. None),
     credResolvers = (\<lambda>_. None),
     identitySigners = (\<lambda>_. None),
     skills = (\<lambda>_. None),
     outputContracts = (\<lambda>_. None),
     mcpBindings = (\<lambda>_. None)\<rparr>"

definition Freeze :: "'h ComponentRegistry \<Rightarrow> 'h ComponentRegistry" where
  "Freeze r = r\<lparr>frozen := True\<rparr>"

text \<open>The two error values the operations format.\<close>

definition dupErr :: "string \<Rightarrow> string \<Rightarrow> gerror" where
  "dupErr kind cid = Errorf ''%w: kind=%s id=%s'' [AWrap (Sentinel ErrDuplicate), AStr kind, AStr cid]"

definition notFoundErr :: "string \<Rightarrow> string \<Rightarrow> gerror" where
  "notFoundErr kind cid = Errorf ''%w: kind=%s id=%s'' [AWrap (Sentinel ErrNotFound), AStr kind, AStr cid]"

section \<open>registry.go: operations\<close>

definition RegisterProvider :: "'h Factory \<Rightarrow> 'h ComponentRegistry \<Rightarrow> 'h ComponentRegistry result" where
  "RegisterProvider f r =
     (if frozen r then Err (Sentinel ErrRegistryFrozen)
      else if providers r (f_ID f) \<noteq> None then Err (dupErr KindProvider (f_ID f))
      else Ok (r\<lparr>providers := (providers r)(f_ID f \<mapsto> f)\<rparr>))"

definition LookupProvider :: "'h ComponentRegistry \<Rightarrow> string \<Rightarrow> 'h Factory result" where
  "LookupProvider r cid =
     (case providers r cid of None \<Rightarrow> Err (notFoundErr KindProvider cid) | Some f \<Rightarrow> Ok f)"

definition RegisterPromptAsset :: "string Factory \<Rightarrow> 'h ComponentRegistry \<Rightarrow> 'h ComponentRegistry result" where
  "RegisterPromptAsset f r =
     (if frozen r then Err (Sentinel ErrRegistryFrozen)
      else if promptAssets r (f_ID f) \<noteq> None then Err (dupErr KindPromptAsset (f_ID f))
      else Ok (r\<lparr>promptAssets := (promptAssets r)(f_ID f \<mapsto> f)\<rparr>))"

definition LookupPromptAsset :: "'h ComponentRegistry \<Rightarrow> string \<Rightarrow> string Factory result" where
  "LookupPromptAsset r cid =
     (case promptAssets r cid of None \<Rightarrow> Err (notFoundErr KindPromptAsset cid) | Some f \<Rightarrow> Ok f)"

definition RegisterToolPack :: "('h ToolPack) Factory \<Rightarrow> 'h ComponentRegistry \<Rightarrow> 'h ComponentRegistry result" where
  "RegisterToolPack f r =
     (if frozen r then Err (Sentinel ErrRegistryFrozen)
      else if toolPacks r (f_ID f) \<noteq> None then Err (dupErr KindToolPack (f_ID f))
      else Ok (r\<lparr>toolPacks := (toolPacks r)(f_ID f \<mapsto> f)\<rparr>))"

definition LookupToolPack :: "'h ComponentRegistry \<Rightarrow> string \<Rightarrow> ('h ToolPack) Factory result" where
  "LookupToolPack r cid =
     (case toolPacks r cid of None \<Rightarrow> Err (notFoundErr KindToolPack cid) | Some f \<Rightarrow> Ok f)"

definition RegisterPolicyPack :: "('h PolicyPack) Factory \<Rightarrow> 'h ComponentRegistry \<Rightarrow> 'h ComponentRegistry result" where
  "RegisterPolicyPack f r =
     (if frozen r then Err (Sentinel ErrRegistryFrozen)
      else if policyPacks r (f_ID f) \<noteq> None then Err (dupErr KindPolicyPack (f_ID f))
      else Ok (r\<lparr>policyPacks := (policyPacks r)(f_ID f \<mapsto> f)\<rparr>))"

definition LookupPolicyPack :: "'h ComponentRegistry \<Rightarrow> string \<Rightarrow> ('h PolicyPack) Factory result" where
  "LookupPolicyPack r cid =
     (case policyPacks r cid of None \<Rightarrow> Err (notFoundErr KindPolicyPack cid) | Some f \<Rightarrow> Ok f)"

definition RegisterPreLLMFilter :: "'h Factory \<Rightarrow> 'h ComponentRegistry \<Rightarrow> 'h ComponentRegistry result" where
  "RegisterPreLLMFilter f r =
     (if frozen r then Err (Sentinel ErrRegistryFrozen)
      else if preLLMFilters r (f_ID f) \<noteq> None then Err (dupErr KindPreLLMFilter (f_ID f))
      else Ok (r\<lparr>preLLMFilters := (preLLMFilters r)(f_ID f \<mapsto> f)\<rparr>))"

definition LookupPreLLMFilter :: "'h ComponentRegistry \<Rightarrow> string \<Rightarrow> 'h Factory result" where
  "LookupPreLLMFilter r cid =
     (case preLLMFilters r cid of None \<Rightarrow> Err (notFoundErr KindPreLLMFilter cid) | Some f \<Rightarrow> Ok f)"

definition RegisterPreToolFilter :: "'h Factory \<Rightarrow> 'h ComponentRegistry \<Rightarrow> 'h ComponentRegistry result" where
  "RegisterPreToolFilter f r =
     (if frozen r then Err (Sentinel ErrRegistryFrozen)
      else if preToolFilters r (f_ID f) \<noteq> None then Err (dupErr KindPreToolFilter (f_ID f))
      else Ok (r\<lparr>preToolFilters := (preToolFilters r)(f_ID f \<mapsto> f)\<rparr>))"

definition LookupPreToolFilter :: "'h ComponentRegistry \<Rightarrow> string \<Rightarrow> 'h Factory result" where
  "LookupPreToolFilter r cid =
     (case preToolFilters r cid of None \<Rightarrow> Err (notFoundErr KindPreToolFilter cid) | Some f \<Rightarrow> Ok f)"

definition RegisterPostToolFilter :: "'h Factory \<Rightarrow> 'h ComponentRegistry \<Rightarrow> 'h ComponentRegistry result" where
  "RegisterPostToolFilter f r =
     (if frozen r then Err (Sentinel ErrRegistryFrozen)
      else if postToolFilters r (f_ID f) \<noteq> None then Err (dupErr KindPostToolFilter (f_ID f))
      else Ok (r\<lparr>postToolFilters := (postToolFilters r)(f_ID f \<mapsto> f)\<rparr>))"

definition LookupPostToolFilter :: "'h ComponentRegistry \<Rightarrow> string \<Rightarrow> 'h Factory result" where
  "LookupPostToolFilter r cid =
     (case postToolFilters r cid of None \<Rightarrow> Err (notFoundErr KindPostToolFilter cid) | Some f \<Rightarrow> Ok f)"

definition RegisterBudgetProfile :: "('h BudgetProfile) Factory \<Rightarrow> 'h ComponentRegistry \<Rightarrow> 'h ComponentRegistry result" where
  "RegisterBudgetProfile f r =
     (if frozen r then Err (Sentinel ErrRegistryFrozen)
      else if budgetProfiles r (f_ID f) \<noteq> None then Err (dupErr KindBudgetProfile (f_ID f))
      else Ok (r\<lparr>budgetProfiles := (budgetProfiles r)(f_ID f \<mapsto> f)\<rparr>))"

definition LookupBudgetProfile :: "'h ComponentRegistry \<Rightarrow> string \<Rightarrow> ('h BudgetProfile) Factory result" where
  "LookupBudgetProfile r cid =
     (case budgetProfiles r cid of None \<Rightarrow> Err (notFoundErr KindBudgetProfile cid) | Some f \<Rightarrow> Ok f)"

definition RegisterTelemetryProfile :: "('h TelemetryProfile) Factory \<Rightarrow> 'h ComponentRegistry \<Rightarrow> 'h ComponentRegistry result" where
  "RegisterTelemetryProfile f r =
     (if frozen r then Err (Sentinel ErrRegistryFrozen)
      else if telemetryProfiles r (f_ID f) \<noteq> None then Err (dupErr KindTelemetryProfile (f_ID f))
      else Ok (r\<lparr>telemetryProfiles := (telemetryProfiles r)(f_ID f \<mapsto> f)\<rparr>))"

definition LookupTelemetryProfile :: "'h ComponentRegistry \<Rightarrow> string \<Rightarrow> ('h TelemetryProfile) Factory result" where
  "LookupTelemetryProfile r cid =
     (case telemetryProfiles r cid of None \<Rightarrow> Err (notFoundErr KindTelemetryProfile cid) | Some f \<Rightarrow> Ok f)"

definition RegisterCredentialResolver :: "('h option) Factory \<Rightarrow> 'h ComponentRegistry \<Rightarrow> 'h ComponentRegistry result" where
  "RegisterCredentialResolver f r =
     (if frozen r then Err (Sentinel ErrRegistryFrozen)
      else if credResolvers r (f_ID f) \<noteq> None then Err (dupErr KindCredentialResolver (f_ID f))
      else Ok (r\<lparr>credResolvers := (credResolvers r)(f_ID f \<mapsto> f)\<rparr>))"

definition LookupCredentialResolver :: "'h ComponentRegistry \<Rightarrow> string \<Rightarrow> ('h option) Factory result" where
  "LookupCredentialResolver r cid =
     (case credResolvers r cid of None \<Rightarrow> Err (notFoundErr KindCredentialResolver cid) | Some f \<Rightarrow> Ok f)"

definition RegisterIdentitySigner :: "('h option) Factory \<Rightarrow> 'h ComponentRegistry \<Rightarrow> 'h ComponentRegistry result" where
  "RegisterIdentitySigner f r =
     (if frozen r then Err (Sentinel ErrRegistryFrozen)
      else if identitySigners r (f_ID f) \<noteq> None then Err (dupErr KindIdentitySigner (f_ID f))
      else Ok (r\<lparr>identitySigners := (identitySigners r)(f_ID f \<mapsto> f)\<rparr>))"

definition LookupIdentitySigner :: "'h ComponentRegistry \<Rightarrow> string \<Rightarrow> ('h option) Factory result" where
  "LookupIdentitySigner r cid =
     (case identitySigners r cid of None \<Rightarrow> Err (notFoundErr KindIdentitySigner cid) | Some f \<Rightarrow> Ok f)"

definition RegisterSkill :: "Skill Factory \<Rightarrow> 'h ComponentRegistry \<Rightarrow> 'h ComponentRegistry result" where
  "RegisterSkill f r =
     (if frozen r then Err (Sentinel ErrRegistryFrozen)
      else if skills r (f_ID f) \<noteq> None then Err (dupErr KindSkill (f_ID f))
      else Ok (r\<lparr>skills := (skills r)(f_ID f \<mapsto> f)\<rparr>))"

definition LookupSkill :: "'h ComponentRegistry \<Rightarrow> string \<Rightarrow> Skill Factory result" where
  "LookupSkill r cid =
     (case skills r cid of None \<Rightarrow> Err (notFoundErr KindSkill cid) | Some f \<Rightarrow> Ok f)"

definition RegisterOutputContract :: "OutputContract Factory \<Rightarrow> 'h ComponentRegistry \<Rightarrow> 'h ComponentRegistry result" where
  "RegisterOutputContract f r =
     (if frozen r then Err (Sentinel ErrRegistryFrozen)
      else if outputContracts r (f_ID f) \<noteq> None then Err (dupErr KindOutputContract (f_ID f))
      else Ok (r\<lparr>outputContracts := (outputContracts r)(f_ID f \<mapsto> f)\<rparr>))"

definition LookupOutputContract :: "'h ComponentRegistry \<Rightarrow> string \<Rightarrow> OutputContract Factory result" where
  "LookupOutputContract r cid =
     (case outputContracts r cid of None \<Rightarrow> Err (notFoundErr KindOutputContract cid) | Some f \<Rightarrow> Ok f)"

definition RegisterMCPBinding :: "MCPBinding Factory \<Rightarrow> 'h ComponentRegistry \<Rightarrow> 'h ComponentRegistry result" where
  "RegisterMCPBinding f r =
     (if frozen r then Err (Sentinel ErrRegistryFrozen)
      else if mcpBindings r (f_ID f) \<noteq> None then Err (dupErr KindMCPBinding (f_ID f))
      else Ok (r\<lparr>mcpBindings := (mcpBindings r)(f_ID f \<mapsto> f)\<rparr>))"

definition LookupMCPBinding :: "'h ComponentRegistry \<Rightarrow> string \<Rightarrow> MCPBinding Factory result" where
  "LookupMCPBinding r cid =
     (case mcpBindings r cid of None \<Rightarrow> Err (notFoundErr KindMCPBinding cid) | Some f \<Rightarrow> Ok f)"

section \<open>The contract of a kind's table\<close>

text \<open>
  \<open>register\<close> and \<open>lookup\<close> of one kind, \<open>tab\<close> its table and \<open>kind\<close> its name. The
  laws are what the builder and the callers rely on.
\<close>

locale kind_table =
  fixes register :: "'v Factory \<Rightarrow> 'h ComponentRegistry \<Rightarrow> 'h ComponentRegistry result"
    and lookup :: "'h ComponentRegistry \<Rightarrow> string \<Rightarrow> 'v Factory result"
    and tab :: "'h ComponentRegistry \<Rightarrow> 'v table"
    and kind :: string
  assumes register_frozen: "frozen r \<Longrightarrow> register f r = Err (Sentinel ErrRegistryFrozen)"
    and register_dup: "\<not> frozen r \<Longrightarrow> tab r (f_ID f) \<noteq> None \<Longrightarrow> register f r = Err (dupErr kind (f_ID f))"
    and register_new: "\<not> frozen r \<Longrightarrow> tab r (f_ID f) = None \<Longrightarrow>
      \<exists>r'. register f r = Ok r' \<and> tab r' = (tab r)(f_ID f \<mapsto> f) \<and> frozen r' = frozen r"
    and lookup_hit: "tab r cid = Some f \<Longrightarrow> lookup r cid = Ok f"
    and lookup_miss: "tab r cid = None \<Longrightarrow> lookup r cid = Err (notFoundErr kind cid)"
begin

lemma register_Ok:
  "register f r = Ok r' \<Longrightarrow> \<not> frozen r \<and> tab r (f_ID f) = None \<and> tab r' = (tab r)(f_ID f \<mapsto> f) \<and> \<not> frozen r'"
  using register_frozen[of r f] register_dup[of r f] register_new[of r f] by fastforce

lemma lookup_after_register:
  assumes "register f r = Ok r'"
  shows "lookup r' cid = (if cid = f_ID f then Ok f else lookup r cid)"
  using register_Ok[OF assms] lookup_hit[of r' cid] lookup_miss[of r' cid] lookup_hit[of r cid] lookup_miss[of r cid]
  by (cases "tab r cid") auto

text \<open>First registration wins: a registered factory is never replaced.\<close>

lemma register_keeps:
  assumes "register f r = Ok r'" "lookup r cid = Ok g"
  shows "lookup r' cid = Ok g"
proof -
  have "tab r cid = Some g" using assms(2) lookup_hit[of r cid] lookup_miss[of r cid] by (cases "tab r cid") auto
  then show ?thesis using register_Ok[OF assms(1)] lookup_after_register[OF assms(1), of cid] assms(2) by auto
qed

lemma register_error:
  "register f r = Err e \<Longrightarrow>
     (frozen r \<and> e = Sentinel ErrRegistryFrozen) \<or> (\<not> frozen r \<and> tab r (f_ID f) \<noteq> None \<and> errors_is e ErrDuplicate)"
  using register_frozen[of r f] register_dup[of r f] register_new[of r f]
  by (cases "frozen r"; cases "tab r (f_ID f)") (auto simp: dupErr_def)

lemma register_noPanic: "noPanic (register f r)"
  using register_frozen[of r f] register_dup[of r f] register_new[of r f]
  by (cases "frozen r"; cases "tab r (f_ID f)") auto

lemma lookup_noPanic: "noPanic (lookup r cid)"
  using lookup_hit[of r cid] lookup_miss[of r cid] by (cases "tab r cid") auto

lemma lookup_Ok: "lookup r cid = Ok f \<longleftrightarrow> tab r cid = Some f"
  using lookup_hit[of r cid] lookup_miss[of r cid] by (cases "tab r cid") auto

lemma lookup_Err: "lookup r cid = Err e \<longleftrightarrow> tab r cid = None \<and> e = notFoundErr kind cid"
  using lookup_hit[of r cid] lookup_miss[of r cid] by (cases "tab r cid") auto

end

interpretation regProvider: kind_table RegisterProvider LookupProvider providers KindProvider
  by unfold_locales (auto simp: RegisterProvider_def LookupProvider_def)

interpretation regPromptAsset: kind_table RegisterPromptAsset LookupPromptAsset promptAssets KindPromptAsset
  by unfold_locales (auto simp: RegisterPromptAsset_def LookupPromptAsset_def)

interpretation regToolPack: kind_table RegisterToolPack LookupToolPack toolPacks KindToolPack
  by unfold_locales (auto simp: RegisterToolPack_def LookupToolPack_def)

interpretation regPolicyPack: kind_table RegisterPolicyPack LookupPolicyPack policyPacks KindPolicyPack
  by unfold_locales (auto simp: RegisterPolicyPack_def LookupPolicyPack_def)

interpretation regPreLLMFilter: kind_table RegisterPreLLMFilter LookupPreLLMFilter preLLMFilters KindPreLLMFilter
  by unfold_locales (auto simp: RegisterPreLLMFilter_def LookupPreLLMFilter_def)

interpretation regPreToolFilter: kind_table RegisterPreToolFilter LookupPreToolFilter preToolFilters KindPreToolFilter
  by unfold_locales (auto simp: RegisterPreToolFilter_def LookupPreToolFilter_def)

interpretation regPostToolFilter: kind_table RegisterPostToolFilter LookupPostToolFilter postToolFilters KindPostToolFilter
  by unfold_locales (auto simp: RegisterPostToolFilter_def LookupPostToolFilter_def)

interpretation regBudgetProfile: kind_table RegisterBudgetProfile LookupBudgetProfile budgetProfiles KindBudgetProfile
  by unfold_locales (auto simp: RegisterBudgetProfile_def LookupBudgetProfile_def)

interpretation regTelemetryProfile: kind_table RegisterTelemetryProfile LookupTelemetryProfile telemetryProfiles KindTelemetryProfile
  by unfold_locales (auto simp: RegisterTelemetryProfile_def LookupTelemetryProfile_def)

interpretation regCredentialResolver: kind_table RegisterCredentialResolver LookupCredentialResolver credResolvers KindCredentialResolver
  by unfold_locales (auto simp: RegisterCredentialResolver_def LookupCredentialResolver_def)

interpretation regIdentitySigner: kind_table RegisterIdentitySigner LookupIdentitySigner identitySigners KindIdentitySigner
  by unfold_locales (auto simp: RegisterIdentitySigner_def LookupIdentitySigner_def)

interpretation regSkill: kind_table RegisterSkill LookupSkill skills KindSkill
  by unfold_locales (auto simp: RegisterSkill_def LookupSkill_def)

interpretation regOutputContract: kind_table RegisterOutputContract LookupOutputContract outputContracts KindOutputContract
  by unfold_locales (auto simp: RegisterOutputContract_def LookupOutputContract_def)

interpretation regMCPBinding: kind_table RegisterMCPBinding LookupMCPBinding mcpBindings KindMCPBinding
  by unfold_locales (auto simp: RegisterMCPBinding_def LookupMCPBinding_def)

section \<open>The registry as a state machine\<close>

inductive reg_step :: "'h ComponentRegistry \<Rightarrow> 'h ComponentRegistry \<Rightarrow> bool" where
  step_freeze: "reg_step r (Freeze r)"
| step_Provider: "RegisterProvider f r = Ok r' \<Longrightarrow> reg_step r r'"
| step_PromptAsset: "RegisterPromptAsset f r = Ok r' \<Longrightarrow> reg_step r r'"
| step_ToolPack: "RegisterToolPack f r = Ok r' \<Longrightarrow> reg_step r r'"
| step_PolicyPack: "RegisterPolicyPack f r = Ok r' \<Longrightarrow> reg_step r r'"
| step_PreLLMFilter: "RegisterPreLLMFilter f r = Ok r' \<Longrightarrow> reg_step r r'"
| step_PreToolFilter: "RegisterPreToolFilter f r = Ok r' \<Longrightarrow> reg_step r r'"
| step_PostToolFilter: "RegisterPostToolFilter f r = Ok r' \<Longrightarrow> reg_step r r'"
| step_BudgetProfile: "RegisterBudgetProfile f r = Ok r' \<Longrightarrow> reg_step r r'"
| step_TelemetryProfile: "RegisterTelemetryProfile f r = Ok r' \<Longrightarrow> reg_step r r'"
| step_CredentialResolver: "RegisterCredentialResolver f r = Ok r' \<Longrightarrow> reg_step r r'"
| step_IdentitySigner: "RegisterIdentitySigner f r = Ok r' \<Longrightarrow> reg_step r r'"
| step_Skill: "RegisterSkill f r = Ok r' \<Longrightarrow> reg_step r r'"
| step_OutputContract: "RegisterOutputContract f r = Ok r' \<Longrightarrow> reg_step r r'"
| step_MCPBinding: "RegisterMCPBinding f r = Ok r' \<Longrightarrow> reg_step r r'"

inductive_cases reg_step_cases: "reg_step r r'"

inductive reachable :: "'h ComponentRegistry \<Rightarrow> bool" where
  reach_init: "reachable NewComponentRegistry"
| reach_step: "reachable r \<Longrightarrow> reg_step r r' \<Longrightarrow> reachable r'"

text \<open>Every factory is stored under its own identifier.\<close>

definition keyed :: "'v table \<Rightarrow> bool" where
  "keyed t \<longleftrightarrow> (\<forall>cid f. t cid = Some f \<longrightarrow> f_ID f = cid)"

lemma keyed_simps [simp]: "keyed (\<lambda>_. None)" "keyed t \<Longrightarrow> keyed (t(f_ID f \<mapsto> f))"
  by (auto simp: keyed_def)

definition registry_wf :: "'h ComponentRegistry \<Rightarrow> bool" where
  "registry_wf r \<longleftrightarrow>
     keyed (providers r) \<and>
     keyed (promptAssets r) \<and>
     keyed (toolPacks r) \<and>
     keyed (policyPacks r) \<and>
     keyed (preLLMFilters r) \<and>
     keyed (preToolFilters r) \<and>
     keyed (postToolFilters r) \<and>
     keyed (budgetProfiles r) \<and>
     keyed (telemetryProfiles r) \<and>
     keyed (credResolvers r) \<and>
     keyed (identitySigners r) \<and>
     keyed (skills r) \<and>
     keyed (outputContracts r) \<and>
     keyed (mcpBindings r)"

lemmas register_defs =
  RegisterProvider_def RegisterPromptAsset_def RegisterToolPack_def RegisterPolicyPack_def RegisterPreLLMFilter_def RegisterPreToolFilter_def RegisterPostToolFilter_def RegisterBudgetProfile_def RegisterTelemetryProfile_def RegisterCredentialResolver_def RegisterIdentitySigner_def RegisterSkill_def RegisterOutputContract_def RegisterMCPBinding_def

lemmas lookup_defs =
  LookupProvider_def LookupPromptAsset_def LookupToolPack_def LookupPolicyPack_def LookupPreLLMFilter_def LookupPreToolFilter_def LookupPostToolFilter_def LookupBudgetProfile_def LookupTelemetryProfile_def LookupCredentialResolver_def LookupIdentitySigner_def LookupSkill_def LookupOutputContract_def LookupMCPBinding_def

lemma reg_step_wf [forge_inv]: "reg_step r r' \<Longrightarrow> registry_wf r \<Longrightarrow> registry_wf r'"
  by (induction rule: reg_step.induct)
    (auto simp: registry_wf_def Freeze_def register_defs split: if_splits)

lemma reachable_wf: "reachable r \<Longrightarrow> registry_wf r"
  by (induction rule: reachable.induct)
    (simp_all add: reg_step_wf, simp add: registry_wf_def NewComponentRegistry_def)

text \<open>After \<^verbatim>\<open>Freeze\<close> the only step left is \<^verbatim>\<open>Freeze\<close>, which changes nothing.\<close>

lemma frozen_step: "reg_step r r' \<Longrightarrow> frozen r \<Longrightarrow> r' = r"
  by (induction rule: reg_step.induct) (auto simp: Freeze_def register_defs)

lemma frozen_steps: "reg_step\<^sup>*\<^sup>* r r' \<Longrightarrow> frozen r \<Longrightarrow> r' = r"
  by (induction rule: rtranclp_induct) (auto dest: frozen_step)

lemma Freeze_idem: "Freeze (Freeze r) = Freeze r"
  by (simp add: Freeze_def)

section \<open>Properties\<close>

definition constFactory :: "string \<Rightarrow> 'v \<Rightarrow> 'v Factory" where
  "constFactory cid v = \<lparr>f_ID = cid, f_Description = [], f_Build = (\<lambda>_ _. Ok v)\<rparr>"

definition samplePack :: "nat ToolPack Factory" where
  "samplePack = constFactory ''toolpack.a@1.0.0'' \<lparr>tp_Invoker = 0, tp_Definitions = [], tp_Descriptors = []\<rparr>"

text \<open>C13. A frozen registry no longer changes: any sequence of operations leaves it as it is,
  and each of the fourteen kinds refuses registration with the frozen sentinel.\<close>

theorem frozen_registry_immutable:
  assumes "frozen r" and "reg_step\<^sup>*\<^sup>* r r'"
  shows "r' = r \<and> RegisterProvider f1 r = Err (Sentinel ErrRegistryFrozen) \<and>
    RegisterPromptAsset f2 r = Err (Sentinel ErrRegistryFrozen) \<and>
    RegisterToolPack f3 r = Err (Sentinel ErrRegistryFrozen) \<and>
    RegisterPolicyPack f4 r = Err (Sentinel ErrRegistryFrozen) \<and>
    RegisterPreLLMFilter f5 r = Err (Sentinel ErrRegistryFrozen) \<and>
    RegisterPreToolFilter f6 r = Err (Sentinel ErrRegistryFrozen) \<and>
    RegisterPostToolFilter f7 r = Err (Sentinel ErrRegistryFrozen) \<and>
    RegisterBudgetProfile f8 r = Err (Sentinel ErrRegistryFrozen) \<and>
    RegisterTelemetryProfile f9 r = Err (Sentinel ErrRegistryFrozen) \<and>
    RegisterCredentialResolver f10 r = Err (Sentinel ErrRegistryFrozen) \<and>
    RegisterIdentitySigner f11 r = Err (Sentinel ErrRegistryFrozen) \<and>
    RegisterSkill f12 r = Err (Sentinel ErrRegistryFrozen) \<and>
    RegisterOutputContract f13 r = Err (Sentinel ErrRegistryFrozen) \<and>
    RegisterMCPBinding f14 r = Err (Sentinel ErrRegistryFrozen)"
  using frozen_steps[OF assms(2,1)] assms(1) by (simp add: register_defs)

theorem frozen_registry_immutable_witness:
  "RegisterToolPack samplePack (Freeze NewComponentRegistry) = Err (Sentinel ErrRegistryFrozen)"
  using frozen_registry_immutable[of "Freeze (NewComponentRegistry :: nat ComponentRegistry)"
      "Freeze NewComponentRegistry"]
  by (simp add: Freeze_def)

end
