(* ===== verification/RegistryLog.thy ===== *)
theory RegistryLog
  imports Registry
begin

text \<open>
  The registry (\<^verbatim>\<open>registry/registry.go\<close>) against a log: a program calls \<^verbatim>\<open>Freeze\<close> and the fourteen
  \<^verbatim>\<open>Register\<close> methods in some order, and what it then finds, and every error it got, is a function of
  the calls it made. First registration under an id wins, and nothing counts after a freeze.
\<close>

section \<open>Calls\<close>

datatype 'h regOp =
    OpFreeze
  | OpProvider "'h Factory"
  | OpPromptAsset "string Factory"
  | OpToolPack "('h ToolPack) Factory"
  | OpPolicyPack "('h PolicyPack) Factory"
  | OpPreLLMFilter "'h Factory"
  | OpPreToolFilter "'h Factory"
  | OpPostToolFilter "'h Factory"
  | OpBudgetProfile "('h BudgetProfile) Factory"
  | OpTelemetryProfile "('h TelemetryProfile) Factory"
  | OpCredentialResolver "('h option) Factory"
  | OpIdentitySigner "('h option) Factory"
  | OpSkill "Skill Factory"
  | OpOutputContract "OutputContract Factory"
  | OpMCPBinding "MCPBinding Factory"

text \<open>A refused call leaves the registry as it was.\<close>

definition attempt :: "'h ComponentRegistry \<Rightarrow> 'h ComponentRegistry result \<Rightarrow> unit result \<times> 'h ComponentRegistry" where
  "attempt r out = (case out of Ok r' \<Rightarrow> (Ok (), r') | Err e \<Rightarrow> (Err e, r) | Panic p \<Rightarrow> (Panic p, r))"

fun regApply :: "'h regOp \<Rightarrow> 'h ComponentRegistry \<Rightarrow> unit result \<times> 'h ComponentRegistry" where
  "regApply OpFreeze r = (Ok (), Freeze r)"
| "regApply (OpProvider f) r = attempt r (RegisterProvider f r)"
| "regApply (OpPromptAsset f) r = attempt r (RegisterPromptAsset f r)"
| "regApply (OpToolPack f) r = attempt r (RegisterToolPack f r)"
| "regApply (OpPolicyPack f) r = attempt r (RegisterPolicyPack f r)"
| "regApply (OpPreLLMFilter f) r = attempt r (RegisterPreLLMFilter f r)"
| "regApply (OpPreToolFilter f) r = attempt r (RegisterPreToolFilter f r)"
| "regApply (OpPostToolFilter f) r = attempt r (RegisterPostToolFilter f r)"
| "regApply (OpBudgetProfile f) r = attempt r (RegisterBudgetProfile f r)"
| "regApply (OpTelemetryProfile f) r = attempt r (RegisterTelemetryProfile f r)"
| "regApply (OpCredentialResolver f) r = attempt r (RegisterCredentialResolver f r)"
| "regApply (OpIdentitySigner f) r = attempt r (RegisterIdentitySigner f r)"
| "regApply (OpSkill f) r = attempt r (RegisterSkill f r)"
| "regApply (OpOutputContract f) r = attempt r (RegisterOutputContract f r)"
| "regApply (OpMCPBinding f) r = attempt r (RegisterMCPBinding f r)"

fun regRun :: "'h regOp list \<Rightarrow> 'h ComponentRegistry \<Rightarrow> unit result list \<times> 'h ComponentRegistry" where
  "regRun [] r = ([], r)"
| "regRun (c # cs) r = (case regApply c r of (out, r1) \<Rightarrow> (case regRun cs r1 of (outs, r2) \<Rightarrow> (out # outs, r2)))"

section \<open>What the log says\<close>

fun isFreeze :: "'h regOp \<Rightarrow> bool" where
  "isFreeze OpFreeze = True" | "isFreeze _ = False"

fun asProvider :: "'h regOp \<Rightarrow> 'h Factory option" where
  "asProvider (OpProvider f) = Some f" | "asProvider _ = None"

fun asPromptAsset :: "'h regOp \<Rightarrow> string Factory option" where
  "asPromptAsset (OpPromptAsset f) = Some f" | "asPromptAsset _ = None"

fun asToolPack :: "'h regOp \<Rightarrow> ('h ToolPack) Factory option" where
  "asToolPack (OpToolPack f) = Some f" | "asToolPack _ = None"

fun asPolicyPack :: "'h regOp \<Rightarrow> ('h PolicyPack) Factory option" where
  "asPolicyPack (OpPolicyPack f) = Some f" | "asPolicyPack _ = None"

fun asPreLLMFilter :: "'h regOp \<Rightarrow> 'h Factory option" where
  "asPreLLMFilter (OpPreLLMFilter f) = Some f" | "asPreLLMFilter _ = None"

fun asPreToolFilter :: "'h regOp \<Rightarrow> 'h Factory option" where
  "asPreToolFilter (OpPreToolFilter f) = Some f" | "asPreToolFilter _ = None"

fun asPostToolFilter :: "'h regOp \<Rightarrow> 'h Factory option" where
  "asPostToolFilter (OpPostToolFilter f) = Some f" | "asPostToolFilter _ = None"

fun asBudgetProfile :: "'h regOp \<Rightarrow> ('h BudgetProfile) Factory option" where
  "asBudgetProfile (OpBudgetProfile f) = Some f" | "asBudgetProfile _ = None"

fun asTelemetryProfile :: "'h regOp \<Rightarrow> ('h TelemetryProfile) Factory option" where
  "asTelemetryProfile (OpTelemetryProfile f) = Some f" | "asTelemetryProfile _ = None"

fun asCredentialResolver :: "'h regOp \<Rightarrow> ('h option) Factory option" where
  "asCredentialResolver (OpCredentialResolver f) = Some f" | "asCredentialResolver _ = None"

fun asIdentitySigner :: "'h regOp \<Rightarrow> ('h option) Factory option" where
  "asIdentitySigner (OpIdentitySigner f) = Some f" | "asIdentitySigner _ = None"

fun asSkill :: "'h regOp \<Rightarrow> Skill Factory option" where
  "asSkill (OpSkill f) = Some f" | "asSkill _ = None"

fun asOutputContract :: "'h regOp \<Rightarrow> OutputContract Factory option" where
  "asOutputContract (OpOutputContract f) = Some f" | "asOutputContract _ = None"

fun asMCPBinding :: "'h regOp \<Rightarrow> MCPBinding Factory option" where
  "asMCPBinding (OpMCPBinding f) = Some f" | "asMCPBinding _ = None"

text \<open>The factory of a kind under an id: the first one registered before the first freeze.\<close>

definition registered :: "('h regOp \<Rightarrow> 'v Factory option) \<Rightarrow> 'h regOp list \<Rightarrow> string \<Rightarrow> 'v Factory option" where
  "registered sel log cid = List.find (\<lambda>f. f_ID f = cid) (List.map_filter sel (takeWhile (\<lambda>c. \<not> isFreeze c) log))"

definition lookupLog :: "string \<Rightarrow> ('h regOp \<Rightarrow> 'v Factory option) \<Rightarrow> 'h regOp list \<Rightarrow> string \<Rightarrow> 'v Factory result" where
  "lookupLog kind sel log cid = (case registered sel log cid of None \<Rightarrow> Err (notFoundErr kind cid) | Some f \<Rightarrow> Ok f)"

definition registerLog :: "string \<Rightarrow> ('h regOp \<Rightarrow> 'v Factory option) \<Rightarrow> 'h regOp list \<Rightarrow> 'v Factory \<Rightarrow> unit result" where
  "registerLog kind sel log f =
     (if list_ex isFreeze log then Err (Sentinel ErrRegistryFrozen)
      else if registered sel log (f_ID f) \<noteq> None then Err (dupErr kind (f_ID f)) else Ok ())"

fun outcomeLog :: "'h regOp list \<Rightarrow> 'h regOp \<Rightarrow> unit result" where
  "outcomeLog log OpFreeze = Ok ()"
| "outcomeLog log (OpProvider f) = registerLog KindProvider asProvider log f"
| "outcomeLog log (OpPromptAsset f) = registerLog KindPromptAsset asPromptAsset log f"
| "outcomeLog log (OpToolPack f) = registerLog KindToolPack asToolPack log f"
| "outcomeLog log (OpPolicyPack f) = registerLog KindPolicyPack asPolicyPack log f"
| "outcomeLog log (OpPreLLMFilter f) = registerLog KindPreLLMFilter asPreLLMFilter log f"
| "outcomeLog log (OpPreToolFilter f) = registerLog KindPreToolFilter asPreToolFilter log f"
| "outcomeLog log (OpPostToolFilter f) = registerLog KindPostToolFilter asPostToolFilter log f"
| "outcomeLog log (OpBudgetProfile f) = registerLog KindBudgetProfile asBudgetProfile log f"
| "outcomeLog log (OpTelemetryProfile f) = registerLog KindTelemetryProfile asTelemetryProfile log f"
| "outcomeLog log (OpCredentialResolver f) = registerLog KindCredentialResolver asCredentialResolver log f"
| "outcomeLog log (OpIdentitySigner f) = registerLog KindIdentitySigner asIdentitySigner log f"
| "outcomeLog log (OpSkill f) = registerLog KindSkill asSkill log f"
| "outcomeLog log (OpOutputContract f) = registerLog KindOutputContract asOutputContract log f"
| "outcomeLog log (OpMCPBinding f) = registerLog KindMCPBinding asMCPBinding log f"

lemma regRun_snoc:
  "regRun (cs @ [c]) r = (case regRun cs r of (outs, r1) \<Rightarrow> (case regApply c r1 of (out, r2) \<Rightarrow> (outs @ [out], r2)))"
  by (induction cs arbitrary: r) (simp_all split: prod.split)

lemma takeWhile_snoc:
  "takeWhile P (xs @ [x]) = (if list_all P xs then xs @ (if P x then [x] else []) else takeWhile P xs)"
  by (induction xs) auto

lemma not_all_not: "\<not> list_all (\<lambda>c. \<not> P c) xs \<longleftrightarrow> list_ex P xs" "list_all (\<lambda>c. \<not> P c) xs \<longleftrightarrow> \<not> list_ex P xs"
  by (simp_all add: list_all_iff list_ex_iff)

lemma find_snoc: "List.find P (xs @ [x]) = (case List.find P xs of None \<Rightarrow> if P x then Some x else None | Some y \<Rightarrow> Some y)"
  by (induction xs) auto

lemma takeWhile_all: "\<not> list_ex isFreeze log \<Longrightarrow> takeWhile (\<lambda>c. \<not> isFreeze c) log = log"
  by (induction log) auto

lemma registered_snoc:
  "registered sel (log @ [c]) cid =
     (if list_ex isFreeze log \<or> isFreeze c then registered sel log cid
      else case registered sel log cid of Some f \<Rightarrow> Some f
        | None \<Rightarrow> (case sel c of None \<Rightarrow> None | Some f \<Rightarrow> if f_ID f = cid then Some f else None))"
  by (cases "sel c") (auto simp: registered_def takeWhile_snoc not_all_not takeWhile_all map_filter_def find_snoc split: option.split)

lemma frozen_apply: "frozen (snd (regApply c r)) \<longleftrightarrow> frozen r \<or> isFreeze c"
  by (cases c) (auto simp: attempt_def Freeze_def register_defs)

lemma frozen_log: "frozen (snd (regRun log NewComponentRegistry)) \<longleftrightarrow> list_ex isFreeze log"
  by (induction log rule: rev_induct) (auto simp: regRun_snoc frozen_apply split_def NewComponentRegistry_def)

text \<open>The contract of a table: an accepted registration of its kind adds, everything else keeps.\<close>

locale logged_table =
  fixes tab :: "'h ComponentRegistry \<Rightarrow> 'v table"
    and sel :: "'h regOp \<Rightarrow> 'v Factory option"
  assumes tab_new: "tab NewComponentRegistry cid = None"
    and tab_apply: "tab (snd (regApply c r)) cid =
      (if frozen r \<or> isFreeze c then tab r cid
       else case tab r cid of Some f \<Rightarrow> Some f
         | None \<Rightarrow> (case sel c of None \<Rightarrow> None | Some f \<Rightarrow> if f_ID f = cid then Some f else None))"
begin

lemma tab_log:
  "tab (snd (regRun log NewComponentRegistry)) cid = registered sel log cid"
proof (induction log rule: rev_induct)
  case Nil
  then show ?case by (simp add: tab_new registered_def map_filter_def)
next
  case (snoc c log)
  then show ?case using tab_apply[of c "snd (regRun log NewComponentRegistry)" cid] frozen_log[of log]
    by (simp add: regRun_snoc registered_snoc split_def)
qed

end

interpretation logProvider: logged_table providers asProvider
  by (unfold_locales, simp add: NewComponentRegistry_def, case_tac c, auto simp: attempt_def Freeze_def register_defs split: option.split)

interpretation logPromptAsset: logged_table promptAssets asPromptAsset
  by (unfold_locales, simp add: NewComponentRegistry_def, case_tac c, auto simp: attempt_def Freeze_def register_defs split: option.split)

interpretation logToolPack: logged_table toolPacks asToolPack
  by (unfold_locales, simp add: NewComponentRegistry_def, case_tac c, auto simp: attempt_def Freeze_def register_defs split: option.split)

interpretation logPolicyPack: logged_table policyPacks asPolicyPack
  by (unfold_locales, simp add: NewComponentRegistry_def, case_tac c, auto simp: attempt_def Freeze_def register_defs split: option.split)

interpretation logPreLLMFilter: logged_table preLLMFilters asPreLLMFilter
  by (unfold_locales, simp add: NewComponentRegistry_def, case_tac c, auto simp: attempt_def Freeze_def register_defs split: option.split)

interpretation logPreToolFilter: logged_table preToolFilters asPreToolFilter
  by (unfold_locales, simp add: NewComponentRegistry_def, case_tac c, auto simp: attempt_def Freeze_def register_defs split: option.split)

interpretation logPostToolFilter: logged_table postToolFilters asPostToolFilter
  by (unfold_locales, simp add: NewComponentRegistry_def, case_tac c, auto simp: attempt_def Freeze_def register_defs split: option.split)

interpretation logBudgetProfile: logged_table budgetProfiles asBudgetProfile
  by (unfold_locales, simp add: NewComponentRegistry_def, case_tac c, auto simp: attempt_def Freeze_def register_defs split: option.split)

interpretation logTelemetryProfile: logged_table telemetryProfiles asTelemetryProfile
  by (unfold_locales, simp add: NewComponentRegistry_def, case_tac c, auto simp: attempt_def Freeze_def register_defs split: option.split)

interpretation logCredentialResolver: logged_table credResolvers asCredentialResolver
  by (unfold_locales, simp add: NewComponentRegistry_def, case_tac c, auto simp: attempt_def Freeze_def register_defs split: option.split)

interpretation logIdentitySigner: logged_table identitySigners asIdentitySigner
  by (unfold_locales, simp add: NewComponentRegistry_def, case_tac c, auto simp: attempt_def Freeze_def register_defs split: option.split)

interpretation logSkill: logged_table skills asSkill
  by (unfold_locales, simp add: NewComponentRegistry_def, case_tac c, auto simp: attempt_def Freeze_def register_defs split: option.split)

interpretation logOutputContract: logged_table outputContracts asOutputContract
  by (unfold_locales, simp add: NewComponentRegistry_def, case_tac c, auto simp: attempt_def Freeze_def register_defs split: option.split)

interpretation logMCPBinding: logged_table mcpBindings asMCPBinding
  by (unfold_locales, simp add: NewComponentRegistry_def, case_tac c, auto simp: attempt_def Freeze_def register_defs split: option.split)

lemmas tab_logs = logProvider.tab_log logPromptAsset.tab_log logToolPack.tab_log logPolicyPack.tab_log logPreLLMFilter.tab_log logPreToolFilter.tab_log logPostToolFilter.tab_log logBudgetProfile.tab_log logTelemetryProfile.tab_log logCredentialResolver.tab_log logIdentitySigner.tab_log logSkill.tab_log logOutputContract.tab_log logMCPBinding.tab_log

lemma outcome_log: "fst (regApply c (snd (regRun log NewComponentRegistry))) = outcomeLog log c"
  by (cases c) (simp_all add: attempt_def register_defs registerLog_def frozen_log tab_logs)

lemma outcomes_log:
  "fst (regRun log NewComponentRegistry) = map (\<lambda>i. outcomeLog (take i log) (log ! i)) [0..<length log]"
proof (induction log rule: rev_induct)
  case (snoc c log)
  have "map (\<lambda>i. outcomeLog (take i (log @ [c])) ((log @ [c]) ! i)) [0..<length log] =
      map (\<lambda>i. outcomeLog (take i log) (log ! i)) [0..<length log]"
    by (rule map_cong) (simp_all add: nth_append)
  then show ?case using snoc outcome_log[of c log] by (simp add: regRun_snoc split_def)
qed simp

section \<open>Property\<close>

text \<open>C12. The registry is the log of its calls. Whatever a program registers and whenever it freezes,
  starting from an empty registry: each lookup, of any of the fourteen kinds, finds the factory of that
  kind that was registered first under the id before the first freeze, and fails with the not-found error of
  its kind when there is none; and each call had the outcome the earlier calls determine, the frozen
  sentinel after a freeze and otherwise the duplicate error of the kind for an id that kind already holds. So a
  factory is never replaced, found under another id or kind, or added to a frozen registry.\<close>

theorem registry_refines_log:
  "fst (regRun log NewComponentRegistry) = map (\<lambda>i. outcomeLog (take i log) (log ! i)) [0..<length log] \<and>
   frozen (snd (regRun log NewComponentRegistry)) = list_ex isFreeze log \<and>
   LookupProvider (snd (regRun log NewComponentRegistry)) cid = lookupLog KindProvider asProvider log cid \<and>
   LookupPromptAsset (snd (regRun log NewComponentRegistry)) cid = lookupLog KindPromptAsset asPromptAsset log cid \<and>
   LookupToolPack (snd (regRun log NewComponentRegistry)) cid = lookupLog KindToolPack asToolPack log cid \<and>
   LookupPolicyPack (snd (regRun log NewComponentRegistry)) cid = lookupLog KindPolicyPack asPolicyPack log cid \<and>
   LookupPreLLMFilter (snd (regRun log NewComponentRegistry)) cid = lookupLog KindPreLLMFilter asPreLLMFilter log cid \<and>
   LookupPreToolFilter (snd (regRun log NewComponentRegistry)) cid = lookupLog KindPreToolFilter asPreToolFilter log cid \<and>
   LookupPostToolFilter (snd (regRun log NewComponentRegistry)) cid = lookupLog KindPostToolFilter asPostToolFilter log cid \<and>
   LookupBudgetProfile (snd (regRun log NewComponentRegistry)) cid = lookupLog KindBudgetProfile asBudgetProfile log cid \<and>
   LookupTelemetryProfile (snd (regRun log NewComponentRegistry)) cid = lookupLog KindTelemetryProfile asTelemetryProfile log cid \<and>
   LookupCredentialResolver (snd (regRun log NewComponentRegistry)) cid = lookupLog KindCredentialResolver asCredentialResolver log cid \<and>
   LookupIdentitySigner (snd (regRun log NewComponentRegistry)) cid = lookupLog KindIdentitySigner asIdentitySigner log cid \<and>
   LookupSkill (snd (regRun log NewComponentRegistry)) cid = lookupLog KindSkill asSkill log cid \<and>
   LookupOutputContract (snd (regRun log NewComponentRegistry)) cid = lookupLog KindOutputContract asOutputContract log cid \<and>
   LookupMCPBinding (snd (regRun log NewComponentRegistry)) cid = lookupLog KindMCPBinding asMCPBinding log cid"
  by (intro conjI outcomes_log frozen_log) (simp_all only: lookup_defs lookupLog_def tab_logs)

end
