(* ===== verification/SpecMerge.thy ===== *)
theory SpecMerge
  imports SpecTypes
begin

text \<open>
  Composition of agent specs: the field helpers of \<^verbatim>\<open>merge.go\<close> and the merge and
  overlay passes of \<^verbatim>\<open>normalize.go\<close> (\<^verbatim>\<open>mergeOne\<close>, \<^verbatim>\<open>mergeChain\<close>,
  \<^verbatim>\<open>applyOverlays\<close> and their helpers). The Go functions write through pointers to
  the merged spec and to the provenance mirror; here both are passed and returned as a
  pair.

  The contract is stated once, in two locales: a field is \<^emph>\<open>layered\<close> when a merge step
  takes the child's value exactly when the child sets the field, and \<^emph>\<open>tracked\<close> when
  the provenance mirror moves with it. The consequences over a whole chain of layers
  (the last layer that sets the field wins, and provenance names that layer) are proved
  inside the locales and every top-level field of \<^verbatim>\<open>AgentSpec\<close> interprets them,
  once for \<^verbatim>\<open>mergeChain\<close> and once for \<^verbatim>\<open>applyOverlays\<close>.
\<close>

type_synonym mstate = "AgentSpec \<times> provenanceFields"

section \<open>merge.go\<close>

definition scalarString :: "string \<Rightarrow> string \<Rightarrow> string" where
  "scalarString parent child = (if child \<noteq> [] then child else parent)"

definition pointerStruct :: "'a option \<Rightarrow> 'a option \<Rightarrow> 'a option" where
  "pointerStruct parent child = (if child \<noteq> None then child else parent)"

definition sliceReplaceIfSet :: "'a slice \<Rightarrow> 'a slice \<Rightarrow> 'a slice" where
  "sliceReplaceIfSet parent child = (if child \<noteq> None then child else parent)"

definition mapStringStringReplace :: "labels \<Rightarrow> labels \<Rightarrow> labels" where
  "mapStringStringReplace parent child = (if child \<noteq> None then child else parent)"

section \<open>mergeChain and its helpers\<close>

definition isZeroMetadata :: "Metadata \<Rightarrow> bool" where
  "isZeroMetadata m \<longleftrightarrow> md_ID m = [] \<and> md_Version m = [] \<and> md_DisplayName m = [] \<and>
     md_Description m = [] \<and> length (elems (md_Owners m)) = 0 \<and> length (elems (md_Labels m)) = 0"

definition mergeMetadata :: "Metadata \<Rightarrow> Metadata \<Rightarrow> Metadata" where
  "mergeMetadata merged child = merged\<lparr>
     md_ID := scalarString (md_ID merged) (md_ID child),
     md_Version := scalarString (md_Version merged) (md_Version child),
     md_DisplayName := scalarString (md_DisplayName merged) (md_DisplayName child),
     md_Description := scalarString (md_Description merged) (md_Description child),
     md_Owners := (if md_Owners child \<noteq> None then md_Owners child else md_Owners merged),
     md_Labels := mapStringStringReplace (md_Labels merged) (md_Labels child)\<rparr>"

definition setsPrompt :: "AgentSpec \<Rightarrow> bool" where
  "setsPrompt c \<longleftrightarrow> pb_System (s_Prompt c) \<noteq> None \<or> pb_User (s_Prompt c) \<noteq> None"

definition setsFilters :: "AgentSpec \<Rightarrow> bool" where
  "setsFilters c \<longleftrightarrow> fb_PreLLM (s_Filters c) \<noteq> None \<or> fb_PreTool (s_Filters c) \<noteq> None \<or>
     fb_PostTool (s_Filters c) \<noteq> None"

text \<open>\<open>upd b f st\<close> is the body of a Go \<^verbatim>\<open>if b { ... }\<close> that assigns to the two targets.\<close>

definition upd :: "bool \<Rightarrow> (AgentSpec \<Rightarrow> AgentSpec) \<Rightarrow> (provenanceFields \<Rightarrow> provenanceFields)
    \<Rightarrow> mstate \<Rightarrow> mstate" where
  "upd b f g st = (if b then (f (fst st), g (snd st)) else st)"

definition mergeOne :: "AgentSpec \<Rightarrow> Provenance \<Rightarrow> mstate \<Rightarrow> mstate" where
  "mergeOne child p st = (
     let st = upd (s_APIVersion child \<noteq> [])
                (\<lambda>m. m\<lparr>s_APIVersion := s_APIVersion child\<rparr>) (\<lambda>f. f\<lparr>pf_APIVersion := p\<rparr>) st;
         st = upd (s_Kind child \<noteq> [])
                (\<lambda>m. m\<lparr>s_Kind := s_Kind child\<rparr>) (\<lambda>f. f\<lparr>pf_Kind := p\<rparr>) st;
         st = upd (\<not> isZeroMetadata (s_Metadata child))
                (\<lambda>m. m\<lparr>s_Metadata := mergeMetadata (s_Metadata m) (s_Metadata child)\<rparr>)
                (\<lambda>f. f\<lparr>pf_Metadata := p\<rparr>) st;
         st = upd (cr_Ref (s_Provider child) \<noteq> [])
                (\<lambda>m. m\<lparr>s_Provider := s_Provider child\<rparr>) (\<lambda>f. f\<lparr>pf_Provider := p\<rparr>) st;
         st = upd (setsPrompt child)
                (\<lambda>m. m\<lparr>s_Prompt := s_Prompt child\<rparr>) (\<lambda>f. f\<lparr>pf_Prompt := p\<rparr>) st;
         st = upd (s_Tools child \<noteq> None)
                (\<lambda>m. m\<lparr>s_Tools := s_Tools child\<rparr>) (\<lambda>f. f\<lparr>pf_Tools := p\<rparr>) st;
         st = upd (s_Policies child \<noteq> None)
                (\<lambda>m. m\<lparr>s_Policies := s_Policies child\<rparr>) (\<lambda>f. f\<lparr>pf_Policies := p\<rparr>) st;
         st = upd (setsFilters child)
                (\<lambda>m. m\<lparr>s_Filters := s_Filters child\<rparr>) (\<lambda>f. f\<lparr>pf_Filters := p\<rparr>) st;
         st = upd (s_Budget child \<noteq> None)
                (\<lambda>m. m\<lparr>s_Budget := s_Budget child\<rparr>) (\<lambda>f. f\<lparr>pf_Budget := p\<rparr>) st;
         st = upd (s_Telemetry child \<noteq> None)
                (\<lambda>m. m\<lparr>s_Telemetry := s_Telemetry child\<rparr>) (\<lambda>f. f\<lparr>pf_Telemetry := p\<rparr>) st;
         st = upd (s_Credentials child \<noteq> None)
                (\<lambda>m. m\<lparr>s_Credentials := s_Credentials child\<rparr>) (\<lambda>f. f\<lparr>pf_Credentials := p\<rparr>) st;
         st = upd (s_Identity child \<noteq> None)
                (\<lambda>m. m\<lparr>s_Identity := s_Identity child\<rparr>) (\<lambda>f. f\<lparr>pf_Identity := p\<rparr>) st;
         st = upd (s_Skills child \<noteq> None)
                (\<lambda>m. m\<lparr>s_Skills := s_Skills child\<rparr>) (\<lambda>f. f\<lparr>pf_Skills := p\<rparr>) st;
         st = upd (s_OutputContract child \<noteq> None)
                (\<lambda>m. m\<lparr>s_OutputContract := s_OutputContract child\<rparr>)
                (\<lambda>f. f\<lparr>pf_OutputContract := p\<rparr>) st;
         st = upd (s_MCPImports child \<noteq> None)
                (\<lambda>m. m\<lparr>s_MCPImports := s_MCPImports child\<rparr>) (\<lambda>f. f\<lparr>pf_MCPImports := p\<rparr>) st
     in st)"

definition baseProvenance :: provenanceFields where
  "baseProvenance = \<lparr>pf_APIVersion = baseProv, pf_Kind = baseProv, pf_Metadata = baseProv,
     pf_Provider = baseProv, pf_Prompt = baseProv, pf_Tools = baseProv, pf_Policies = baseProv,
     pf_Filters = baseProv, pf_Budget = baseProv, pf_Telemetry = baseProv,
     pf_Credentials = baseProv, pf_Identity = baseProv, pf_Skills = baseProv,
     pf_OutputContract = baseProv, pf_MCPImports = baseProv\<rparr>"

definition parentProv :: "nat \<Rightarrow> nat \<Rightarrow> Provenance" where
  "parentProv n i = \<lparr>pv_File = [], pv_Line = 0, pv_Role = RoleParent, pv_Step = int n - int i\<rparr>"

text \<open>The loop \<^verbatim>\<open>for i, parent := range parents\<close> with \<open>n = len(parents)\<close>.\<close>

fun mergeParents :: "nat \<Rightarrow> nat \<Rightarrow> AgentSpec list \<Rightarrow> mstate \<Rightarrow> mstate" where
  "mergeParents n i [] st = st"
| "mergeParents n i (parent # ps) st =
     mergeParents n (Suc i) ps (mergeOne parent (parentProv n i) st)"

definition mergeChain :: "AgentSpec list \<Rightarrow> AgentSpec \<Rightarrow> mstate" where
  "mergeChain parents base =
     (let st = mergeParents (length parents) 0 parents (zeroAgentSpec, baseProvenance);
          st = mergeOne base baseProv st
      in (fst st\<lparr>s_Extends := None\<rparr>, snd st))"

section \<open>applyOverlays and its helpers\<close>

definition applyOverlayMetadata :: "Metadata \<Rightarrow> OverlayMetadata \<Rightarrow> Metadata" where
  "applyOverlayMetadata merged ov = merged\<lparr>
     md_ID := (if om_ID ov \<noteq> [] then om_ID ov else md_ID merged),
     md_Version := (if om_Version ov \<noteq> [] then om_Version ov else md_Version merged),
     md_DisplayName := (if om_DisplayName ov \<noteq> [] then om_DisplayName ov else md_DisplayName merged),
     md_Description := (if om_Description ov \<noteq> [] then om_Description ov else md_Description merged),
     md_Owners := (if om_Owners ov \<noteq> None then om_Owners ov else md_Owners merged),
     md_Labels := (if om_Labels ov \<noteq> None then om_Labels ov else md_Labels merged)\<rparr>"

definition applyOverlayFilters :: "FilterOverlay \<Rightarrow> Provenance \<Rightarrow> mstate \<Rightarrow> mstate" where
  "applyOverlayFilters ov p st =
     (let f = s_Filters (fst st);
          modified = (rl_Set (fo_PreLLM ov) \<or> rl_Set (fo_PreTool ov) \<or> rl_Set (fo_PostTool ov));
          f = (if rl_Set (fo_PreLLM ov) then f\<lparr>fb_PreLLM := rl_Items (fo_PreLLM ov)\<rparr> else f);
          f = (if rl_Set (fo_PreTool ov) then f\<lparr>fb_PreTool := rl_Items (fo_PreTool ov)\<rparr> else f);
          f = (if rl_Set (fo_PostTool ov) then f\<lparr>fb_PostTool := rl_Items (fo_PostTool ov)\<rparr> else f)
      in (fst st\<lparr>s_Filters := f\<rparr>, if modified then snd st\<lparr>pf_Filters := p\<rparr> else snd st))"

definition applyOne :: "AgentOverlayBody \<Rightarrow> Provenance \<Rightarrow> mstate \<Rightarrow> mstate" where
  "applyOne body p st = (
     let st = (case ob_Metadata body of None \<Rightarrow> st | Some om \<Rightarrow>
                upd True (\<lambda>m. m\<lparr>s_Metadata := applyOverlayMetadata (s_Metadata m) om\<rparr>)
                  (\<lambda>f. f\<lparr>pf_Metadata := p\<rparr>) st);
         st = (case ob_Provider body of None \<Rightarrow> st | Some r \<Rightarrow>
                upd True (\<lambda>m. m\<lparr>s_Provider := r\<rparr>) (\<lambda>f. f\<lparr>pf_Provider := p\<rparr>) st);
         st = (case ob_Prompt body of None \<Rightarrow> st | Some pb \<Rightarrow>
                upd True (\<lambda>m. m\<lparr>s_Prompt := pb\<rparr>) (\<lambda>f. f\<lparr>pf_Prompt := p\<rparr>) st);
         st = upd (rl_Set (ob_Tools body))
                (\<lambda>m. m\<lparr>s_Tools := rl_Items (ob_Tools body)\<rparr>)
                (\<lambda>f. f\<lparr>pf_Tools := p\<lparr>pv_Line := rl_Line (ob_Tools body)\<rparr>\<rparr>) st;
         st = upd (rl_Set (ob_Policies body))
                (\<lambda>m. m\<lparr>s_Policies := rl_Items (ob_Policies body)\<rparr>)
                (\<lambda>f. f\<lparr>pf_Policies := p\<lparr>pv_Line := rl_Line (ob_Policies body)\<rparr>\<rparr>) st;
         st = (case ob_Filters body of None \<Rightarrow> st | Some fo \<Rightarrow> applyOverlayFilters fo p st);
         st = upd (ob_Budget body \<noteq> None)
                (\<lambda>m. m\<lparr>s_Budget := ob_Budget body\<rparr>) (\<lambda>f. f\<lparr>pf_Budget := p\<rparr>) st;
         st = upd (ob_Telemetry body \<noteq> None)
                (\<lambda>m. m\<lparr>s_Telemetry := ob_Telemetry body\<rparr>) (\<lambda>f. f\<lparr>pf_Telemetry := p\<rparr>) st;
         st = upd (ob_Credentials body \<noteq> None)
                (\<lambda>m. m\<lparr>s_Credentials := ob_Credentials body\<rparr>) (\<lambda>f. f\<lparr>pf_Credentials := p\<rparr>) st;
         st = upd (ob_Identity body \<noteq> None)
                (\<lambda>m. m\<lparr>s_Identity := ob_Identity body\<rparr>) (\<lambda>f. f\<lparr>pf_Identity := p\<rparr>) st
     in st)"

definition MaxOverlayCount :: nat where
  "MaxOverlayCount = 16"

definition overlayProv :: "nat \<Rightarrow> AgentOverlay \<Rightarrow> Provenance" where
  "overlayProv i ov = \<lparr>pv_File = ov_File ov, pv_Line = 0, pv_Role = RoleOverlay, pv_Step = int i\<rparr>"

text \<open>The overlay loop; a nil overlay is skipped but keeps its index.\<close>

fun applyLoop :: "nat \<Rightarrow> AgentOverlay option list \<Rightarrow> mstate \<Rightarrow> mstate" where
  "applyLoop i [] st = st"
| "applyLoop i (None # ovs) st = applyLoop (Suc i) ovs st"
| "applyLoop i (Some ov # ovs) st =
     applyLoop (Suc i) ovs (applyOne (ov_Spec ov) (overlayProv i ov) st)"

definition applyOverlays :: "AgentOverlay option list \<Rightarrow> mstate \<Rightarrow> mstate result" where
  "applyOverlays overlays st =
     (if length overlays > MaxOverlayCount
      then Err (Errorf ''applyOverlays: %d overlays exceed %d: %w''
             [AInt (int (length overlays)), AInt (int MaxOverlayCount),
              AWrap (Sentinel ErrCompositionLimit)])
      else Ok (applyLoop 0 overlays st))"

section \<open>Layers\<close>

text \<open>
  Both passes run one step per layer. \<open>lastSet\<close> is the last layer that sets a field,
  with the provenance it was merged under.
\<close>

fun runLayers :: "('l \<Rightarrow> Provenance \<Rightarrow> mstate \<Rightarrow> mstate) \<Rightarrow> ('l \<times> Provenance) list \<Rightarrow> mstate \<Rightarrow> mstate" where
  "runLayers step [] st = st"
| "runLayers step ((l, p) # ls) st = runLayers step ls (step l p st)"

fun lastSet :: "('l \<Rightarrow> bool) \<Rightarrow> ('l \<times> Provenance) list \<Rightarrow> ('l \<times> Provenance) option" where
  "lastSet isset [] = None"
| "lastSet isset ((l, p) # ls) =
     (case lastSet isset ls of Some w \<Rightarrow> Some w | None \<Rightarrow> if isset l then Some (l, p) else None)"

definition pickVal :: "('l \<Rightarrow> bool) \<Rightarrow> ('l \<Rightarrow> 'a) \<Rightarrow> 'a \<Rightarrow> ('l \<times> Provenance) list \<Rightarrow> 'a" where
  "pickVal isset val d ls = (case lastSet isset ls of None \<Rightarrow> d | Some (l, _) \<Rightarrow> val l)"

definition pickProv :: "('l \<Rightarrow> bool) \<Rightarrow> ('l \<Rightarrow> Provenance \<Rightarrow> Provenance) \<Rightarrow> Provenance \<Rightarrow>
    ('l \<times> Provenance) list \<Rightarrow> Provenance" where
  "pickProv isset adj d ls = (case lastSet isset ls of None \<Rightarrow> d | Some (l, p) \<Rightarrow> adj l p)"

lemma lastSet_mem: "lastSet isset ls = Some (l, p) \<Longrightarrow> (l, p) \<in> set ls \<and> isset l"
  by (induction isset ls rule: lastSet.induct) (auto split: option.splits if_splits)

lemma lastSet_append:
  "lastSet isset (ls @ ms) =
     (case lastSet isset ms of Some w \<Rightarrow> Some w | None \<Rightarrow> lastSet isset ls)"
  by (induction isset ls rule: lastSet.induct) (auto split: option.splits)

lemma lastSet_snoc: "isset l \<Longrightarrow> lastSet isset (ls @ [(l, p)]) = Some (l, p)"
  by (simp add: lastSet_append)

locale layered_field =
  fixes step :: "'l \<Rightarrow> Provenance \<Rightarrow> mstate \<Rightarrow> mstate"
    and isset :: "'l \<Rightarrow> bool"
    and val :: "'l \<Rightarrow> 'a"
    and get :: "AgentSpec \<Rightarrow> 'a"
  assumes step_get: "get (fst (step l p st)) = (if isset l then val l else get (fst st))"
begin

lemma run_get: "get (fst (runLayers step ls st)) = pickVal isset val (get (fst st)) ls"
proof (induction ls arbitrary: st)
  case (Cons x ls)
  obtain l p where "x = (l, p)" by (cases x)
  then show ?case
    by (cases "lastSet isset ls") (simp_all add: Cons pickVal_def step_get split: prod.split)
qed (simp add: pickVal_def)

lemma run_unset:
  assumes "\<And>l p. (l, p) \<in> set ls \<Longrightarrow> \<not> isset l"
  shows "get (fst (runLayers step ls st)) = get (fst st)"
proof -
  have "lastSet isset ls = None"
  proof (cases "lastSet isset ls")
    case (Some w)
    obtain l p where "w = (l, p)" by (cases w)
    with Some lastSet_mem[of isset ls l p] assms[of l p] show ?thesis by simp
  qed
  then show ?thesis by (simp add: run_get pickVal_def)
qed

end

locale tracked =
  fixes step :: "'l \<Rightarrow> Provenance \<Rightarrow> mstate \<Rightarrow> mstate"
    and isset :: "'l \<Rightarrow> bool"
    and gprov :: "provenanceFields \<Rightarrow> Provenance"
    and adj :: "'l \<Rightarrow> Provenance \<Rightarrow> Provenance"
  assumes step_prov: "gprov (snd (step l p st)) = (if isset l then adj l p else gprov (snd st))"
begin

lemma run_prov: "gprov (snd (runLayers step ls st)) = pickProv isset adj (gprov (snd st)) ls"
proof (induction ls arbitrary: st)
  case (Cons x ls)
  obtain l p where "x = (l, p)" by (cases x)
  then show ?case
    by (cases "lastSet isset ls") (simp_all add: Cons pickProv_def step_prov split: prod.split)
qed (simp add: pickProv_def)

end

text \<open>A tracked field: the value and its provenance are decided by the same test.\<close>

locale tracked_field = layered_field step isset val get + tracked step isset gprov adj
  for step :: "'l \<Rightarrow> Provenance \<Rightarrow> mstate \<Rightarrow> mstate"
    and isset :: "'l \<Rightarrow> bool" and val :: "'l \<Rightarrow> 'a" and get :: "AgentSpec \<Rightarrow> 'a"
    and gprov :: "provenanceFields \<Rightarrow> Provenance" and adj :: "'l \<Rightarrow> Provenance \<Rightarrow> Provenance"

section \<open>Field updates commute with the other fields\<close>

lemma upd_hit: "get (fst (upd b f g st)) = (if b then get (f (fst st)) else get (fst st))"
  by (simp add: upd_def)

lemma upd_frame: "(\<And>m. get (f m) = get m) \<Longrightarrow> get (fst (upd b f g st)) = get (fst st)"
  by (simp add: upd_def)

lemma upd_prov_hit: "get (snd (upd b f g st)) = (if b then get (g (snd st)) else get (snd st))"
  by (simp add: upd_def)

lemma upd_prov_frame: "(\<And>m. get (g m) = get m) \<Longrightarrow> get (snd (upd b f g st)) = get (snd st)"
  by (simp add: upd_def)

lemma upd_hits:
  "s_APIVersion (fst (upd b (s_APIVersion_update (\<lambda>_. v_APIVersion)) g st)) = (if b then v_APIVersion else s_APIVersion (fst st))"
  "s_Kind (fst (upd b (s_Kind_update (\<lambda>_. v_Kind)) g st)) = (if b then v_Kind else s_Kind (fst st))"
  "s_Provider (fst (upd b (s_Provider_update (\<lambda>_. v_Provider)) g st)) = (if b then v_Provider else s_Provider (fst st))"
  "s_Prompt (fst (upd b (s_Prompt_update (\<lambda>_. v_Prompt)) g st)) = (if b then v_Prompt else s_Prompt (fst st))"
  "s_Tools (fst (upd b (s_Tools_update (\<lambda>_. v_Tools)) g st)) = (if b then v_Tools else s_Tools (fst st))"
  "s_Policies (fst (upd b (s_Policies_update (\<lambda>_. v_Policies)) g st)) = (if b then v_Policies else s_Policies (fst st))"
  "s_Filters (fst (upd b (s_Filters_update (\<lambda>_. v_Filters)) g st)) = (if b then v_Filters else s_Filters (fst st))"
  "s_Budget (fst (upd b (s_Budget_update (\<lambda>_. v_Budget)) g st)) = (if b then v_Budget else s_Budget (fst st))"
  "s_Telemetry (fst (upd b (s_Telemetry_update (\<lambda>_. v_Telemetry)) g st)) = (if b then v_Telemetry else s_Telemetry (fst st))"
  "s_Credentials (fst (upd b (s_Credentials_update (\<lambda>_. v_Credentials)) g st)) = (if b then v_Credentials else s_Credentials (fst st))"
  "s_Identity (fst (upd b (s_Identity_update (\<lambda>_. v_Identity)) g st)) = (if b then v_Identity else s_Identity (fst st))"
  "s_Skills (fst (upd b (s_Skills_update (\<lambda>_. v_Skills)) g st)) = (if b then v_Skills else s_Skills (fst st))"
  "s_OutputContract (fst (upd b (s_OutputContract_update (\<lambda>_. v_OutputContract)) g st)) = (if b then v_OutputContract else s_OutputContract (fst st))"
  "s_MCPImports (fst (upd b (s_MCPImports_update (\<lambda>_. v_MCPImports)) g st)) = (if b then v_MCPImports else s_MCPImports (fst st))"
  by (simp_all add: upd_def)

lemma upd_prov_hits:
  "pf_Metadata (snd (upd b g (pf_Metadata_update (\<lambda>_. p)) st)) = (if b then p else pf_Metadata (snd st))"
  "pf_APIVersion (snd (upd b g (pf_APIVersion_update (\<lambda>_. p)) st)) = (if b then p else pf_APIVersion (snd st))"
  "pf_Kind (snd (upd b g (pf_Kind_update (\<lambda>_. p)) st)) = (if b then p else pf_Kind (snd st))"
  "pf_Provider (snd (upd b g (pf_Provider_update (\<lambda>_. p)) st)) = (if b then p else pf_Provider (snd st))"
  "pf_Prompt (snd (upd b g (pf_Prompt_update (\<lambda>_. p)) st)) = (if b then p else pf_Prompt (snd st))"
  "pf_Tools (snd (upd b g (pf_Tools_update (\<lambda>_. p)) st)) = (if b then p else pf_Tools (snd st))"
  "pf_Policies (snd (upd b g (pf_Policies_update (\<lambda>_. p)) st)) = (if b then p else pf_Policies (snd st))"
  "pf_Filters (snd (upd b g (pf_Filters_update (\<lambda>_. p)) st)) = (if b then p else pf_Filters (snd st))"
  "pf_Budget (snd (upd b g (pf_Budget_update (\<lambda>_. p)) st)) = (if b then p else pf_Budget (snd st))"
  "pf_Telemetry (snd (upd b g (pf_Telemetry_update (\<lambda>_. p)) st)) = (if b then p else pf_Telemetry (snd st))"
  "pf_Credentials (snd (upd b g (pf_Credentials_update (\<lambda>_. p)) st)) = (if b then p else pf_Credentials (snd st))"
  "pf_Identity (snd (upd b g (pf_Identity_update (\<lambda>_. p)) st)) = (if b then p else pf_Identity (snd st))"
  "pf_Skills (snd (upd b g (pf_Skills_update (\<lambda>_. p)) st)) = (if b then p else pf_Skills (snd st))"
  "pf_OutputContract (snd (upd b g (pf_OutputContract_update (\<lambda>_. p)) st)) = (if b then p else pf_OutputContract (snd st))"
  "pf_MCPImports (snd (upd b g (pf_MCPImports_update (\<lambda>_. p)) st)) = (if b then p else pf_MCPImports (snd st))"
  by (simp_all add: upd_def)

interpretation mergeAPIVersion: tracked_field mergeOne "\<lambda>c. s_APIVersion c \<noteq> []" s_APIVersion s_APIVersion pf_APIVersion "\<lambda>_ p. p"
  by unfold_locales
    (simp_all add: mergeOne_def Let_def upd_hits upd_prov_hits
      upd_frame[where get = s_APIVersion] upd_prov_frame[where get = pf_APIVersion])

interpretation mergeKind: tracked_field mergeOne "\<lambda>c. s_Kind c \<noteq> []" s_Kind s_Kind pf_Kind "\<lambda>_ p. p"
  by unfold_locales
    (simp_all add: mergeOne_def Let_def upd_hits upd_prov_hits
      upd_frame[where get = s_Kind] upd_prov_frame[where get = pf_Kind])

interpretation mergeProvider: tracked_field mergeOne "\<lambda>c. cr_Ref (s_Provider c) \<noteq> []" s_Provider s_Provider pf_Provider "\<lambda>_ p. p"
  by unfold_locales
    (simp_all add: mergeOne_def Let_def upd_hits upd_prov_hits
      upd_frame[where get = s_Provider] upd_prov_frame[where get = pf_Provider])

interpretation mergePrompt: tracked_field mergeOne "setsPrompt" s_Prompt s_Prompt pf_Prompt "\<lambda>_ p. p"
  by unfold_locales
    (simp_all add: mergeOne_def Let_def upd_hits upd_prov_hits
      upd_frame[where get = s_Prompt] upd_prov_frame[where get = pf_Prompt])

interpretation mergeTools: tracked_field mergeOne "\<lambda>c. s_Tools c \<noteq> None" s_Tools s_Tools pf_Tools "\<lambda>_ p. p"
  by unfold_locales
    (simp_all add: mergeOne_def Let_def upd_hits upd_prov_hits
      upd_frame[where get = s_Tools] upd_prov_frame[where get = pf_Tools])

interpretation mergePolicies: tracked_field mergeOne "\<lambda>c. s_Policies c \<noteq> None" s_Policies s_Policies pf_Policies "\<lambda>_ p. p"
  by unfold_locales
    (simp_all add: mergeOne_def Let_def upd_hits upd_prov_hits
      upd_frame[where get = s_Policies] upd_prov_frame[where get = pf_Policies])

interpretation mergeFilters: tracked_field mergeOne "setsFilters" s_Filters s_Filters pf_Filters "\<lambda>_ p. p"
  by unfold_locales
    (simp_all add: mergeOne_def Let_def upd_hits upd_prov_hits
      upd_frame[where get = s_Filters] upd_prov_frame[where get = pf_Filters])

interpretation mergeBudget: tracked_field mergeOne "\<lambda>c. s_Budget c \<noteq> None" s_Budget s_Budget pf_Budget "\<lambda>_ p. p"
  by unfold_locales
    (simp_all add: mergeOne_def Let_def upd_hits upd_prov_hits
      upd_frame[where get = s_Budget] upd_prov_frame[where get = pf_Budget])

interpretation mergeTelemetry: tracked_field mergeOne "\<lambda>c. s_Telemetry c \<noteq> None" s_Telemetry s_Telemetry pf_Telemetry "\<lambda>_ p. p"
  by unfold_locales
    (simp_all add: mergeOne_def Let_def upd_hits upd_prov_hits
      upd_frame[where get = s_Telemetry] upd_prov_frame[where get = pf_Telemetry])

interpretation mergeCredentials: tracked_field mergeOne "\<lambda>c. s_Credentials c \<noteq> None" s_Credentials s_Credentials pf_Credentials "\<lambda>_ p. p"
  by unfold_locales
    (simp_all add: mergeOne_def Let_def upd_hits upd_prov_hits
      upd_frame[where get = s_Credentials] upd_prov_frame[where get = pf_Credentials])

interpretation mergeIdentity: tracked_field mergeOne "\<lambda>c. s_Identity c \<noteq> None" s_Identity s_Identity pf_Identity "\<lambda>_ p. p"
  by unfold_locales
    (simp_all add: mergeOne_def Let_def upd_hits upd_prov_hits
      upd_frame[where get = s_Identity] upd_prov_frame[where get = pf_Identity])

interpretation mergeSkills: tracked_field mergeOne "\<lambda>c. s_Skills c \<noteq> None" s_Skills s_Skills pf_Skills "\<lambda>_ p. p"
  by unfold_locales
    (simp_all add: mergeOne_def Let_def upd_hits upd_prov_hits
      upd_frame[where get = s_Skills] upd_prov_frame[where get = pf_Skills])

interpretation mergeOutputContract: tracked_field mergeOne "\<lambda>c. s_OutputContract c \<noteq> None" s_OutputContract s_OutputContract pf_OutputContract "\<lambda>_ p. p"
  by unfold_locales
    (simp_all add: mergeOne_def Let_def upd_hits upd_prov_hits
      upd_frame[where get = s_OutputContract] upd_prov_frame[where get = pf_OutputContract])

interpretation mergeMCPImports: tracked_field mergeOne "\<lambda>c. s_MCPImports c \<noteq> None" s_MCPImports s_MCPImports pf_MCPImports "\<lambda>_ p. p"
  by unfold_locales
    (simp_all add: mergeOne_def Let_def upd_hits upd_prov_hits
      upd_frame[where get = s_MCPImports] upd_prov_frame[where get = pf_MCPImports])


text \<open>
  Metadata is merged field by field, so its sub-fields are layered one by one while the
  provenance of the block moves whenever the child's metadata is not zero.
\<close>

lemma upd_Metadata_hit:
  "s_Metadata (fst (upd b (\<lambda>m. m\<lparr>s_Metadata := F m\<rparr>) g st)) =
     (if b then F (fst st) else s_Metadata (fst st))"
  by (simp add: upd_def)

lemma mergeOne_Metadata:
  "s_Metadata (fst (mergeOne c p st)) =
     (if isZeroMetadata (s_Metadata c) then s_Metadata (fst st)
      else mergeMetadata (s_Metadata (fst st)) (s_Metadata c))"
  "pf_Metadata (snd (mergeOne c p st)) =
     (if isZeroMetadata (s_Metadata c) then pf_Metadata (snd st) else p)"
  by (simp_all add: mergeOne_def Let_def upd_Metadata_hit upd_prov_hits
      upd_frame[where get = s_Metadata] upd_prov_frame[where get = pf_Metadata])

lemma zeroMetadata_fields:
  "isZeroMetadata m \<Longrightarrow> md_ID m = [] \<and> md_Version m = [] \<and> md_DisplayName m = [] \<and> md_Description m = []"
  by (simp add: isZeroMetadata_def)

interpretation mergeID: layered_field mergeOne "\<lambda>c. md_ID (s_Metadata c) \<noteq> []"
  "\<lambda>c. md_ID (s_Metadata c)" "\<lambda>m. md_ID (s_Metadata m)"
  by unfold_locales (auto simp: mergeOne_Metadata mergeMetadata_def scalarString_def dest: zeroMetadata_fields)

interpretation mergeVersion: layered_field mergeOne "\<lambda>c. md_Version (s_Metadata c) \<noteq> []"
  "\<lambda>c. md_Version (s_Metadata c)" "\<lambda>m. md_Version (s_Metadata m)"
  by unfold_locales (auto simp: mergeOne_Metadata mergeMetadata_def scalarString_def dest: zeroMetadata_fields)

interpretation mergeDisplayName: layered_field mergeOne "\<lambda>c. md_DisplayName (s_Metadata c) \<noteq> []"
  "\<lambda>c. md_DisplayName (s_Metadata c)" "\<lambda>m. md_DisplayName (s_Metadata m)"
  by unfold_locales (auto simp: mergeOne_Metadata mergeMetadata_def scalarString_def dest: zeroMetadata_fields)

interpretation mergeDescription: layered_field mergeOne "\<lambda>c. md_Description (s_Metadata c) \<noteq> []"
  "\<lambda>c. md_Description (s_Metadata c)" "\<lambda>m. md_Description (s_Metadata m)"
  by unfold_locales (auto simp: mergeOne_Metadata mergeMetadata_def scalarString_def dest: zeroMetadata_fields)

definition setsOwners :: "AgentSpec \<Rightarrow> bool" where
  "setsOwners c \<longleftrightarrow> md_Owners (s_Metadata c) \<noteq> None \<and> \<not> isZeroMetadata (s_Metadata c)"

definition setsLabels :: "AgentSpec \<Rightarrow> bool" where
  "setsLabels c \<longleftrightarrow> md_Labels (s_Metadata c) \<noteq> None \<and> \<not> isZeroMetadata (s_Metadata c)"

interpretation mergeOwners: layered_field mergeOne setsOwners
  "\<lambda>c. md_Owners (s_Metadata c)" "\<lambda>m. md_Owners (s_Metadata m)"
  by unfold_locales (auto simp: mergeOne_Metadata mergeMetadata_def setsOwners_def)

interpretation mergeLabels: layered_field mergeOne setsLabels
  "\<lambda>c. md_Labels (s_Metadata c)" "\<lambda>m. md_Labels (s_Metadata m)"
  by unfold_locales
    (auto simp: mergeOne_Metadata mergeMetadata_def setsLabels_def mapStringStringReplace_def)

interpretation mergeMeta: tracked mergeOne "\<lambda>c. \<not> isZeroMetadata (s_Metadata c)" pf_Metadata "\<lambda>_ p. p"
  by unfold_locales (simp add: mergeOne_Metadata)

section \<open>The abstract merge\<close>

text \<open>
  The layers of an extends chain, root first, with the provenance each is merged under;
  and what the merged spec should be: every field is the value of the last layer that
  sets it, or Go's zero value.
\<close>

definition chainLayers :: "AgentSpec list \<Rightarrow> AgentSpec \<Rightarrow> (AgentSpec \<times> Provenance) list" where
  "chainLayers parents base =
     zip parents (map (parentProv (length parents)) [0..<length parents]) @ [(base, baseProv)]"

definition layeredMetadata :: "(AgentSpec \<times> Provenance) list \<Rightarrow> Metadata" where
  "layeredMetadata ls = \<lparr>md_ID = pickVal (\<lambda>c. md_ID (s_Metadata c) \<noteq> []) (\<lambda>c. md_ID (s_Metadata c)) [] ls,
     md_Version = pickVal (\<lambda>c. md_Version (s_Metadata c) \<noteq> []) (\<lambda>c. md_Version (s_Metadata c)) [] ls,
     md_DisplayName = pickVal (\<lambda>c. md_DisplayName (s_Metadata c) \<noteq> []) (\<lambda>c. md_DisplayName (s_Metadata c)) [] ls,
     md_Description = pickVal (\<lambda>c. md_Description (s_Metadata c) \<noteq> []) (\<lambda>c. md_Description (s_Metadata c)) [] ls,
     md_Owners = pickVal setsOwners (\<lambda>c. md_Owners (s_Metadata c)) None ls,
     md_Labels = pickVal setsLabels (\<lambda>c. md_Labels (s_Metadata c)) None ls\<rparr>"

definition layeredSpec :: "(AgentSpec \<times> Provenance) list \<Rightarrow> AgentSpec" where
  "layeredSpec ls = \<lparr>s_APIVersion = pickVal (\<lambda>c. s_APIVersion c \<noteq> []) s_APIVersion [] ls,
     s_Kind = pickVal (\<lambda>c. s_Kind c \<noteq> []) s_Kind [] ls,
     s_Metadata = layeredMetadata ls,
     s_Provider = pickVal (\<lambda>c. cr_Ref (s_Provider c) \<noteq> []) s_Provider (s_Provider zeroAgentSpec) ls,
     s_Prompt = pickVal setsPrompt s_Prompt (s_Prompt zeroAgentSpec) ls,
     s_Tools = pickVal (\<lambda>c. s_Tools c \<noteq> None) s_Tools None ls,
     s_Policies = pickVal (\<lambda>c. s_Policies c \<noteq> None) s_Policies None ls,
     s_Filters = pickVal setsFilters s_Filters (s_Filters zeroAgentSpec) ls,
     s_Budget = pickVal (\<lambda>c. s_Budget c \<noteq> None) s_Budget None ls,
     s_Telemetry = pickVal (\<lambda>c. s_Telemetry c \<noteq> None) s_Telemetry None ls,
     s_Credentials = pickVal (\<lambda>c. s_Credentials c \<noteq> None) s_Credentials None ls,
     s_Identity = pickVal (\<lambda>c. s_Identity c \<noteq> None) s_Identity None ls,
     s_Extends = None,
     s_Skills = pickVal (\<lambda>c. s_Skills c \<noteq> None) s_Skills None ls,
     s_MCPImports = pickVal (\<lambda>c. s_MCPImports c \<noteq> None) s_MCPImports None ls,
     s_OutputContract = pickVal (\<lambda>c. s_OutputContract c \<noteq> None) s_OutputContract None ls\<rparr>"

definition layeredProv :: "(AgentSpec \<times> Provenance) list \<Rightarrow> provenanceFields" where
  "layeredProv ls = \<lparr>pf_APIVersion = pickProv (\<lambda>c. s_APIVersion c \<noteq> []) (\<lambda>_ p. p) baseProv ls,
     pf_Kind = pickProv (\<lambda>c. s_Kind c \<noteq> []) (\<lambda>_ p. p) baseProv ls,
     pf_Metadata = pickProv (\<lambda>c. \<not> isZeroMetadata (s_Metadata c)) (\<lambda>_ p. p) baseProv ls,
     pf_Provider = pickProv (\<lambda>c. cr_Ref (s_Provider c) \<noteq> []) (\<lambda>_ p. p) baseProv ls,
     pf_Prompt = pickProv setsPrompt (\<lambda>_ p. p) baseProv ls,
     pf_Tools = pickProv (\<lambda>c. s_Tools c \<noteq> None) (\<lambda>_ p. p) baseProv ls,
     pf_Policies = pickProv (\<lambda>c. s_Policies c \<noteq> None) (\<lambda>_ p. p) baseProv ls,
     pf_Filters = pickProv setsFilters (\<lambda>_ p. p) baseProv ls,
     pf_Budget = pickProv (\<lambda>c. s_Budget c \<noteq> None) (\<lambda>_ p. p) baseProv ls,
     pf_Telemetry = pickProv (\<lambda>c. s_Telemetry c \<noteq> None) (\<lambda>_ p. p) baseProv ls,
     pf_Credentials = pickProv (\<lambda>c. s_Credentials c \<noteq> None) (\<lambda>_ p. p) baseProv ls,
     pf_Identity = pickProv (\<lambda>c. s_Identity c \<noteq> None) (\<lambda>_ p. p) baseProv ls,
     pf_Skills = pickProv (\<lambda>c. s_Skills c \<noteq> None) (\<lambda>_ p. p) baseProv ls,
     pf_OutputContract = pickProv (\<lambda>c. s_OutputContract c \<noteq> None) (\<lambda>_ p. p) baseProv ls,
     pf_MCPImports = pickProv (\<lambda>c. s_MCPImports c \<noteq> None) (\<lambda>_ p. p) baseProv ls\<rparr>"

lemma mergeParents_run:
  "mergeParents n i ps st = runLayers mergeOne (zip ps (map (parentProv n) [i..<i + length ps])) st"
proof (induction ps arbitrary: i st)
  case (Cons a ps)
  have "[i..<i + length (a # ps)] = i # [Suc i..<Suc i + length ps]"
    by (simp add: upt_rec)
  with Cons show ?case by simp
qed simp

lemma runLayers_append: "runLayers step (ls @ ms) st = runLayers step ms (runLayers step ls st)"
proof (induction ls arbitrary: st)
  case (Cons x ls)
  then show ?case by (cases x) simp
qed simp

lemma mergeChain_run:
  "mergeChain parents base =
     (let st = runLayers mergeOne (chainLayers parents base) (zeroAgentSpec, baseProvenance)
      in (fst st\<lparr>s_Extends := None\<rparr>, snd st))"
  by (simp add: mergeChain_def mergeParents_run chainLayers_def runLayers_append)

lemmas merge_run_gets =
  mergeID.run_get
  mergeVersion.run_get
  mergeDisplayName.run_get
  mergeDescription.run_get
  mergeOwners.run_get
  mergeLabels.run_get
  mergeAPIVersion.run_get
  mergeKind.run_get
  mergeProvider.run_get
  mergePrompt.run_get
  mergeTools.run_get
  mergePolicies.run_get
  mergeFilters.run_get
  mergeBudget.run_get
  mergeTelemetry.run_get
  mergeCredentials.run_get
  mergeIdentity.run_get
  mergeSkills.run_get
  mergeOutputContract.run_get
  mergeMCPImports.run_get

lemmas merge_run_provs =
  mergeAPIVersion.run_prov
  mergeKind.run_prov
  mergeMeta.run_prov
  mergeProvider.run_prov
  mergePrompt.run_prov
  mergeTools.run_prov
  mergePolicies.run_prov
  mergeFilters.run_prov
  mergeBudget.run_prov
  mergeTelemetry.run_prov
  mergeCredentials.run_prov
  mergeIdentity.run_prov
  mergeSkills.run_prov
  mergeOutputContract.run_prov
  mergeMCPImports.run_prov

lemma layered_metadata_run:
  "s_Metadata (fst (runLayers mergeOne ls (zeroAgentSpec, pf))) = layeredMetadata ls"
  by (rule Metadata.equality)
    (simp_all add: layeredMetadata_def merge_run_gets zeroAgentSpec_def zeroMetadata_def)

lemma layered_spec_run:
  "fst (runLayers mergeOne ls (zeroAgentSpec, pf))\<lparr>s_Extends := None\<rparr> = layeredSpec ls"
  by (rule AgentSpec.equality)
    (simp_all add: layeredSpec_def merge_run_gets layered_metadata_run, simp_all add: zeroAgentSpec_def)

lemma layered_prov_run:
  "snd (runLayers mergeOne ls (sp, baseProvenance)) = layeredProv ls"
  by (rule provenanceFields.equality)
    (simp_all add: layeredProv_def merge_run_provs baseProvenance_def)

lemma mergeChain_layered:
  "mergeChain parents base =
     (layeredSpec (chainLayers parents base), layeredProv (chainLayers parents base))"
  by (simp add: mergeChain_run Let_def layered_spec_run layered_prov_run)

section \<open>Properties\<close>

text \<open>C4. Merging a chain of parents (root first) into a base spec gives, for every field, the
  value of the last layer that sets it (the base over its parents, a nearer parent over a
  farther one, metadata field by field) and records that layer as the field's provenance.\<close>

theorem mergeChain_last_layer_wins:
  "mergeChain parents base =
     (layeredSpec (chainLayers parents base), layeredProv (chainLayers parents base))"
  by (rule mergeChain_layered)

end
