(* ===== verification/SpecOverlays.thy ===== *)
theory SpecOverlays
  imports SpecMerge
begin

text \<open>
  The overlay pass of \<^verbatim>\<open>normalize.go\<close> against its contract: \<^verbatim>\<open>applyOverlays\<close> is a
  run of layers, every block of \<^verbatim>\<open>AgentOverlayBody\<close> interprets the layer locales of
  \<open>SpecMerge\<close>, and the result is the spec in which each block comes from the last
  overlay that sets it and from the merged chain otherwise.
\<close>

section \<open>The abstract overlay pass\<close>

text \<open>
  The overlay layers: nil overlays are dropped, the others keep their index. Overlays
  write only the ten blocks of \<^verbatim>\<open>AgentOverlayBody\<close>; every filter stage is replaced on
  its own.
\<close>

definition overlayStep :: "AgentOverlay \<Rightarrow> Provenance \<Rightarrow> mstate \<Rightarrow> mstate" where
  "overlayStep ov p st = applyOne (ov_Spec ov) p st"

fun overlayLayers :: "nat \<Rightarrow> AgentOverlay option list \<Rightarrow> (AgentOverlay \<times> Provenance) list" where
  "overlayLayers i [] = []"
| "overlayLayers i (None # ovs) = overlayLayers (Suc i) ovs"
| "overlayLayers i (Some ov # ovs) = (ov, overlayProv i ov) # overlayLayers (Suc i) ovs"

lemma applyLoop_run: "applyLoop i ovs st = runLayers overlayStep (overlayLayers i ovs) st"
  by (induction i ovs st rule: applyLoop.induct) (simp_all add: overlayStep_def)

lemma case_upd:
  "(case x of None \<Rightarrow> st | Some r \<Rightarrow> upd True (F r) (G r) st) = upd (x \<noteq> None) (F (the x)) (G (the x)) st"
  by (simp add: upd_def split: option.split)

lemma filters_frame:
  "(\<And>m x. get (m\<lparr>s_Filters := x\<rparr>) = get m) \<Longrightarrow>
    get (fst (case fo of None \<Rightarrow> st | Some ov \<Rightarrow> applyOverlayFilters ov p st)) = get (fst st)"
  by (simp add: applyOverlayFilters_def Let_def split: option.split)

lemma filters_prov_frame:
  "(\<And>m x. get (m\<lparr>pf_Filters := x\<rparr>) = get m) \<Longrightarrow>
    get (snd (case fo of None \<Rightarrow> st | Some ov \<Rightarrow> applyOverlayFilters ov p st)) = get (snd st)"
  by (simp add: applyOverlayFilters_def Let_def split: option.split)

interpretation overAPIVersion: layered_field overlayStep "\<lambda>_. False" "\<lambda>_. undefined" s_APIVersion
  by unfold_locales
    (simp_all add: overlayStep_def applyOne_def Let_def case_upd upd_hits upd_prov_hits
      upd_frame[where get = s_APIVersion] filters_frame[where get = s_APIVersion])

interpretation overKind: layered_field overlayStep "\<lambda>_. False" "\<lambda>_. undefined" s_Kind
  by unfold_locales
    (simp_all add: overlayStep_def applyOne_def Let_def case_upd upd_hits upd_prov_hits
      upd_frame[where get = s_Kind] filters_frame[where get = s_Kind])

interpretation overSkills: layered_field overlayStep "\<lambda>_. False" "\<lambda>_. undefined" s_Skills
  by unfold_locales
    (simp_all add: overlayStep_def applyOne_def Let_def case_upd upd_hits upd_prov_hits
      upd_frame[where get = s_Skills] filters_frame[where get = s_Skills])

interpretation overMCPImports: layered_field overlayStep "\<lambda>_. False" "\<lambda>_. undefined" s_MCPImports
  by unfold_locales
    (simp_all add: overlayStep_def applyOne_def Let_def case_upd upd_hits upd_prov_hits
      upd_frame[where get = s_MCPImports] filters_frame[where get = s_MCPImports])

interpretation overOutputContract: layered_field overlayStep "\<lambda>_. False" "\<lambda>_. undefined" s_OutputContract
  by unfold_locales
    (simp_all add: overlayStep_def applyOne_def Let_def case_upd upd_hits upd_prov_hits
      upd_frame[where get = s_OutputContract] filters_frame[where get = s_OutputContract])

interpretation overExtends: layered_field overlayStep "\<lambda>_. False" "\<lambda>_. undefined" s_Extends
  by unfold_locales
    (simp_all add: overlayStep_def applyOne_def Let_def case_upd upd_hits upd_prov_hits
      upd_frame[where get = s_Extends] filters_frame[where get = s_Extends])

interpretation overProvider: tracked_field overlayStep "\<lambda>ov. ob_Provider (ov_Spec ov) \<noteq> None" "\<lambda>ov. the (ob_Provider (ov_Spec ov))"
  s_Provider pf_Provider "\<lambda>_ p. p"
  by unfold_locales
    (simp_all add: overlayStep_def applyOne_def Let_def case_upd upd_hits upd_prov_hits
      upd_frame[where get = s_Provider] filters_frame[where get = s_Provider]
      upd_prov_frame[where get = pf_Provider] filters_prov_frame[where get = pf_Provider])

interpretation overPrompt: tracked_field overlayStep "\<lambda>ov. ob_Prompt (ov_Spec ov) \<noteq> None" "\<lambda>ov. the (ob_Prompt (ov_Spec ov))"
  s_Prompt pf_Prompt "\<lambda>_ p. p"
  by unfold_locales
    (simp_all add: overlayStep_def applyOne_def Let_def case_upd upd_hits upd_prov_hits
      upd_frame[where get = s_Prompt] filters_frame[where get = s_Prompt]
      upd_prov_frame[where get = pf_Prompt] filters_prov_frame[where get = pf_Prompt])

interpretation overBudget: tracked_field overlayStep "\<lambda>ov. ob_Budget (ov_Spec ov) \<noteq> None" "\<lambda>ov. ob_Budget (ov_Spec ov)"
  s_Budget pf_Budget "\<lambda>_ p. p"
  by unfold_locales
    (simp_all add: overlayStep_def applyOne_def Let_def case_upd upd_hits upd_prov_hits
      upd_frame[where get = s_Budget] filters_frame[where get = s_Budget]
      upd_prov_frame[where get = pf_Budget] filters_prov_frame[where get = pf_Budget])

interpretation overTelemetry: tracked_field overlayStep "\<lambda>ov. ob_Telemetry (ov_Spec ov) \<noteq> None" "\<lambda>ov. ob_Telemetry (ov_Spec ov)"
  s_Telemetry pf_Telemetry "\<lambda>_ p. p"
  by unfold_locales
    (simp_all add: overlayStep_def applyOne_def Let_def case_upd upd_hits upd_prov_hits
      upd_frame[where get = s_Telemetry] filters_frame[where get = s_Telemetry]
      upd_prov_frame[where get = pf_Telemetry] filters_prov_frame[where get = pf_Telemetry])

interpretation overCredentials: tracked_field overlayStep "\<lambda>ov. ob_Credentials (ov_Spec ov) \<noteq> None" "\<lambda>ov. ob_Credentials (ov_Spec ov)"
  s_Credentials pf_Credentials "\<lambda>_ p. p"
  by unfold_locales
    (simp_all add: overlayStep_def applyOne_def Let_def case_upd upd_hits upd_prov_hits
      upd_frame[where get = s_Credentials] filters_frame[where get = s_Credentials]
      upd_prov_frame[where get = pf_Credentials] filters_prov_frame[where get = pf_Credentials])

interpretation overIdentity: tracked_field overlayStep "\<lambda>ov. ob_Identity (ov_Spec ov) \<noteq> None" "\<lambda>ov. ob_Identity (ov_Spec ov)"
  s_Identity pf_Identity "\<lambda>_ p. p"
  by unfold_locales
    (simp_all add: overlayStep_def applyOne_def Let_def case_upd upd_hits upd_prov_hits
      upd_frame[where get = s_Identity] filters_frame[where get = s_Identity]
      upd_prov_frame[where get = pf_Identity] filters_prov_frame[where get = pf_Identity])

interpretation overTools: tracked_field overlayStep "\<lambda>ov. rl_Set (ob_Tools (ov_Spec ov))" "\<lambda>ov. rl_Items (ob_Tools (ov_Spec ov))"
  s_Tools pf_Tools "\<lambda>ov p. p\<lparr>pv_Line := rl_Line (ob_Tools (ov_Spec ov))\<rparr>"
  by unfold_locales
    (simp_all add: overlayStep_def applyOne_def Let_def case_upd upd_hits upd_prov_hits
      upd_frame[where get = s_Tools] filters_frame[where get = s_Tools]
      upd_prov_frame[where get = pf_Tools] filters_prov_frame[where get = pf_Tools])

interpretation overPolicies: tracked_field overlayStep "\<lambda>ov. rl_Set (ob_Policies (ov_Spec ov))" "\<lambda>ov. rl_Items (ob_Policies (ov_Spec ov))"
  s_Policies pf_Policies "\<lambda>ov p. p\<lparr>pv_Line := rl_Line (ob_Policies (ov_Spec ov))\<rparr>"
  by unfold_locales
    (simp_all add: overlayStep_def applyOne_def Let_def case_upd upd_hits upd_prov_hits
      upd_frame[where get = s_Policies] filters_frame[where get = s_Policies]
      upd_prov_frame[where get = pf_Policies] filters_prov_frame[where get = pf_Policies])

lemma overlayStep_Metadata:
  "s_Metadata (fst (overlayStep ov p st)) =
     (case ob_Metadata (ov_Spec ov) of None \<Rightarrow> s_Metadata (fst st)
      | Some om \<Rightarrow> applyOverlayMetadata (s_Metadata (fst st)) om)"
  by (simp add: overlayStep_def applyOne_def Let_def case_upd upd_Metadata_hit
      upd_frame[where get = s_Metadata] filters_frame[where get = s_Metadata] split: option.split)

interpretation overMeta: tracked overlayStep "\<lambda>ov. ob_Metadata (ov_Spec ov) \<noteq> None" pf_Metadata "\<lambda>_ p. p"
  by unfold_locales
    (simp add: overlayStep_def applyOne_def Let_def case_upd upd_prov_hits
      upd_prov_frame[where get = pf_Metadata] filters_prov_frame[where get = pf_Metadata])

definition overlaySets :: "(OverlayMetadata \<Rightarrow> 'a) \<Rightarrow> ('a \<Rightarrow> bool) \<Rightarrow> AgentOverlay \<Rightarrow> bool" where
  "overlaySets sel ok ov = (case ob_Metadata (ov_Spec ov) of None \<Rightarrow> False | Some om \<Rightarrow> ok (sel om))"

definition overlayMetaVal :: "(OverlayMetadata \<Rightarrow> 'a) \<Rightarrow> AgentOverlay \<Rightarrow> 'a" where
  "overlayMetaVal sel ov = sel (the (ob_Metadata (ov_Spec ov)))"

interpretation overID: layered_field overlayStep "overlaySets om_ID (\<lambda>v. v \<noteq> [])"
  "overlayMetaVal om_ID" "\<lambda>m. md_ID (s_Metadata m)"
  by unfold_locales (simp add: overlayStep_Metadata applyOverlayMetadata_def overlaySets_def
      overlayMetaVal_def split: option.split)

interpretation overVersion: layered_field overlayStep "overlaySets om_Version (\<lambda>v. v \<noteq> [])"
  "overlayMetaVal om_Version" "\<lambda>m. md_Version (s_Metadata m)"
  by unfold_locales (simp add: overlayStep_Metadata applyOverlayMetadata_def overlaySets_def
      overlayMetaVal_def split: option.split)

interpretation overDisplayName: layered_field overlayStep "overlaySets om_DisplayName (\<lambda>v. v \<noteq> [])"
  "overlayMetaVal om_DisplayName" "\<lambda>m. md_DisplayName (s_Metadata m)"
  by unfold_locales (simp add: overlayStep_Metadata applyOverlayMetadata_def overlaySets_def
      overlayMetaVal_def split: option.split)

interpretation overDescription: layered_field overlayStep "overlaySets om_Description (\<lambda>v. v \<noteq> [])"
  "overlayMetaVal om_Description" "\<lambda>m. md_Description (s_Metadata m)"
  by unfold_locales (simp add: overlayStep_Metadata applyOverlayMetadata_def overlaySets_def
      overlayMetaVal_def split: option.split)

interpretation overOwners: layered_field overlayStep "overlaySets om_Owners (\<lambda>v. v \<noteq> None)"
  "overlayMetaVal om_Owners" "\<lambda>m. md_Owners (s_Metadata m)"
  by unfold_locales (simp add: overlayStep_Metadata applyOverlayMetadata_def overlaySets_def
      overlayMetaVal_def split: option.split)

interpretation overLabels: layered_field overlayStep "overlaySets om_Labels (\<lambda>v. v \<noteq> None)"
  "overlayMetaVal om_Labels" "\<lambda>m. md_Labels (s_Metadata m)"
  by unfold_locales (simp add: overlayStep_Metadata applyOverlayMetadata_def overlaySets_def
      overlayMetaVal_def split: option.split)

definition stageSets :: "(FilterOverlay \<Rightarrow> RefList) \<Rightarrow> AgentOverlay \<Rightarrow> bool" where
  "stageSets sel ov = (case ob_Filters (ov_Spec ov) of None \<Rightarrow> False | Some fo \<Rightarrow> rl_Set (sel fo))"

definition stageVal :: "(FilterOverlay \<Rightarrow> RefList) \<Rightarrow> AgentOverlay \<Rightarrow> ComponentRef slice" where
  "stageVal sel ov = rl_Items (sel (the (ob_Filters (ov_Spec ov))))"

definition setsAnyStage :: "AgentOverlay \<Rightarrow> bool" where
  "setsAnyStage ov \<longleftrightarrow> stageSets fo_PreLLM ov \<or> stageSets fo_PreTool ov \<or> stageSets fo_PostTool ov"

lemma overlayStep_Filters:
  "s_Filters (fst (overlayStep ov p st)) =
     (case ob_Filters (ov_Spec ov) of None \<Rightarrow> s_Filters (fst st)
      | Some fo \<Rightarrow> s_Filters (fst (applyOverlayFilters fo p st)))"
  by (simp add: overlayStep_def applyOne_def Let_def case_upd applyOverlayFilters_def
      upd_frame[where get = s_Filters] split: option.split)

lemma overlayStep_Filters_prov:
  "pf_Filters (snd (overlayStep ov p st)) = (if setsAnyStage ov then p else pf_Filters (snd st))"
  by (simp add: overlayStep_def applyOne_def Let_def case_upd applyOverlayFilters_def
      upd_prov_frame[where get = pf_Filters] setsAnyStage_def stageSets_def split: option.split)

interpretation overFilters: tracked overlayStep setsAnyStage pf_Filters "\<lambda>_ p. p"
  by unfold_locales (rule overlayStep_Filters_prov)

interpretation overPreLLM: layered_field overlayStep "stageSets fo_PreLLM" "stageVal fo_PreLLM"
  "\<lambda>m. fb_PreLLM (s_Filters m)"
  by unfold_locales (simp add: overlayStep_Filters applyOverlayFilters_def Let_def stageSets_def
      stageVal_def split: option.split)

interpretation overPreTool: layered_field overlayStep "stageSets fo_PreTool" "stageVal fo_PreTool"
  "\<lambda>m. fb_PreTool (s_Filters m)"
  by unfold_locales (simp add: overlayStep_Filters applyOverlayFilters_def Let_def stageSets_def
      stageVal_def split: option.split)

interpretation overPostTool: layered_field overlayStep "stageSets fo_PostTool" "stageVal fo_PostTool"
  "\<lambda>m. fb_PostTool (s_Filters m)"
  by unfold_locales (simp add: overlayStep_Filters applyOverlayFilters_def Let_def stageSets_def
      stageVal_def split: option.split)


section \<open>What the overlaid spec should be\<close>

definition overlaidMetadata :: "Metadata \<Rightarrow> (AgentOverlay \<times> Provenance) list \<Rightarrow> Metadata" where
  "overlaidMetadata m ls = \<lparr>md_ID = pickVal (overlaySets om_ID (\<lambda>v. v \<noteq> [])) (overlayMetaVal om_ID) (md_ID m) ls,
     md_Version = pickVal (overlaySets om_Version (\<lambda>v. v \<noteq> [])) (overlayMetaVal om_Version) (md_Version m) ls,
     md_DisplayName = pickVal (overlaySets om_DisplayName (\<lambda>v. v \<noteq> [])) (overlayMetaVal om_DisplayName) (md_DisplayName m) ls,
     md_Description = pickVal (overlaySets om_Description (\<lambda>v. v \<noteq> [])) (overlayMetaVal om_Description) (md_Description m) ls,
     md_Owners = pickVal (overlaySets om_Owners (\<lambda>v. v \<noteq> None)) (overlayMetaVal om_Owners) (md_Owners m) ls,
     md_Labels = pickVal (overlaySets om_Labels (\<lambda>v. v \<noteq> None)) (overlayMetaVal om_Labels) (md_Labels m) ls\<rparr>"

definition overlaidFilters :: "FilterBlock \<Rightarrow> (AgentOverlay \<times> Provenance) list \<Rightarrow> FilterBlock" where
  "overlaidFilters b ls = \<lparr>fb_PreLLM = pickVal (stageSets fo_PreLLM) (stageVal fo_PreLLM) (fb_PreLLM b) ls,
     fb_PreTool = pickVal (stageSets fo_PreTool) (stageVal fo_PreTool) (fb_PreTool b) ls,
     fb_PostTool = pickVal (stageSets fo_PostTool) (stageVal fo_PostTool) (fb_PostTool b) ls\<rparr>"

definition overlaidSpec :: "AgentSpec \<Rightarrow> (AgentOverlay \<times> Provenance) list \<Rightarrow> AgentSpec" where
  "overlaidSpec m ls = m\<lparr>s_Metadata := overlaidMetadata (s_Metadata m) ls,
     s_Provider := pickVal (\<lambda>ov. ob_Provider (ov_Spec ov) \<noteq> None) (\<lambda>ov. the (ob_Provider (ov_Spec ov))) (s_Provider m) ls,
     s_Prompt := pickVal (\<lambda>ov. ob_Prompt (ov_Spec ov) \<noteq> None) (\<lambda>ov. the (ob_Prompt (ov_Spec ov))) (s_Prompt m) ls,
     s_Tools := pickVal (\<lambda>ov. rl_Set (ob_Tools (ov_Spec ov))) (\<lambda>ov. rl_Items (ob_Tools (ov_Spec ov))) (s_Tools m) ls,
     s_Policies := pickVal (\<lambda>ov. rl_Set (ob_Policies (ov_Spec ov))) (\<lambda>ov. rl_Items (ob_Policies (ov_Spec ov))) (s_Policies m) ls,
     s_Filters := overlaidFilters (s_Filters m) ls,
     s_Budget := pickVal (\<lambda>ov. ob_Budget (ov_Spec ov) \<noteq> None) (\<lambda>ov. ob_Budget (ov_Spec ov)) (s_Budget m) ls,
     s_Telemetry := pickVal (\<lambda>ov. ob_Telemetry (ov_Spec ov) \<noteq> None) (\<lambda>ov. ob_Telemetry (ov_Spec ov)) (s_Telemetry m) ls,
     s_Credentials := pickVal (\<lambda>ov. ob_Credentials (ov_Spec ov) \<noteq> None) (\<lambda>ov. ob_Credentials (ov_Spec ov)) (s_Credentials m) ls,
     s_Identity := pickVal (\<lambda>ov. ob_Identity (ov_Spec ov) \<noteq> None) (\<lambda>ov. ob_Identity (ov_Spec ov)) (s_Identity m) ls\<rparr>"

definition overlaidProv :: "provenanceFields \<Rightarrow> (AgentOverlay \<times> Provenance) list \<Rightarrow> provenanceFields" where
  "overlaidProv m ls = m\<lparr>pf_Metadata := pickProv (\<lambda>ov. ob_Metadata (ov_Spec ov) \<noteq> None) (\<lambda>_ p. p) (pf_Metadata m) ls,
     pf_Provider := pickProv (\<lambda>ov. ob_Provider (ov_Spec ov) \<noteq> None) (\<lambda>_ p. p) (pf_Provider m) ls,
     pf_Prompt := pickProv (\<lambda>ov. ob_Prompt (ov_Spec ov) \<noteq> None) (\<lambda>_ p. p) (pf_Prompt m) ls,
     pf_Tools := pickProv (\<lambda>ov. rl_Set (ob_Tools (ov_Spec ov)))
       (\<lambda>ov p. p\<lparr>pv_Line := rl_Line (ob_Tools (ov_Spec ov))\<rparr>) (pf_Tools m) ls,
     pf_Policies := pickProv (\<lambda>ov. rl_Set (ob_Policies (ov_Spec ov)))
       (\<lambda>ov p. p\<lparr>pv_Line := rl_Line (ob_Policies (ov_Spec ov))\<rparr>) (pf_Policies m) ls,
     pf_Filters := pickProv setsAnyStage (\<lambda>_ p. p) (pf_Filters m) ls,
     pf_Budget := pickProv (\<lambda>ov. ob_Budget (ov_Spec ov) \<noteq> None) (\<lambda>_ p. p) (pf_Budget m) ls,
     pf_Telemetry := pickProv (\<lambda>ov. ob_Telemetry (ov_Spec ov) \<noteq> None) (\<lambda>_ p. p) (pf_Telemetry m) ls,
     pf_Credentials := pickProv (\<lambda>ov. ob_Credentials (ov_Spec ov) \<noteq> None) (\<lambda>_ p. p) (pf_Credentials m) ls,
     pf_Identity := pickProv (\<lambda>ov. ob_Identity (ov_Spec ov) \<noteq> None) (\<lambda>_ p. p) (pf_Identity m) ls\<rparr>"

text \<open>The four mirrors overlays cannot reach.\<close>

interpretation keepAPIVersion: tracked overlayStep "\<lambda>_. False" pf_APIVersion "\<lambda>_ p. p"
  by unfold_locales
    (simp add: overlayStep_def applyOne_def Let_def case_upd
      upd_prov_frame[where get = pf_APIVersion] filters_prov_frame[where get = pf_APIVersion])

interpretation keepKind: tracked overlayStep "\<lambda>_. False" pf_Kind "\<lambda>_ p. p"
  by unfold_locales
    (simp add: overlayStep_def applyOne_def Let_def case_upd
      upd_prov_frame[where get = pf_Kind] filters_prov_frame[where get = pf_Kind])

interpretation keepSkills: tracked overlayStep "\<lambda>_. False" pf_Skills "\<lambda>_ p. p"
  by unfold_locales
    (simp add: overlayStep_def applyOne_def Let_def case_upd
      upd_prov_frame[where get = pf_Skills] filters_prov_frame[where get = pf_Skills])

interpretation keepOutputContract: tracked overlayStep "\<lambda>_. False" pf_OutputContract "\<lambda>_ p. p"
  by unfold_locales
    (simp add: overlayStep_def applyOne_def Let_def case_upd
      upd_prov_frame[where get = pf_OutputContract] filters_prov_frame[where get = pf_OutputContract])

interpretation keepMCPImports: tracked overlayStep "\<lambda>_. False" pf_MCPImports "\<lambda>_ p. p"
  by unfold_locales
    (simp add: overlayStep_def applyOne_def Let_def case_upd
      upd_prov_frame[where get = pf_MCPImports] filters_prov_frame[where get = pf_MCPImports])

lemmas over_run_gets =
  overID.run_get
  overVersion.run_get
  overDisplayName.run_get
  overDescription.run_get
  overOwners.run_get
  overLabels.run_get
  overPreLLM.run_get
  overPreTool.run_get
  overPostTool.run_get
  overAPIVersion.run_get
  overKind.run_get
  overSkills.run_get
  overMCPImports.run_get
  overOutputContract.run_get
  overExtends.run_get
  overProvider.run_get
  overPrompt.run_get
  overBudget.run_get
  overTelemetry.run_get
  overCredentials.run_get
  overIdentity.run_get
  overTools.run_get
  overPolicies.run_get

lemmas over_run_provs =
  overMeta.run_prov
  overFilters.run_prov
  overProvider.run_prov
  overPrompt.run_prov
  overBudget.run_prov
  overTelemetry.run_prov
  overCredentials.run_prov
  overIdentity.run_prov
  overTools.run_prov
  overPolicies.run_prov
  keepAPIVersion.run_prov
  keepKind.run_prov
  keepSkills.run_prov
  keepOutputContract.run_prov
  keepMCPImports.run_prov

lemma lastSet_never [simp]: "lastSet (\<lambda>_. False) ls = None"
  by (induction ls rule: lastSet.induct[of "\<lambda>_ ls. P ls" for P]) auto

lemma pick_never [simp]:
  "pickVal (\<lambda>_. False) val d ls = d" "pickProv (\<lambda>_. False) adj d' ls = d'"
  by (simp_all add: pickVal_def pickProv_def)

lemma overlaid_metadata_run:
  "s_Metadata (fst (runLayers overlayStep ls st)) = overlaidMetadata (s_Metadata (fst st)) ls"
  by (rule Metadata.equality) (simp_all add: overlaidMetadata_def over_run_gets)

lemma overlaid_filters_run:
  "s_Filters (fst (runLayers overlayStep ls st)) = overlaidFilters (s_Filters (fst st)) ls"
  by (rule FilterBlock.equality) (simp_all add: overlaidFilters_def over_run_gets)

lemma overlaid_spec_run:
  "fst (runLayers overlayStep ls st) = overlaidSpec (fst st) ls"
  by (rule AgentSpec.equality)
    (simp_all add: overlaidSpec_def over_run_gets overlaid_metadata_run overlaid_filters_run)

lemma overlaid_prov_run:
  "snd (runLayers overlayStep ls st) = overlaidProv (snd st) ls"
  by (rule provenanceFields.equality) (simp_all add: overlaidProv_def over_run_provs)

lemma applyOverlays_layered:
  "applyOverlays ovs st = Ok st' \<longleftrightarrow>
     length ovs \<le> MaxOverlayCount \<and>
     st' = (overlaidSpec (fst st) (overlayLayers 0 ovs), overlaidProv (snd st) (overlayLayers 0 ovs))"
  by (auto simp: applyOverlays_def applyLoop_run overlaid_spec_run overlaid_prov_run prod_eq_iff)


section \<open>Properties\<close>

text \<open>C5. Applying overlays succeeds exactly when there are at most sixteen of them (nil ones
  counted), and then every field an overlay can reach holds the value of the last overlay
  that sets it, list by list and filter stage by filter stage, with that overlay's file and
  index as provenance; tools and policies also carry the line of the list in the overlay, the other
  fields, filter stages included, carry line 0. Every other field is untouched.\<close>

theorem applyOverlays_last_wins:
  "applyOverlays ovs st = Ok st' \<longleftrightarrow>
     length ovs \<le> MaxOverlayCount \<and>
     st' = (overlaidSpec (fst st) (overlayLayers 0 ovs), overlaidProv (snd st) (overlayLayers 0 ovs))"
  by (rule applyOverlays_layered)

end
