(* ===== verification/SpecValidate.thy ===== *)
theory SpecValidate
  imports SpecTypes GoGlob
begin

text \<open>
  Validation: \<^verbatim>\<open>spec/validate.go\<close> and \<^verbatim>\<open>spec/validate_mcp.go\<close>. Every Go function
  that takes \<^verbatim>\<open>errs *Errors\<close> becomes a function on the aggregator. \<open>checks v ok\<close> says
  that such a function only appends messages, and none exactly when \<open>ok\<close> holds; the
  rules for it compose along the source, so that \<^verbatim>\<open>Validate\<close> is shown to return nil
  on exactly the specs \<open>valid_spec\<close> describes.
\<close>

section \<open>Patterns\<close>

definition alnum_lower :: "char \<Rightarrow> bool" where
  "alnum_lower c \<longleftrightarrow> is_lower c \<or> is_digit c"

text \<open>\<^verbatim>\<open>^[a-z][a-z0-9]*(\.[a-z0-9]+)*(-[a-z0-9.]+)?$\<close>\<close>

definition metadataIDRegexp :: regex where
  "metadataIDRegexp =
     Seq (Cls is_lower) (Seq (Star (Cls alnum_lower))
       (Seq (Star (Seq (lit CHR ''.'') (Plus (Cls alnum_lower))))
         (Opt (Seq (lit CHR ''-'') (Plus (Cls (\<lambda>c. alnum_lower c \<or> c = CHR ''.'')))))))"

definition prerelease_char :: "char \<Rightarrow> bool" where
  "prerelease_char c \<longleftrightarrow> is_digit c \<or> is_upper c \<or> is_lower c \<or> c = CHR ''.'' \<or> c = CHR ''-''"

text \<open>\<^verbatim>\<open>^\d+\.\d+\.\d+(?:-[0-9A-Za-z.-]+)?$\<close>\<close>

definition semverRegexp :: regex where
  "semverRegexp =
     Seq (Plus (Cls is_digit)) (Seq (lit CHR ''.'') (Seq (Plus (Cls is_digit)) (Seq (lit CHR ''.'')
       (Seq (Plus (Cls is_digit)) (Opt (Seq (lit CHR ''-'') (Plus (Cls prerelease_char))))))))"

definition expectedAPIVersion :: string where
  "expectedAPIVersion = ''forge.praxis-os.dev/v0''"

definition expectedKind :: string where
  "expectedKind = ''AgentSpec''"

section \<open>validate.go: references\<close>

text \<open>\<open>forE f i xs\<close> is \<^verbatim>\<open>for i, x := range xs { f(errs, i, x) }\<close>.\<close>

fun forE :: "(nat \<Rightarrow> 'a \<Rightarrow> Errors \<Rightarrow> Errors) \<Rightarrow> nat \<Rightarrow> 'a list \<Rightarrow> Errors \<Rightarrow> Errors" where
  "forE f i [] e = e"
| "forE f i (x # xs) e = forE f (Suc i) xs (f i x e)"

definition whenE :: "bool \<Rightarrow> (Errors \<Rightarrow> Errors) \<Rightarrow> Errors \<Rightarrow> Errors" where
  "whenE b f e = (if b then f e else e)"

definition validateRef :: "garg \<Rightarrow> string \<Rightarrow> Errors \<Rightarrow> Errors" where
  "validateRef field ref errs =
     (if ref = [] then Addf ''%s: required'' [field] errs
      else case ParseID ref of
        Err err \<Rightarrow> Addf ''%s: %s'' [field, AErr err] errs
      | _ \<Rightarrow> errs)"

definition validateKindPrefixedRef :: "garg \<Rightarrow> string \<Rightarrow> string \<Rightarrow> Errors \<Rightarrow> Errors" where
  "validateKindPrefixedRef field ref prefix errs =
     (if ref = [] then Addf ''%s: required'' [field] errs
      else case ParseID ref of
        Err err \<Rightarrow> Addf ''%s: %s'' [field, AErr err] errs
      | _ \<Rightarrow> if \<not> hasPrefix ref prefix
             then Addf ''%s: must start with %q'' [field, AStr prefix] errs else errs)"

text \<open>\<^verbatim>\<open>seen\<close> is the Go map of the first index of every tool ref.\<close>

fun dupTools :: "(string \<rightharpoonup> nat) \<Rightarrow> nat \<Rightarrow> ComponentRef list \<Rightarrow> Errors \<Rightarrow> Errors" where
  "dupTools seen i [] errs = errs"
| "dupTools seen i (t # ts) errs =
     (case seen (cr_Ref t) of
        Some prev \<Rightarrow> dupTools seen (Suc i) ts
          (Addf ''tools[%d]: duplicate of tools[%d] (ref=%s)''
            [AInt (int i), AInt (int prev), AStr (cr_Ref t)] errs)
      | None \<Rightarrow> dupTools (seen(cr_Ref t \<mapsto> i)) (Suc i) ts errs)"

section \<open>validate\_mcp.go\<close>

definition stringAt :: "gomap \<Rightarrow> string \<Rightarrow> string" where
  "stringAt m k = string_or_empty (map_index m k)"

definition mapAt :: "gomap \<Rightarrow> string \<Rightarrow> gomap" where
  "mapAt m k = (case map_index m k of VMap v \<Rightarrow> v | _ \<Rightarrow> None)"

definition anyListAt :: "gomap \<Rightarrow> string \<Rightarrow> goval slice" where
  "anyListAt m k =
     (case map_index m k of
        VSlice v \<Rightarrow> v
      | VStrings v \<Rightarrow> Some (map VString (elems v))
      | _ \<Rightarrow> None)"

definition validateMCPConnection :: "garg \<Rightarrow> gomap \<Rightarrow> Errors \<Rightarrow> Errors" where
  "validateMCPConnection field conn errs =
     (if conn = None then Addf ''%s: mcp_transport_invalid: connection required'' [field] errs
      else
        let transport = stringAt conn ''transport'' in
        if transport = ''stdio'' then
          (let errs = whenE (length (elems (anyListAt conn ''command'')) = 0)
                 (Addf ''%s: mcp_transport_field_mismatch: stdio requires command'' [field]) errs
           in whenE (stringAt conn ''url'' \<noteq> [])
                 (Addf ''%s: mcp_transport_field_mismatch: stdio must not set url'' [field]) errs)
        else if transport = ''http'' then
          (let errs = whenE (stringAt conn ''url'' = [])
                 (Addf ''%s: mcp_transport_field_mismatch: http requires url'' [field]) errs
           in whenE (length (elems (anyListAt conn ''command'')) > 0)
                 (Addf ''%s: mcp_transport_field_mismatch: http must not set command'' [field]) errs)
        else Addf ''%s.transport %q: mcp_transport_invalid (want stdio|http)''
               [field, AStr transport] errs)"

definition validateMCPOnNewTool :: "garg \<Rightarrow> string \<Rightarrow> Errors \<Rightarrow> Errors" where
  "validateMCPOnNewTool field v errs =
     (if v = [] then errs
      else if v = ''block'' \<or> v = ''allow-if-match-allowlist'' \<or> v = ''require-reapproval'' then errs
      else Addf ''%s %q: mcp_on_new_tool_invalid (want block|allow-if-match-allowlist|require-reapproval)''
             [field, AStr v] errs)"

definition validateMCPAuth :: "garg \<Rightarrow> gomap \<Rightarrow> Errors \<Rightarrow> Errors" where
  "validateMCPAuth field auth errs =
     (if auth = None then errs
      else
        let errs = whenE (stringAt auth ''credentialRef'' = [])
               (Addf ''%s.credentialRef: mcp_missing_credential_ref'' [field]) errs;
            scheme = stringAt auth ''scheme'';
            errs = whenE (scheme = []) (Addf ''%s.scheme: mcp_missing_auth_scheme'' [field]) errs
        in whenE (scheme = ''api-key'' \<and> stringAt auth ''headerName'' = [])
             (Addf ''%s.headerName: mcp_missing_header_name (required for scheme api-key)'' [field]) errs)"

definition validateGlob :: "garg \<Rightarrow> nat \<Rightarrow> goval \<Rightarrow> Errors \<Rightarrow> Errors" where
  "validateGlob field i p errs =
     (case as_string p of
        None \<Rightarrow> Addf ''%s[%d]: mcp_invalid_glob: want string, got %T'' [field, AInt (int i), AVal p] errs
      | Some s \<Rightarrow>
          (case Match_empty s of
             Some err \<Rightarrow> Addf ''%s[%d] %q: mcp_invalid_glob: %s''
               [field, AInt (int i), AStr s, AErr err] errs
           | None \<Rightarrow> errs))"

definition validateGlobList :: "garg \<Rightarrow> goval slice \<Rightarrow> Errors \<Rightarrow> Errors" where
  "validateGlobList field patterns errs = forE (validateGlob field) 0 (elems patterns) errs"

definition mcpField :: "nat \<Rightarrow> garg" where
  "mcpField i = AFmt ''mcpImports[%d].config'' [AInt (int i)]"

definition sub :: "garg \<Rightarrow> string \<Rightarrow> garg" where
  "sub field suffix = AFmt (''%s'' @ suffix) [field]"

text \<open>The body of one loop iteration after the id check.\<close>

definition validateMCPBody :: "nat \<Rightarrow> gomap \<Rightarrow> Errors \<Rightarrow> Errors" where
  "validateMCPBody i cfg errs =
     (let field = mcpField i;
          errs = validateMCPConnection (sub field ''.connection'') (mapAt cfg ''connection'') errs;
          errs = validateMCPOnNewTool (sub field ''.onNewTool'') (stringAt cfg ''onNewTool'') errs;
          errs = validateMCPAuth (sub field ''.auth'') (mapAt cfg ''auth'') errs;
          errs = validateGlobList (sub field ''.allow'') (anyListAt cfg ''allow'') errs
      in validateGlobList (sub field ''.deny'') (anyListAt cfg ''deny'') errs)"

fun validateMCPLoop :: "(string \<rightharpoonup> nat) \<Rightarrow> nat \<Rightarrow> ComponentRef list \<Rightarrow> Errors \<Rightarrow> Errors" where
  "validateMCPLoop seenID i [] errs = errs"
| "validateMCPLoop seenID i (ref # imports) errs =
     (let field = mcpField i; cfg = cr_Config ref in
      if cfg = None
      then validateMCPLoop seenID (Suc i) imports
             (Addf ''%s: mcp_missing_id: config required'' [field] errs)
      else
        let id = stringAt cfg ''id'' in
        if id = [] then
          validateMCPLoop seenID (Suc i) imports
            (validateMCPBody i cfg (Addf ''%s.id: mcp_missing_id'' [field] errs))
        else (case seenID id of
          Some prev \<Rightarrow> validateMCPLoop seenID (Suc i) imports
            (validateMCPBody i cfg
              (Addf ''%s.id %q: mcp_duplicate_id of mcpImports[%d]'' [field, AStr id, AInt (int prev)] errs))
        | None \<Rightarrow> validateMCPLoop (seenID(id \<mapsto> i)) (Suc i) imports (validateMCPBody i cfg errs)))"

definition validateMCPImportsStructure :: "ComponentRef list \<Rightarrow> Errors \<Rightarrow> Errors" where
  "validateMCPImportsStructure imports errs = validateMCPLoop Map.empty 0 imports errs"

section \<open>validate.go: Validate\<close>

definition idxField :: "string \<Rightarrow> nat \<Rightarrow> garg" where
  "idxField f i = AFmt f [AInt (int i)]"

definition refLoop :: "string \<Rightarrow> ComponentRef slice \<Rightarrow> Errors \<Rightarrow> Errors" where
  "refLoop f xs = forE (\<lambda>i t. validateRef (idxField f i) (cr_Ref t)) 0 (elems xs)"

definition optRef :: "('a \<Rightarrow> string) \<Rightarrow> string \<Rightarrow> 'a option \<Rightarrow> Errors \<Rightarrow> Errors" where
  "optRef ref f x errs = (case x of None \<Rightarrow> errs | Some r \<Rightarrow> validateRef (AStr f) (ref r) errs)"

definition validateErrs :: "AgentSpec \<Rightarrow> Errors \<Rightarrow> Errors" where
  "validateErrs s errs =
     (let errs = whenE (s_APIVersion s \<noteq> expectedAPIVersion)
            (Addf ''apiVersion: want %q, got %q'' [AStr expectedAPIVersion, AStr (s_APIVersion s)]) errs;
          errs = whenE (s_Kind s \<noteq> expectedKind)
            (Addf ''kind: want %q, got %q'' [AStr expectedKind, AStr (s_Kind s)]) errs;
          errs = whenE (\<not> full_match metadataIDRegexp (md_ID (s_Metadata s)))
            (Addf ''metadata.id %q: must be dotted-lowercase'' [AStr (md_ID (s_Metadata s))]) errs;
          errs = whenE (\<not> full_match semverRegexp (md_Version (s_Metadata s)))
            (Addf ''metadata.version %q: must be semver MAJOR.MINOR.PATCH''
              [AStr (md_Version (s_Metadata s))]) errs;
          errs = validateRef (AStr ''provider.ref'') (cr_Ref (s_Provider s)) errs;
          errs = (case pb_System (s_Prompt s) of
              None \<Rightarrow> Addf ''prompt.system: required'' [] errs
            | Some r \<Rightarrow> if cr_Ref r = [] then Addf ''prompt.system: required'' [] errs
                else validateRef (AStr ''prompt.system.ref'') (cr_Ref r) errs);
          errs = refLoop ''tools[%d].ref'' (s_Tools s) errs;
          errs = refLoop ''policies[%d].ref'' (s_Policies s) errs;
          errs = refLoop ''filters.preLLM[%d].ref'' (fb_PreLLM (s_Filters s)) errs;
          errs = refLoop ''filters.preTool[%d].ref'' (fb_PreTool (s_Filters s)) errs;
          errs = refLoop ''filters.postTool[%d].ref'' (fb_PostTool (s_Filters s)) errs;
          errs = optRef br_Ref ''budget.ref'' (s_Budget s) errs;
          errs = optRef cr_Ref ''telemetry.ref'' (s_Telemetry s) errs;
          errs = optRef cd_Ref ''credentials.ref'' (s_Credentials s) errs;
          errs = optRef cr_Ref ''identity.ref'' (s_Identity s) errs;
          errs = whenE (length (elems (s_Extends s)) > 0)
            (Addf ''extends: phase-gated (Phase 2); must be empty in v0'' []) errs;
          errs = forE (\<lambda>i mi. validateKindPrefixedRef (idxField ''mcpImports[%d].ref'' i) (cr_Ref mi) ''mcp.'')
            0 (elems (s_MCPImports s)) errs;
          errs = validateMCPImportsStructure (elems (s_MCPImports s)) errs;
          errs = forE (\<lambda>i sk. validateKindPrefixedRef (idxField ''skills[%d].ref'' i) (cr_Ref sk) ''skill.'')
            0 (elems (s_Skills s)) errs;
          errs = (case s_OutputContract s of None \<Rightarrow> errs
            | Some oc \<Rightarrow> validateKindPrefixedRef (AStr ''outputContract.ref'') (cr_Ref oc) ''outputcontract.'' errs)
      in dupTools Map.empty 0 (elems (s_Tools s)) errs)"

definition Validate :: "AgentSpec \<Rightarrow> gerror option" where
  "Validate s = OrNil (validateErrs s noErrors)"

section \<open>Checkers\<close>

definition checks :: "(Errors \<Rightarrow> Errors) \<Rightarrow> bool \<Rightarrow> bool" where
  "checks v ok \<longleftrightarrow>
     (\<exists>ms. (ms = [] \<longleftrightarrow> ok) \<and> (\<forall>e. v e = e\<lparr>er_msgs := er_msgs e @ ms\<rparr>))"

lemma checks_id [intro]: "checks (\<lambda>e. e) True"
  unfolding checks_def by (intro exI[of _ "[]"]) simp

lemma checks_Addf [intro]: "checks (Addf f as) False"
  unfolding checks_def by (intro exI[of _ "[AFmt f as]"]) (simp add: Addf_def)

lemma checks_whenE [intro]: "checks v False \<Longrightarrow> checks (whenE b v) (\<not> b)"
proof -
  assume "checks v False"
  then obtain ms where "ms \<noteq> []" "\<forall>e. v e = e\<lparr>er_msgs := er_msgs e @ ms\<rparr>"
    by (auto simp: checks_def)
  then show ?thesis unfolding checks_def whenE_def
    by (intro exI[of _ "if b then ms else []"]) auto
qed

lemma checks_comp: "checks v a \<Longrightarrow> checks w b \<Longrightarrow> checks (\<lambda>e. w (v e)) (a \<and> b)"
proof -
  assume "checks v a" "checks w b"
  then obtain ms ns where "ms = [] \<longleftrightarrow> a" "\<forall>e. v e = e\<lparr>er_msgs := er_msgs e @ ms\<rparr>"
      "ns = [] \<longleftrightarrow> b" "\<forall>e. w e = e\<lparr>er_msgs := er_msgs e @ ns\<rparr>"
    by (auto simp: checks_def)
  then show ?thesis unfolding checks_def by (intro exI[of _ "ms @ ns"]) auto
qed

lemma checks_if: "(b \<Longrightarrow> checks v a) \<Longrightarrow> (\<not> b \<Longrightarrow> checks w c) \<Longrightarrow>
    checks (\<lambda>e. if b then v e else w e) (if b then a else c)"
  by (cases b) auto

lemma checks_eq: "checks v a \<Longrightarrow> a = b \<Longrightarrow> checks v b"
  by simp

lemma checks_ext: "(\<And>e. v e = w e) \<Longrightarrow> checks w a \<Longrightarrow> checks v a"
  by (simp add: checks_def)

lemma checks_forE:
  assumes "\<And>i x. x \<in> set xs \<Longrightarrow> checks (f i x) (ok x)"
  shows "checks (forE f i xs) (\<forall>x \<in> set xs. ok x)"
  using assms
proof (induction xs arbitrary: i)
  case Nil
  then show ?case by (simp add: checks_id)
next
  case (Cons x xs)
  have "checks (\<lambda>e. forE f (Suc i) xs (f i x e)) (ok x \<and> (\<forall>x \<in> set xs. ok x))"
    by (rule checks_comp) (use Cons in auto)
  then show ?case by simp
qed

lemma checks_OrNil: "checks v ok \<Longrightarrow> OrNil (v noErrors) = None \<longleftrightarrow> ok"
  by (auto simp: checks_def)

lemma checks_sentinels: "checks v ok \<Longrightarrow> er_sentinels (v e) = er_sentinels e"
  by (auto simp: checks_def)

section \<open>What each check accepts\<close>

lemma validateRef_checks: "checks (validateRef f r) (valid_id r)"
proof (cases "r = []")
  case True
  have "\<not> valid_id []" using valid_id_nonempty by blast
  with True show ?thesis by (auto simp: validateRef_def[abs_def])
next
  case False
  then show ?thesis
    by (cases "ParseID r") (auto simp: validateRef_def[abs_def] valid_id_def)
qed

lemma validateKindPrefixedRef_checks:
  "checks (validateKindPrefixedRef f r p) (valid_id r \<and> hasPrefix r p)"
proof (cases "r = []")
  case True
  have "\<not> valid_id []" using valid_id_nonempty by blast
  with True show ?thesis by (auto simp: validateKindPrefixedRef_def[abs_def])
next
  case False
  then show ?thesis
    by (cases "ParseID r"; cases "hasPrefix r p")
      (auto simp: validateKindPrefixedRef_def[abs_def] valid_id_def)
qed

definition refs_ok :: "ComponentRef slice \<Rightarrow> bool" where
  "refs_ok xs = list_all (\<lambda>r. valid_id (cr_Ref r)) (elems xs)"

lemma refLoop_checks: "checks (refLoop f xs) (refs_ok xs)"
  unfolding refLoop_def refs_ok_def list_all_iff
  by (rule checks_forE) (rule validateRef_checks)

definition opt_ok :: "('a \<Rightarrow> string) \<Rightarrow> 'a option \<Rightarrow> bool" where
  "opt_ok ref x = (case x of None \<Rightarrow> True | Some r \<Rightarrow> valid_id (ref r))"

lemma optRef_checks: "checks (optRef ref f x) (opt_ok ref x)"
  by (cases x) (auto simp: optRef_def[abs_def] opt_ok_def validateRef_checks)

lemma dupTools_checks:
  "checks (dupTools seen i ts)
     (distinct (map cr_Ref ts) \<and> (\<forall>t \<in> set ts. seen (cr_Ref t) = None))"
proof (induction ts arbitrary: seen i)
  case Nil
  then show ?case by (auto simp: checks_id)
next
  case (Cons t ts)
  show ?case
  proof (cases "seen (cr_Ref t)")
    case None
    have "checks (dupTools seen i (t # ts)) (distinct (map cr_Ref ts) \<and>
        (\<forall>u \<in> set ts. (seen(cr_Ref t \<mapsto> i)) (cr_Ref u) = None))"
      by (rule checks_ext[OF _ Cons[of "seen(cr_Ref t \<mapsto> i)" "Suc i"]]) (simp add: None fun_upd_def)
    then show ?thesis by (rule checks_eq) (use None in \<open>auto simp: image_iff\<close>)
  next
    case (Some prev)
    have "checks (\<lambda>e. dupTools seen (Suc i) ts (Addf f as e)) False" for f as
      by (rule checks_eq[OF checks_comp[OF checks_Addf Cons]]) simp
    from checks_ext[OF _ this] have "checks (dupTools seen i (t # ts)) False"
      using Some by simp
    then show ?thesis by (rule checks_eq) (simp add: Some)
  qed
qed

definition valid_connection :: "gomap \<Rightarrow> bool" where
  "valid_connection conn \<longleftrightarrow> conn \<noteq> None \<and>
     (stringAt conn ''transport'' = ''stdio'' \<and> elems (anyListAt conn ''command'') \<noteq> [] \<and>
        stringAt conn ''url'' = []
      \<or> stringAt conn ''transport'' = ''http'' \<and> stringAt conn ''url'' \<noteq> [] \<and>
        elems (anyListAt conn ''command'') = [])"

lemma validateMCPConnection_checks: "checks (validateMCPConnection f conn) (valid_connection conn)"
proof -
  have two: "checks (\<lambda>e. whenE b (Addf g as) (whenE a (Addf h bs) e)) (\<not> a \<and> \<not> b)" for a b g as h bs
    by (rule checks_comp) auto
  consider "conn = None" | kvs where "conn = Some kvs" "stringAt conn ''transport'' = ''stdio''"
    | kvs where "conn = Some kvs" "stringAt conn ''transport'' = ''http''"
    | kvs where "conn = Some kvs" "stringAt conn ''transport'' \<noteq> ''stdio''"
        "stringAt conn ''transport'' \<noteq> ''http''"
    by (cases conn) auto
  then show ?thesis
  proof cases
    case 1
    then show ?thesis by (auto simp: validateMCPConnection_def[abs_def] valid_connection_def)
  next
    case 2
    then show ?thesis
      by (simp add: validateMCPConnection_def[abs_def] valid_connection_def Let_def)
        (rule checks_eq[OF two], auto)
  next
    case 3
    then show ?thesis
      by (simp add: validateMCPConnection_def[abs_def] valid_connection_def Let_def)
        (rule checks_eq[OF two], auto)
  next
    case 4
    then show ?thesis by (auto simp: validateMCPConnection_def[abs_def] valid_connection_def Let_def)
  qed
qed

definition valid_on_new_tool :: "string \<Rightarrow> bool" where
  "valid_on_new_tool v \<longleftrightarrow> v \<in> {[], ''block'', ''allow-if-match-allowlist'', ''require-reapproval''}"

lemma validateMCPOnNewTool_checks: "checks (validateMCPOnNewTool f v) (valid_on_new_tool v)"
  unfolding validateMCPOnNewTool_def[abs_def] valid_on_new_tool_def
  by (rule checks_eq, rule checks_if, rule checks_id, rule checks_if, rule checks_id, rule checks_Addf) auto

definition valid_auth :: "gomap \<Rightarrow> bool" where
  "valid_auth auth \<longleftrightarrow> auth = None \<or>
     (stringAt auth ''credentialRef'' \<noteq> [] \<and> stringAt auth ''scheme'' \<noteq> [] \<and>
      (stringAt auth ''scheme'' = ''api-key'' \<longrightarrow> stringAt auth ''headerName'' \<noteq> []))"

lemma validateMCPAuth_checks: "checks (validateMCPAuth f auth) (valid_auth auth)"
proof (cases auth)
  case None
  then show ?thesis by (auto simp: validateMCPAuth_def[abs_def] valid_auth_def checks_id)
next
  case (Some kvs)
  have three: "checks (\<lambda>e. whenE c (Addf k cs) (whenE b (Addf g as) (whenE a (Addf h bs) e)))
      ((\<not> a \<and> \<not> b) \<and> \<not> c)" for a b c g as h bs k cs
    by (rule checks_comp[OF checks_comp]) auto
  show ?thesis
    using Some
    by (simp add: validateMCPAuth_def[abs_def] valid_auth_def Let_def) (rule checks_eq[OF three], auto)
qed

definition valid_glob :: "goval \<Rightarrow> bool" where
  "valid_glob p = (case as_string p of None \<Rightarrow> False | Some s \<Rightarrow> Match_empty s = None)"

lemma validateGlobList_checks: "checks (validateGlobList f ps) (list_all valid_glob (elems ps))"
proof -
  have "checks (validateGlob f i p) (valid_glob p)" for i p
    by (cases "as_string p"; cases "Match_empty (the (as_string p))")
      (auto simp: validateGlob_def[abs_def] valid_glob_def)
  then have "checks (forE (validateGlob f) 0 (elems ps)) (\<forall>p \<in> set (elems ps). valid_glob p)"
    by (intro checks_forE)
  then show ?thesis by (simp add: validateGlobList_def[abs_def] list_all_iff)
qed

definition valid_mcp_body :: "gomap \<Rightarrow> bool" where
  "valid_mcp_body cfg \<longleftrightarrow> valid_connection (mapAt cfg ''connection'') \<and>
     valid_on_new_tool (stringAt cfg ''onNewTool'') \<and> valid_auth (mapAt cfg ''auth'') \<and>
     list_all valid_glob (elems (anyListAt cfg ''allow'')) \<and>
     list_all valid_glob (elems (anyListAt cfg ''deny''))"

lemma validateMCPBody_checks: "checks (validateMCPBody i cfg) (valid_mcp_body cfg)"
  unfolding validateMCPBody_def[abs_def] Let_def
  by (rule checks_eq, rule checks_comp[OF checks_comp[OF checks_comp[OF checks_comp]]],
      rule validateMCPConnection_checks, rule validateMCPOnNewTool_checks,
      rule validateMCPAuth_checks, rule validateGlobList_checks, rule validateGlobList_checks)
    (auto simp: valid_mcp_body_def)

abbreviation mcp_id :: "ComponentRef \<Rightarrow> string" where
  "mcp_id r \<equiv> stringAt (cr_Config r) ''id''"

definition valid_mcp_imports :: "ComponentRef list \<Rightarrow> bool" where
  "valid_mcp_imports rs \<longleftrightarrow>
     (\<forall>r \<in> set rs. cr_Config r \<noteq> None \<and> mcp_id r \<noteq> [] \<and> valid_mcp_body (cr_Config r)) \<and>
     distinct (map mcp_id rs)"

lemma validateMCPLoop_checks:
  "checks (validateMCPLoop seen i rs)
     (valid_mcp_imports rs \<and> (\<forall>r \<in> set rs. seen (mcp_id r) = None))"
proof (induction rs arbitrary: seen i)
  case Nil
  then show ?case by (auto simp: valid_mcp_imports_def checks_id)
next
  case (Cons r rs)
  let ?cfg = "cr_Config r"
  note body = validateMCPBody_checks
  have bad: "checks (\<lambda>e. validateMCPLoop seen (Suc i) rs (validateMCPBody i ?cfg (Addf f as e))) False" for f as
    by (rule checks_eq[OF checks_comp[OF checks_comp[OF checks_Addf body] Cons]]) simp
  consider "?cfg = None" | kvs where "?cfg = Some kvs" "mcp_id r = []"
    | kvs prev where "?cfg = Some kvs" "mcp_id r \<noteq> []" "seen (mcp_id r) = Some prev"
    | kvs where "?cfg = Some kvs" "mcp_id r \<noteq> []" "seen (mcp_id r) = None"
    by fastforce
  then show ?case
  proof cases
    case 1
    have "checks (\<lambda>e. validateMCPLoop seen (Suc i) rs (Addf f as e)) False" for f as
      by (rule checks_eq[OF checks_comp[OF checks_Addf Cons]]) simp
    from checks_ext[OF _ this] have "checks (validateMCPLoop seen i (r # rs)) False"
      using 1 by (simp add: Let_def)
    then show ?thesis by (rule checks_eq) (simp add: 1 valid_mcp_imports_def)
  next
    case 2
    have "checks (validateMCPLoop seen i (r # rs)) False"
      by (rule checks_ext[OF _ bad[of "''%s.id: mcp_missing_id''" "[mcpField i]"]])
        (use 2 in \<open>simp add: Let_def\<close>)
    then show ?thesis by (rule checks_eq) (use 2 in \<open>auto simp: valid_mcp_imports_def\<close>)
  next
    case 3
    have "checks (validateMCPLoop seen i (r # rs)) False"
      by (rule checks_ext[OF _ bad[of "''%s.id %q: mcp_duplicate_id of mcpImports[%d]''"
            "[mcpField i, AStr (mcp_id r), AInt (int prev)]"]])
        (use 3 in \<open>simp add: Let_def\<close>)
    then show ?thesis by (rule checks_eq) (use 3 in auto)
  next
    case 4
    have "checks (\<lambda>e. validateMCPLoop (seen(mcp_id r \<mapsto> i)) (Suc i) rs (validateMCPBody i ?cfg e))
        (valid_mcp_body ?cfg \<and> (valid_mcp_imports rs \<and> (\<forall>r' \<in> set rs. (seen(mcp_id r \<mapsto> i)) (mcp_id r') = None)))"
      by (rule checks_comp[OF body Cons])
    then have "checks (validateMCPLoop seen i (r # rs))
        (valid_mcp_body ?cfg \<and> (valid_mcp_imports rs \<and> (\<forall>r' \<in> set rs. (seen(mcp_id r \<mapsto> i)) (mcp_id r') = None)))"
      by (rule checks_ext[rotated]) (use 4 in \<open>simp add: Let_def\<close>)
    then show ?thesis
      by (rule checks_eq) (use 4 in \<open>auto simp: valid_mcp_imports_def image_iff\<close>)
  qed
qed

lemma validateMCPImportsStructure_checks:
  "checks (validateMCPImportsStructure rs) (valid_mcp_imports rs)"
  using validateMCPLoop_checks[of Map.empty 0 rs]
  by (simp add: validateMCPImportsStructure_def[abs_def])

section \<open>What Validate accepts\<close>

definition prefixed_ok :: "string \<Rightarrow> ComponentRef \<Rightarrow> bool" where
  "prefixed_ok p r \<longleftrightarrow> valid_id (cr_Ref r) \<and> hasPrefix (cr_Ref r) p"

definition valid_header :: "AgentSpec \<Rightarrow> bool" where
  "valid_header s \<longleftrightarrow> s_APIVersion s = expectedAPIVersion \<and> s_Kind s = expectedKind \<and>
     md_ID (s_Metadata s) \<in> lang metadataIDRegexp \<and> md_Version (s_Metadata s) \<in> lang semverRegexp"

definition prompt_ok :: "AgentSpec \<Rightarrow> bool" where
  "prompt_ok s = (case pb_System (s_Prompt s) of None \<Rightarrow> False | Some r \<Rightarrow> valid_id (cr_Ref r))"

definition valid_refs :: "AgentSpec \<Rightarrow> bool" where
  "valid_refs s \<longleftrightarrow> valid_id (cr_Ref (s_Provider s)) \<and> prompt_ok s \<and>
     refs_ok (s_Tools s) \<and> refs_ok (s_Policies s) \<and> refs_ok (fb_PreLLM (s_Filters s)) \<and>
     refs_ok (fb_PreTool (s_Filters s)) \<and> refs_ok (fb_PostTool (s_Filters s)) \<and>
     opt_ok br_Ref (s_Budget s) \<and> opt_ok cr_Ref (s_Telemetry s) \<and>
     opt_ok cd_Ref (s_Credentials s) \<and> opt_ok cr_Ref (s_Identity s)"

definition valid_phases :: "AgentSpec \<Rightarrow> bool" where
  "valid_phases s \<longleftrightarrow> elems (s_Extends s) = [] \<and>
     list_all (prefixed_ok ''mcp.'') (elems (s_MCPImports s)) \<and>
     valid_mcp_imports (elems (s_MCPImports s)) \<and>
     list_all (prefixed_ok ''skill.'') (elems (s_Skills s)) \<and>
     (case s_OutputContract s of None \<Rightarrow> True | Some oc \<Rightarrow> prefixed_ok ''outputcontract.'' oc) \<and>
     distinct (map cr_Ref (elems (s_Tools s)))"

definition valid_spec :: "AgentSpec \<Rightarrow> bool" where
  "valid_spec s \<longleftrightarrow> valid_header s \<and> valid_refs s \<and> valid_phases s"

lemma patterns_boundary_free [simp]:
  "boundary_free metadataIDRegexp" "boundary_free semverRegexp"
  by (simp_all add: metadataIDRegexp_def semverRegexp_def)

definition header_checks :: "AgentSpec \<Rightarrow> Errors \<Rightarrow> Errors" where
  "header_checks s errs =
     whenE (\<not> full_match semverRegexp (md_Version (s_Metadata s)))
       (Addf ''metadata.version %q: must be semver MAJOR.MINOR.PATCH'' [AStr (md_Version (s_Metadata s))])
     (whenE (\<not> full_match metadataIDRegexp (md_ID (s_Metadata s)))
       (Addf ''metadata.id %q: must be dotted-lowercase'' [AStr (md_ID (s_Metadata s))])
     (whenE (s_Kind s \<noteq> expectedKind)
       (Addf ''kind: want %q, got %q'' [AStr expectedKind, AStr (s_Kind s)])
     (whenE (s_APIVersion s \<noteq> expectedAPIVersion)
       (Addf ''apiVersion: want %q, got %q'' [AStr expectedAPIVersion, AStr (s_APIVersion s)]) errs)))"

lemma header_checks_ok: "checks (header_checks s) (valid_header s)"
  unfolding header_checks_def
  by (rule checks_eq, rule checks_comp[OF checks_comp[OF checks_comp]],
      (rule checks_whenE, rule checks_Addf)+)
    (auto simp: valid_header_def full_match_lang)

lemma prompt_checks_ok:
  "checks (\<lambda>errs. case pb_System (s_Prompt s) of
      None \<Rightarrow> Addf ''prompt.system: required'' [] errs
    | Some r \<Rightarrow> if cr_Ref r = [] then Addf ''prompt.system: required'' [] errs
        else validateRef (AStr ''prompt.system.ref'') (cr_Ref r) errs) (prompt_ok s)"
proof (cases "pb_System (s_Prompt s)")
  case None
  then show ?thesis by (auto simp: prompt_ok_def)
next
  case (Some r)
  have "\<not> valid_id []" using valid_id_nonempty by blast
  with Some show ?thesis
    by (cases "cr_Ref r = []") (auto simp: prompt_ok_def validateRef_checks)
qed

lemma prefixed_loop_checks:
  "checks (forE (\<lambda>i r. validateKindPrefixedRef (idxField f i) (cr_Ref r) p) i rs) (list_all (prefixed_ok p) rs)"
  unfolding list_all_iff prefixed_ok_def
  by (rule checks_forE) (rule validateKindPrefixedRef_checks)

lemma contract_checks:
  "checks (\<lambda>errs. case oc of None \<Rightarrow> errs | Some c \<Rightarrow> validateKindPrefixedRef f (cr_Ref c) p errs)
     (case oc of None \<Rightarrow> True | Some c \<Rightarrow> prefixed_ok p c)"
  by (cases oc) (auto simp: checks_id prefixed_ok_def validateKindPrefixedRef_checks)

lemma dupTools_start: "checks (dupTools Map.empty 0 ts) (distinct (map cr_Ref ts))"
  using dupTools_checks[of Map.empty 0 ts] by simp

lemma validateErrs_checks: "checks (validateErrs s) (valid_spec s)"
proof -
  note cs = header_checks_ok[of s] validateRef_checks[of "AStr ''provider.ref''" "cr_Ref (s_Provider s)"]
    prompt_checks_ok[of s] refLoop_checks[of "''tools[%d].ref''" "s_Tools s"]
    refLoop_checks[of "''policies[%d].ref''" "s_Policies s"]
    refLoop_checks[of "''filters.preLLM[%d].ref''" "fb_PreLLM (s_Filters s)"]
    refLoop_checks[of "''filters.preTool[%d].ref''" "fb_PreTool (s_Filters s)"]
    refLoop_checks[of "''filters.postTool[%d].ref''" "fb_PostTool (s_Filters s)"]
    optRef_checks[of br_Ref "''budget.ref''" "s_Budget s"]
    optRef_checks[of cr_Ref "''telemetry.ref''" "s_Telemetry s"]
    optRef_checks[of cd_Ref "''credentials.ref''" "s_Credentials s"]
    optRef_checks[of cr_Ref "''identity.ref''" "s_Identity s"]
    checks_whenE[OF checks_Addf, of "length (elems (s_Extends s)) > 0"
      "''extends: phase-gated (Phase 2); must be empty in v0''" "[]"]
    prefixed_loop_checks[of "''mcpImports[%d].ref''" "''mcp.''" 0 "elems (s_MCPImports s)"]
    validateMCPImportsStructure_checks[of "elems (s_MCPImports s)"]
    prefixed_loop_checks[of "''skills[%d].ref''" "''skill.''" 0 "elems (s_Skills s)"]
    contract_checks[where oc = "s_OutputContract s" and f = "AStr ''outputContract.ref''"
      and p = "''outputcontract.''"]
    dupTools_start[of "elems (s_Tools s)"]
  note c = checks_comp
  from c[OF c[OF c[OF c[OF c[OF c[OF c[OF c[OF c[OF c[OF c[OF c[OF c[OF c[OF c[OF c[OF c[OF
    cs(1) cs(2)] cs(3)] cs(4)] cs(5)] cs(6)] cs(7)] cs(8)] cs(9)] cs(10)] cs(11)] cs(12)] cs(13)]
    cs(14)] cs(15)] cs(16)] cs(17)] cs(18)]
  show ?thesis
    unfolding validateErrs_def[abs_def] Let_def header_checks_def[abs_def]
    by (rule checks_eq) (auto simp: valid_spec_def valid_refs_def valid_phases_def)
qed

lemma Validate_None_iff: "Validate s = None \<longleftrightarrow> valid_spec s"
  unfolding Validate_def by (rule checks_OrNil[OF validateErrs_checks])

lemma Validate_Some:
  "Validate s = Some err \<Longrightarrow> \<not> valid_spec s \<and> (errors_is err t \<longleftrightarrow> t = ErrValidation)"
proof -
  assume *: "Validate s = Some err"
  then have "\<not> valid_spec s" using Validate_None_iff[of s] by simp
  moreover have "er_sentinels (validateErrs s noErrors) = []"
    using checks_sentinels[OF validateErrs_checks, of s noErrors] by simp
  ultimately show ?thesis
    using * OrNil_is[of "validateErrs s noErrors" err t] by (auto simp: Validate_def Errors_Is_def)
qed

section \<open>Properties\<close>

text \<open>C3. \<^verbatim>\<open>Validate\<close> accepts a spec exactly when it satisfies the declarative rules: the
  fixed apiVersion and kind, a dotted-lowercase id, a semantic version, a well-formed ref in
  every slot but \<^verbatim>\<open>prompt.user\<close> (with the kind prefix its slot demands), well-formed MCP imports, no
  phase-gated field, and pairwise distinct tool refs. The ref in \<^verbatim>\<open>prompt.user\<close> is not looked at:
  whatever stands there, the errors are the same.\<close>

theorem Validate_decides:
  "(Validate s = None \<longleftrightarrow> valid_spec s) \<and>
   Validate (s\<lparr>s_Prompt := (s_Prompt s)\<lparr>pb_User := u\<rparr>\<rparr>) = Validate s"
  by (simp add: Validate_None_iff) (simp add: Validate_def validateErrs_def)

text \<open>A rejected spec yields an aggregate that answers \<^verbatim>\<open>errors.Is\<close> for the validation
  sentinel and for no other, and carries at least one message.\<close>

theorem Validate_error_is_validation:
  assumes "Validate s = Some err"
  shows "\<not> valid_spec s \<and> (errors_is err t \<longleftrightarrow> t = ErrValidation) \<and>
    (\<exists>msgs. err = ErrorsAgg msgs [] \<and> msgs \<noteq> [])"
proof -
  have "er_sentinels (validateErrs s noErrors) = []"
    using checks_sentinels[OF validateErrs_checks, of s noErrors] by simp
  with assms Validate_Some[OF assms] show ?thesis
    by (auto simp: Validate_def OrNil_def split: if_splits)
qed

theorem Validate_error_is_validation_witness:
  "\<exists>err. Validate zeroAgentSpec = Some err \<and> errors_is err ErrValidation"
proof -
  have "\<not> valid_spec zeroAgentSpec"
    by (simp add: valid_spec_def valid_header_def zeroAgentSpec_def expectedAPIVersion_def)
  then obtain err where "Validate zeroAgentSpec = Some err" using Validate_None_iff by blast
  with Validate_error_is_validation[OF this, of ErrValidation] show ?thesis by blast
qed

end
