(* ===== verification/SpecNormalize.thy ===== *)
theory SpecNormalize
  imports SpecExtends SpecOverlays SpecValidate
begin

text \<open>
  The composition pipeline \<^verbatim>\<open>Normalize\<close> (\<^verbatim>\<open>normalize.go\<close>), the locked-field scan
  of \<^verbatim>\<open>locked.go\<close> and the provenance accessors of \<^verbatim>\<open>provenance.go\<close>. The
  refinement facts of the merge, overlay, extends and validation theories are put
  together here into what a successful normalization promises.
\<close>

section \<open>locked.go\<close>

definition lockedMsg :: "string \<Rightarrow> nat \<Rightarrow> string \<Rightarrow> string \<Rightarrow> string \<Rightarrow> garg" where
  "lockedMsg field idx name got base =
     (if name \<noteq> []
      then AFmt ''%s: locked, overlay #%d (%s) set %q (base = %q)''
             [AStr field, AInt (int idx), AStr name, AStr got, AStr base]
      else AFmt ''%s: locked, overlay #%d set %q (base = %q)''
             [AStr field, AInt (int idx), AStr got, AStr base])"

text \<open>One locked field: an error is wrapped when the overlay sets a different value.\<close>

definition lockedField :: "string \<Rightarrow> nat \<Rightarrow> string \<Rightarrow> string \<Rightarrow> string \<Rightarrow> Errors \<Rightarrow> Errors" where
  "lockedField field i name got base errs =
     (if got \<noteq> [] \<and> got \<noteq> base
      then Wrap (Sentinel ErrLockedFieldOverride) ''%s'' [lockedMsg field i name got base] errs
      else errs)"

definition scanOne :: "AgentSpec \<Rightarrow> nat \<Rightarrow> AgentOverlay \<Rightarrow> Errors \<Rightarrow> Errors" where
  "scanOne base i ov errs =
     (let errs = lockedField ''apiVersion'' i (ov_Name ov) (ov_APIVersion ov) (s_APIVersion base) errs
      in case ob_Metadata (ov_Spec ov) of
           None \<Rightarrow> errs
         | Some om \<Rightarrow>
             let errs = lockedField ''metadata.id'' i (ov_Name ov) (om_ID om)
                          (md_ID (s_Metadata base)) errs
             in lockedField ''metadata.version'' i (ov_Name ov) (om_Version om)
                  (md_Version (s_Metadata base)) errs)"

fun scanLockedDrift :: "AgentSpec \<Rightarrow> nat \<Rightarrow> AgentOverlay option list \<Rightarrow> Errors \<Rightarrow> Errors" where
  "scanLockedDrift base i [] errs = errs"
| "scanLockedDrift base i (None # ovs) errs = scanLockedDrift base (Suc i) ovs errs"
| "scanLockedDrift base i (Some ov # ovs) errs =
     scanLockedDrift base (Suc i) ovs (scanOne base i ov errs)"

section \<open>normalize.go: Normalize\<close>

text \<open>\<^verbatim>\<open>append\<close> onto the nil slice: the result stays nil when nothing is appended.\<close>

definition appended :: "'a list \<Rightarrow> 'a slice" where
  "appended xs = (if xs = [] then None else Some xs)"

definition attribution :: "AgentOverlay \<Rightarrow> OverlayAttribution" where
  "attribution ov = \<lparr>oa_Name = ov_Name ov, oa_File = ov_File ov\<rparr>"

text \<open>The base is a pointer: a nil one is dereferenced by the first test of \<open>resolveExtendsChain\<close>.\<close>

definition Normalize :: "ctx \<Rightarrow> AgentSpec option \<Rightarrow> AgentOverlay option list \<Rightarrow> SpecStore option \<Rightarrow>
    NormalizedSpec result" where
  "Normalize ctx base overlays store = (case base of None \<Rightarrow> Panic ''nil pointer dereference: s.Extends'' | Some s \<Rightarrow>
     bindR (resolveExtendsChain ctx s store) (\<lambda>(parents, chain).
     bindR (applyOverlays overlays (mergeChain parents s)) (\<lambda>(spec, fields).
     case Validate spec of Some err \<Rightarrow> Err err | None \<Rightarrow>
     case OrNil (scanLockedDrift s 0 overlays noErrors) of Some err \<Rightarrow> Err err | None \<Rightarrow>
     Ok \<lparr>ns_Spec = spec, ns_ExtendsChain = chain,
         ns_Overlays = appended (map attribution (List.map_filter id overlays)),
         ns_fields = fields\<rparr>)))"

section \<open>provenance.go\<close>

text \<open>The path up to the first dot.\<close>

definition topField :: "string \<Rightarrow> string" where
  "topField path = takeWhile (\<lambda>c. c \<noteq> CHR ''.'') path"

definition Provenance_of :: "provenanceFields \<Rightarrow> string \<Rightarrow> Provenance option" where
  "Provenance_of f fieldPath = (let top = topField fieldPath in
     if top = ''apiVersion'' then Some (pf_APIVersion f)
     else if top = ''kind'' then Some (pf_Kind f)
     else if top = ''metadata'' then Some (pf_Metadata f)
     else if top = ''provider'' then Some (pf_Provider f)
     else if top = ''prompt'' then Some (pf_Prompt f)
     else if top = ''tools'' then Some (pf_Tools f)
     else if top = ''policies'' then Some (pf_Policies f)
     else if top = ''filters'' then Some (pf_Filters f)
     else if top = ''budget'' then Some (pf_Budget f)
     else if top = ''telemetry'' then Some (pf_Telemetry f)
     else if top = ''credentials'' then Some (pf_Credentials f)
     else if top = ''identity'' then Some (pf_Identity f)
     else None)"

definition setFieldProvenance :: "string \<Rightarrow> Provenance \<Rightarrow> provenanceFields \<Rightarrow> provenanceFields result" where
  "setFieldProvenance field p f =
     (if field = ''apiVersion'' then Ok (f\<lparr>pf_APIVersion := p\<rparr>)
      else if field = ''kind'' then Ok (f\<lparr>pf_Kind := p\<rparr>)
      else if field = ''metadata'' then Ok (f\<lparr>pf_Metadata := p\<rparr>)
      else if field = ''provider'' then Ok (f\<lparr>pf_Provider := p\<rparr>)
      else if field = ''prompt'' then Ok (f\<lparr>pf_Prompt := p\<rparr>)
      else if field = ''tools'' then Ok (f\<lparr>pf_Tools := p\<rparr>)
      else if field = ''policies'' then Ok (f\<lparr>pf_Policies := p\<rparr>)
      else if field = ''filters'' then Ok (f\<lparr>pf_Filters := p\<rparr>)
      else if field = ''budget'' then Ok (f\<lparr>pf_Budget := p\<rparr>)
      else if field = ''telemetry'' then Ok (f\<lparr>pf_Telemetry := p\<rparr>)
      else if field = ''credentials'' then Ok (f\<lparr>pf_Credentials := p\<rparr>)
      else if field = ''identity'' then Ok (f\<lparr>pf_Identity := p\<rparr>)
      else Panic ''setFieldProvenance: unknown field'')"

definition Role_String :: "Role \<Rightarrow> string" where
  "Role_String r = (case r of RoleBase \<Rightarrow> ''base'' | RoleParent \<Rightarrow> ''parent'' | RoleOverlay \<Rightarrow> ''overlay'')"

definition describe :: "Provenance \<Rightarrow> garg" where
  "describe p = (case pv_Role p of
     RoleBase \<Rightarrow> AStr ''base''
   | RoleParent \<Rightarrow>
       if pv_File p \<noteq> [] then AFmt ''%s #%d at %s:%d''
         [AStr ''parent'', AInt (pv_Step p), AStr (pv_File p), AInt (pv_Line p)]
       else AFmt ''%s #%d'' [AStr ''parent'', AInt (pv_Step p)]
   | RoleOverlay \<Rightarrow>
       if pv_File p \<noteq> [] then AFmt ''%s #%d at %s:%d''
         [AStr ''overlay'', AInt (pv_Step p), AStr (pv_File p), AInt (pv_Line p)]
       else AFmt ''%s #%d'' [AStr ''overlay'', AInt (pv_Step p)])"

section \<open>Locked fields\<close>

definition respectsLocks :: "AgentSpec \<Rightarrow> AgentOverlay \<Rightarrow> bool" where
  "respectsLocks base ov \<longleftrightarrow>
     (ov_APIVersion ov = [] \<or> ov_APIVersion ov = s_APIVersion base) \<and>
     (case ob_Metadata (ov_Spec ov) of None \<Rightarrow> True | Some om \<Rightarrow>
        (om_ID om = [] \<or> om_ID om = md_ID (s_Metadata base)) \<and>
        (om_Version om = [] \<or> om_Version om = md_Version (s_Metadata base)))"

lemma lockedField_msgs:
  "er_msgs (lockedField f i n got base errs) = [] \<longleftrightarrow> er_msgs errs = [] \<and> (got = [] \<or> got = base)"
  by (auto simp: lockedField_def)

lemma scanOne_msgs:
  "er_msgs (scanOne base i ov errs) = [] \<longleftrightarrow> er_msgs errs = [] \<and> respectsLocks base ov"
  by (auto simp: scanOne_def Let_def lockedField_msgs respectsLocks_def split: option.split)

lemma scan_msgs:
  "er_msgs (scanLockedDrift base i ovs errs) = [] \<longleftrightarrow>
     er_msgs errs = [] \<and> (\<forall>ov. Some ov \<in> set ovs \<longrightarrow> respectsLocks base ov)"
  by (induction base i ovs errs rule: scanLockedDrift.induct) (auto simp: scanOne_msgs)

text \<open>Every message of the scan comes with the sentinel.\<close>

definition allLocked :: "Errors \<Rightarrow> bool" where
  "allLocked e \<longleftrightarrow> length (er_sentinels e) = length (er_msgs e) \<and>
     set (er_sentinels e) \<subseteq> {Sentinel ErrLockedFieldOverride}"

lemma lockedField_all [simp, forge_inv]: "allLocked e \<Longrightarrow> allLocked (lockedField f i n g b e)"
  by (auto simp: allLocked_def lockedField_def)

lemma scan_allLocked: "allLocked e \<Longrightarrow> allLocked (scanLockedDrift base i ovs e)"
  by (induction base i ovs e rule: scanLockedDrift.induct)
    (auto simp: scanOne_def Let_def split: option.split)

lemma scan_error:
  assumes "OrNil (scanLockedDrift base i ovs noErrors) = Some err"
  shows "errors_is err ErrLockedFieldOverride \<and> errors_is err ErrValidation"
proof -
  let ?e = "scanLockedDrift base i ovs noErrors"
  from assms have "er_msgs ?e \<noteq> []" by (auto simp: OrNil_def split: if_splits)
  moreover have "allLocked ?e" by (rule scan_allLocked) (simp add: allLocked_def)
  ultimately have "list_ex (\<lambda>s. errors_is s ErrLockedFieldOverride) (er_sentinels ?e)"
    by (cases "er_sentinels ?e") (auto simp: allLocked_def)
  then show ?thesis using OrNil_is[OF assms] by (simp add: Errors_Is_def)
qed

lemma in_overlayLayers: "(ov, p) \<in> set (overlayLayers i ovs) \<Longrightarrow> Some ov \<in> set ovs"
  by (induction i ovs rule: overlayLayers.induct) auto

text \<open>
  Overlays that respect the locks leave a locked field at its merged value whenever the
  base sets it, since the merged value is then the base's own.
\<close>

lemma overlay_locked_pick:
  assumes "\<And>ov. Some ov \<in> set ovs \<Longrightarrow> respectsLocks base ov"
    and "\<And>ov. respectsLocks base ov \<Longrightarrow> isset ov \<Longrightarrow> val ov = b"
    and "\<And>ov. respectsLocks base ov \<Longrightarrow> isset ov \<Longrightarrow> m = b"
  shows "pickVal isset val m (overlayLayers i ovs) = m"
proof (cases "lastSet isset (overlayLayers i ovs)")
  case None
  then show ?thesis by (simp add: pickVal_def)
next
  case (Some w)
  then obtain ov p where w: "w = (ov, p)" by (cases w)
  from lastSet_mem[OF Some[unfolded w]] have "respectsLocks base ov" "isset ov"
    by (auto dest: in_overlayLayers intro: assms(1))
  with assms(2,3) Some w show ?thesis by (simp add: pickVal_def)
qed

lemma pickVal_base:
  "isset base \<Longrightarrow> pickVal isset val d (chainLayers ps base) = val base"
  by (simp add: pickVal_def chainLayers_def lastSet_snoc)

section \<open>What Normalize promises\<close>

lemma Normalize_Ok_iff:
  "Normalize ctx (Some s) ovs store = Ok ns \<longleftrightarrow>
     (\<exists>ps ch. resolveExtendsChain ctx s store = Ok (ps, ch) \<and> length ovs \<le> MaxOverlayCount \<and>
       ns = \<lparr>ns_Spec = overlaidSpec (layeredSpec (chainLayers ps s)) (overlayLayers 0 ovs),
             ns_ExtendsChain = ch,
             ns_Overlays = appended (map attribution (List.map_filter id ovs)),
             ns_fields = overlaidProv (layeredProv (chainLayers ps s)) (overlayLayers 0 ovs)\<rparr> \<and>
       Validate (ns_Spec ns) = None \<and>
       (\<forall>ov. Some ov \<in> set ovs \<longrightarrow> respectsLocks s ov))"
proof (cases "resolveExtendsChain ctx s store")
  case (Ok r)
  obtain ps ch where "r = (ps, ch)" by (cases r)
  with Ok show ?thesis
    by (auto simp: Normalize_def applyOverlays_layered mergeChain_layered scan_msgs)
qed (simp_all add: Normalize_def)

lemma Normalize_locked:
  assumes "Normalize ctx (Some s) ovs store = Ok ns"
  shows "s_APIVersion s \<noteq> [] \<Longrightarrow> s_APIVersion (ns_Spec ns) = s_APIVersion s"
    and "md_ID (s_Metadata s) \<noteq> [] \<Longrightarrow> md_ID (s_Metadata (ns_Spec ns)) = md_ID (s_Metadata s)"
    and "md_Version (s_Metadata s) \<noteq> [] \<Longrightarrow>
      md_Version (s_Metadata (ns_Spec ns)) = md_Version (s_Metadata s)"
proof -
  from assms obtain ps where
    ns: "ns_Spec ns = overlaidSpec (layeredSpec (chainLayers ps s)) (overlayLayers 0 ovs)"
    and locks: "\<And>ov. Some ov \<in> set ovs \<Longrightarrow> respectsLocks s ov"
    by (auto simp: Normalize_Ok_iff)
  show "s_APIVersion (ns_Spec ns) = s_APIVersion s" if "s_APIVersion s \<noteq> []"
    using that by (simp add: ns overlaidSpec_def layeredSpec_def pickVal_base)
  have "pickVal (overlaySets om_ID (\<lambda>v. v \<noteq> [])) (overlayMetaVal om_ID)
      (md_ID (s_Metadata s)) (overlayLayers 0 ovs) = md_ID (s_Metadata s)"
    by (rule overlay_locked_pick[OF locks])
      (auto simp: respectsLocks_def overlaySets_def overlayMetaVal_def split: option.splits)
  then show "md_ID (s_Metadata (ns_Spec ns)) = md_ID (s_Metadata s)" if "md_ID (s_Metadata s) \<noteq> []"
    using that by (simp add: ns overlaidSpec_def overlaidMetadata_def layeredSpec_def
        layeredMetadata_def pickVal_base)
  have "pickVal (overlaySets om_Version (\<lambda>v. v \<noteq> [])) (overlayMetaVal om_Version)
      (md_Version (s_Metadata s)) (overlayLayers 0 ovs) = md_Version (s_Metadata s)"
    by (rule overlay_locked_pick[OF locks])
      (auto simp: respectsLocks_def overlaySets_def overlayMetaVal_def split: option.splits)
  then show "md_Version (s_Metadata (ns_Spec ns)) = md_Version (s_Metadata s)"
    if "md_Version (s_Metadata s) \<noteq> []"
    using that by (simp add: ns overlaidSpec_def overlaidMetadata_def layeredSpec_def
        layeredMetadata_def pickVal_base)
qed

lemma Normalize_flat: "Normalize ctx (Some s) ovs store = Ok ns \<Longrightarrow> s_Extends (ns_Spec ns) = None"
  by (auto simp: Normalize_Ok_iff overlaidSpec_def layeredSpec_def)

lemma Normalize_noPanic:
  "noPanic (resolveExtendsChain ctx s store) \<Longrightarrow> noPanic (Normalize ctx (Some s) ovs store)"
  by (cases "resolveExtendsChain ctx s store")
    (auto simp: Normalize_def applyOverlays_def)

text \<open>A valid spec that extends nothing is the merge of itself alone, all from the base.\<close>

lemma pickVal_single:
  "pickVal isset val d [(l, p)] = (if isset l then val l else d)"
  by (simp add: pickVal_def)

lemma pickVal_nil [simp]: "pickVal isset val d [] = d" "pickProv isset adj p [] = p"
  by (simp_all add: pickVal_def pickProv_def)

lemma layered_alone:
  assumes "valid_spec s" "s_Extends s = None"
  shows "layeredSpec (chainLayers [] s) = s" "layeredProv (chainLayers [] s) = baseProvenance"
proof -
  have "[] \<notin> lang metadataIDRegexp" by (simp add: full_match_lang[symmetric]) code_simp
  then have i: "md_ID (s_Metadata s) \<noteq> []" using assms(1) by (auto simp: valid_spec_def valid_header_def)
  then have z: "\<not> isZeroMetadata (s_Metadata s)" by (simp add: isZeroMetadata_def)
  have p: "cr_Ref (s_Provider s) \<noteq> []"
    using assms(1) valid_id_nonempty by (auto simp: valid_spec_def valid_refs_def)
  have "layeredMetadata [(s, baseProv)] = s_Metadata s"
    by (rule Metadata.equality) (simp_all add: layeredMetadata_def pickVal_single setsOwners_def setsLabels_def z)
  moreover have "\<not> setsPrompt s \<Longrightarrow> s_Prompt s = s_Prompt zeroAgentSpec" "\<not> setsFilters s \<Longrightarrow> s_Filters s = s_Filters zeroAgentSpec"
    by (auto simp: setsPrompt_def setsFilters_def zeroAgentSpec_def)
  ultimately show "layeredSpec (chainLayers [] s) = s"
    using p assms(2) by (intro AgentSpec.equality) (simp_all add: layeredSpec_def chainLayers_def pickVal_single)
  show "layeredProv (chainLayers [] s) = baseProvenance"
    by (simp add: layeredProv_def chainLayers_def baseProvenance_def pickProv_def split: option.split prod.split)
qed

text \<open>The accessor reads what the hook wrote, and only that field changes.\<close>

definition provenanceNames :: "string list" where
  "provenanceNames = [''apiVersion'', ''kind'', ''metadata'', ''provider'', ''prompt'', ''tools'',
     ''policies'', ''filters'', ''budget'', ''telemetry'', ''credentials'', ''identity'']"

lemma setFieldProvenance_isOk: "isOk (setFieldProvenance n p f) \<longleftrightarrow> n \<in> set provenanceNames"
  by (simp add: setFieldProvenance_def provenanceNames_def)

lemma Provenance_of_known: "Provenance_of f path \<noteq> None \<longleftrightarrow> topField path \<in> set provenanceNames"
  by (simp add: Provenance_of_def Let_def provenanceNames_def)

lemma topField_names: "n \<in> set provenanceNames \<Longrightarrow> topField n = n"
  by (auto simp: provenanceNames_def topField_def)

section \<open>Properties\<close>

definition sampleSpec :: AgentSpec where
  "sampleSpec = zeroAgentSpec\<lparr>s_APIVersion := expectedAPIVersion, s_Kind := expectedKind,
     s_Metadata := zeroMetadata\<lparr>md_ID := ''acme.demo'', md_Version := ''0.1.0''\<rparr>,
     s_Provider := \<lparr>cr_Ref = ''provider.fake@1.0.0'', cr_Config = None\<rparr>,
     s_Prompt := \<lparr>pb_System = Some \<lparr>cr_Ref = ''prompt.sys@1.0.0'', cr_Config = None\<rparr>, pb_User = None\<rparr>,
     s_Tools := Some [\<lparr>cr_Ref = ''toolpack.http-get@1.0.0'', cr_Config = None\<rparr>]\<rparr>"

lemma sampleSpec_valid: "Validate sampleSpec = None"
  by code_simp

definition sampleOverlay :: AgentOverlay where
  "sampleOverlay = \<lparr>ov_APIVersion = expectedAPIVersion, ov_Kind = ''AgentOverlay'', ov_Name = ''prod'',
     ov_Spec = emptyBody\<lparr>ob_Tools := \<lparr>rl_Set = True, rl_Items = Some [], rl_Line = 7\<rparr>\<rparr>, ov_File = ''prod.yaml''\<rparr>"

definition sampleNormalized :: NormalizedSpec where
  "sampleNormalized = \<lparr>ns_Spec = sampleSpec\<lparr>s_Tools := Some []\<rparr>, ns_ExtendsChain = None,
     ns_Overlays = Some [\<lparr>oa_Name = ''prod'', oa_File = ''prod.yaml''\<rparr>],
     ns_fields = baseProvenance\<lparr>pf_Tools := \<lparr>pv_File = ''prod.yaml'', pv_Line = 7, pv_Role = RoleOverlay, pv_Step = 0\<rparr>\<rparr>\<rparr>"

lemma sample_applies:
  "applyOverlays [Some sampleOverlay] (mergeChain [] sampleSpec) =
     Ok (ns_Spec sampleNormalized, ns_fields sampleNormalized)"
  by code_simp

lemma sample_result_valid: "Validate (ns_Spec sampleNormalized) = None"
  by code_simp

lemma sample_unlocked: "er_msgs (scanLockedDrift sampleSpec 0 [Some sampleOverlay] noErrors) = []"
  by code_simp

lemma sample_normalizes: "Normalize background (Some sampleSpec) [Some sampleOverlay] None = Ok sampleNormalized"
proof -
  have "elems (s_Extends sampleSpec) = []" by (simp add: sampleSpec_def zeroAgentSpec_def)
  then show ?thesis
    by (simp add: Normalize_def resolveExtendsChain_def sample_applies sample_result_valid sample_unlocked
        del: scanLockedDrift.simps)
      (simp add: sampleNormalized_def appended_def attribution_def sampleOverlay_def List.map_filter_simps)
qed

text \<open>C1. Normalization succeeds exactly when the \<^verbatim>\<open>extends\<close> chain resolves, there are at
  most sixteen overlays, the composed spec is valid, and no overlay contradicts a locked
  field of the base; the result is then the layered merge of the chain with the overlays on
  top, its provenance mirror, the chain, and one attribution per non-nil overlay in order.\<close>

theorem Normalize_refines:
  "Normalize ctx (Some s) ovs store = Ok ns \<longleftrightarrow>
     (\<exists>ps ch. resolveExtendsChain ctx s store = Ok (ps, ch) \<and> length ovs \<le> MaxOverlayCount \<and>
       ns = \<lparr>ns_Spec = overlaidSpec (layeredSpec (chainLayers ps s)) (overlayLayers 0 ovs),
             ns_ExtendsChain = ch,
             ns_Overlays = appended (map attribution (List.map_filter id ovs)),
             ns_fields = overlaidProv (layeredProv (chainLayers ps s)) (overlayLayers 0 ovs)\<rparr> \<and>
       valid_spec (ns_Spec ns) \<and>
       (\<forall>ov. Some ov \<in> set ovs \<longrightarrow> respectsLocks s ov))"
  by (simp add: Normalize_Ok_iff Validate_None_iff)

theorem Normalize_refines_witness:
  "valid_spec (ns_Spec sampleNormalized) \<and> respectsLocks sampleSpec sampleOverlay"
  using Normalize_refines[of background sampleSpec "[Some sampleOverlay]" None sampleNormalized] sample_normalizes
  by auto

text \<open>C8. A normalized spec is valid and has no \<^verbatim>\<open>extends\<close> left, and where the base sets
  apiVersion, metadata.id or metadata.version, no parent and no overlay changes it.\<close>

theorem Normalize_keeps_locked_fields:
  assumes "Normalize ctx (Some s) ovs store = Ok ns"
  shows "valid_spec (ns_Spec ns) \<and> s_Extends (ns_Spec ns) = None \<and>
    (s_APIVersion s \<noteq> [] \<longrightarrow> s_APIVersion (ns_Spec ns) = s_APIVersion s) \<and>
    (md_ID (s_Metadata s) \<noteq> [] \<longrightarrow> md_ID (s_Metadata (ns_Spec ns)) = md_ID (s_Metadata s)) \<and>
    (md_Version (s_Metadata s) \<noteq> [] \<longrightarrow> md_Version (s_Metadata (ns_Spec ns)) = md_Version (s_Metadata s))"
  using Normalize_locked[OF assms] Normalize_flat[OF assms] assms
  by (auto simp: Normalize_Ok_iff Validate_None_iff)

theorem Normalize_keeps_locked_fields_witness:
  "md_ID (s_Metadata (ns_Spec sampleNormalized)) = ''acme.demo'' \<and> s_Extends (ns_Spec sampleNormalized) = None"
  using Normalize_keeps_locked_fields[OF sample_normalizes] by (simp add: sampleSpec_def)

text \<open>C9. Normalization is idempotent: the spec it returns, normalized again with no overlays, whatever
  the context and the store, is returned unchanged, with an empty chain, no overlays and everything
  attributed to the base. So a normalized spec can be stored and built from later.\<close>

theorem Normalize_idempotent:
  assumes "Normalize ctx (Some s) ovs store = Ok ns"
  shows "Normalize ctx' (Some (ns_Spec ns)) [] store' = Ok \<lparr>ns_Spec = ns_Spec ns, ns_ExtendsChain = None, ns_Overlays = None,
    ns_fields = baseProvenance\<rparr>"
proof -
  have v: "valid_spec (ns_Spec ns)" "Validate (ns_Spec ns) = None" using assms by (auto simp: Normalize_Ok_iff Validate_None_iff)
  have f: "s_Extends (ns_Spec ns) = None" using Normalize_flat[OF assms] .
  have o1: "overlaidSpec m [] = m" "overlaidProv g [] = g" for m g
    by (simp_all add: overlaidSpec_def overlaidProv_def overlaidMetadata_def overlaidFilters_def)
  show ?thesis
    using v(2) f by (simp add: Normalize_Ok_iff resolveExtendsChain_def layered_alone[OF v(1) f] o1 appended_def map_filter_simps)
qed

theorem Normalize_idempotent_witness:
  "Normalize background (Some (ns_Spec sampleNormalized)) [] None = Ok \<lparr>ns_Spec = ns_Spec sampleNormalized, ns_ExtendsChain = None,
     ns_Overlays = None, ns_fields = baseProvenance\<rparr>"
  by (rule Normalize_idempotent[OF sample_normalizes])

text \<open>When everything else is in order, an overlay that contradicts a locked field of the
  base makes normalization fail with an error that is both \<^verbatim>\<open>ErrLockedFieldOverride\<close> and
  \<^verbatim>\<open>ErrValidation\<close>.\<close>

theorem Normalize_rejects_locked_override:
  assumes "resolveExtendsChain ctx s store = Ok (ps, ch)" and "length ovs \<le> MaxOverlayCount"
    and "Validate (overlaidSpec (layeredSpec (chainLayers ps s)) (overlayLayers 0 ovs)) = None"
    and "Some ov \<in> set ovs" and "\<not> respectsLocks s ov"
  shows "\<exists>e. Normalize ctx (Some s) ovs store = Err e \<and> errors_is e ErrLockedFieldOverride \<and> errors_is e ErrValidation"
proof -
  have ap: "applyOverlays ovs (mergeChain ps s) = Ok (overlaidSpec (layeredSpec (chainLayers ps s)) (overlayLayers 0 ovs),
      overlaidProv (layeredProv (chainLayers ps s)) (overlayLayers 0 ovs))"
    using assms(2) by (simp add: applyOverlays_layered mergeChain_layered)
  have "OrNil (scanLockedDrift s 0 ovs noErrors) \<noteq> None"
    using assms(4,5) by (auto simp: scan_msgs simp del: not_None_eq)
  then obtain e where "OrNil (scanLockedDrift s 0 ovs noErrors) = Some e" by blast
  with scan_error[OF this] show ?thesis by (simp add: Normalize_def assms(1,3) ap)
qed

definition driftOverlay :: AgentOverlay where
  "driftOverlay = sampleOverlay\<lparr>ov_APIVersion := ''forge.praxis-os.dev/v1''\<rparr>"

theorem Normalize_rejects_locked_override_witness:
  "\<exists>e. Normalize background (Some sampleSpec) [Some driftOverlay] None = Err e \<and> errors_is e ErrLockedFieldOverride \<and>
     errors_is e ErrValidation"
proof (rule Normalize_rejects_locked_override[where ps = "[]" and ch = None and ov = driftOverlay])
  show "resolveExtendsChain background sampleSpec None = Ok ([], None)"
    by (simp add: resolveExtendsChain_def sampleSpec_def zeroAgentSpec_def)
  show "length [Some driftOverlay] \<le> MaxOverlayCount" by (simp add: MaxOverlayCount_def)
  show "Validate (overlaidSpec (layeredSpec (chainLayers [] sampleSpec)) (overlayLayers 0 [Some driftOverlay])) = None"
    by code_simp
  show "\<not> respectsLocks sampleSpec driftOverlay"
    by (simp add: respectsLocks_def driftOverlay_def sampleSpec_def expectedAPIVersion_def)
qed simp

text \<open>Normalization never dereferences nil as long as the store neither panics nor hands
  out a nil spec; nil overlays are tolerated.\<close>

theorem Normalize_never_panics:
  assumes "\<And>ld n ref. store = Some ld \<Longrightarrow> noPanic (ld ctx n ref) \<and> ld ctx n ref \<noteq> Ok None"
  shows "noPanic (Normalize ctx (Some s) ovs store)"
proof (rule Normalize_noPanic)
  show "noPanic (resolveExtendsChain ctx s store)"
    using assms by (auto simp: resolveExtendsChain_def intro!: noPanic_bindR walk_noPanic split: option.split)
qed

theorem Normalize_never_panics_witness:
  "noPanic (Normalize background (Some sampleLeaf) [None] (Some (MapSpecStore_Load (specMap sampleStore))))"
  by (rule Normalize_never_panics) (use mapStore.load_noPanic in blast)

text \<open>The provenance accessor, asked for a top-level field or anything nested below it,
  returns what the internal hook last recorded for that field; writing one field leaves the
  answers for all others unchanged.\<close>

theorem Provenance_reads_back:
  assumes "setFieldProvenance n p f = Ok f'"
  shows "Provenance_of f' path = (if topField path = n then Some p else Provenance_of f path)"
  using assms by (auto simp: setFieldProvenance_def Provenance_of_def Let_def split: if_splits)

theorem Provenance_reads_back_witness:
  "Provenance_of (baseProvenance\<lparr>pf_Filters := overlayProv 2 sampleOverlay\<rparr>) ''filters.preLLM'' =
     Some (overlayProv 2 sampleOverlay)"
  using Provenance_reads_back[of "''filters''" "overlayProv 2 sampleOverlay" baseProvenance
      "baseProvenance\<lparr>pf_Filters := overlayProv 2 sampleOverlay\<rparr>" "''filters.preLLM''"]
  by (simp add: setFieldProvenance_def topField_def)

end
