(* ===== verification/GoJson.thy ===== *)
theory GoJson
  imports GoUtf8 "HOL-Library.List_Lexorder" "HOL-Library.Char_ord" "HOL-Library.AList"
begin

text \<open>
  What the sources use of \<^verbatim>\<open>encoding/json\<close>: string quoting (with the HTML escaping
  \<^verbatim>\<open>json.Marshal\<close> always applies), number literals for integers and floats, and the
  tree \<^verbatim>\<open>Decoder.Decode\<close> with \<^verbatim>\<open>UseNumber\<close> builds from marshalled text. The text
  between \<^verbatim>\<open>Marshal\<close> and \<^verbatim>\<open>Decode\<close> is not represented: \<open>toJSON\<close> is the tree
  obtained by marshalling a value and decoding the result, in which strings are valid
  UTF-8 and numbers are the literals that were printed.
\<close>

section \<open>Strings\<close>

definition backslash :: char where
  "backslash = CHR 0x5C"

definition hexDigit :: "nat \<Rightarrow> char" where
  "hexDigit n = ''0123456789abcdef'' ! (n mod 16)"

text \<open>\<^verbatim>\<open>htmlSafeSet\<close> of \<^verbatim>\<open>encoding/json\<close>: printed as it is.\<close>

definition htmlSafe :: "char \<Rightarrow> bool" where
  "htmlSafe c \<longleftrightarrow> 32 \<le> byte c \<and> byte c < 128 \<and>
     c \<notin> {CHR 0x22, CHR ''&'', CHR ''<'', CHR ''>'', backslash}"

definition escByte :: "char \<Rightarrow> string" where
  "escByte c =
     (if htmlSafe c then [c]
      else if c = backslash \<or> c = CHR 0x22 then [backslash, c]
      else if byte c = 8 then [backslash, CHR ''b'']
      else if byte c = 12 then [backslash, CHR ''f'']
      else if byte c = 10 then [backslash, CHR ''n'']
      else if byte c = 13 then [backslash, CHR ''r'']
      else if byte c = 9 then [backslash, CHR ''t'']
      else [backslash, CHR ''u'', CHR ''0'', CHR ''0'', hexDigit (byte c div 16), hexDigit (byte c)])"

text \<open>The rune step: the replaced text and the number of bytes consumed.\<close>

definition badRune :: "string \<Rightarrow> bool" where
  "badRune s \<longleftrightarrow> decode_rune s = (runeError, 1)"

definition escRune :: "string \<Rightarrow> string" where
  "escRune s =
     (let (r, w) = decode_rune s in
      if badRune s then backslash # ''ufffd''
      else if r = 8232 \<or> r = 8233 then backslash # ''u202'' @ [hexDigit r]
      else take w s)"

function esc :: "string \<Rightarrow> string" where
  "esc [] = []"
| "esc (c # cs) =
     (if byte c < 128 then escByte c @ esc cs
      else escRune (c # cs) @ esc (drop (snd (decode_rune (c # cs))) (c # cs)))"
  by pat_completeness auto
termination
  by (relation "measure length") (use decode_rune_width_pos in \<open>auto intro!: diff_less\<close>)

definition quote :: "string \<Rightarrow> string" where
  "quote s = CHR 0x22 # esc s @ [CHR 0x22]"

text \<open>What decoding the quoted string gives: each malformed byte becomes U+FFFD.\<close>

function sanitize :: "string \<Rightarrow> string" where
  "sanitize [] = []"
| "sanitize (c # cs) =
     (if badRune (c # cs) then [CHR 0xEF, CHR 0xBF, CHR 0xBD] @ sanitize cs
      else take (snd (decode_rune (c # cs))) (c # cs) @
           sanitize (drop (snd (decode_rune (c # cs))) (c # cs)))"
  by pat_completeness auto
termination
  by (relation "measure length") (use decode_rune_width_pos in \<open>auto intro!: diff_less\<close>)

function valid_utf8 :: "string \<Rightarrow> bool" where
  "valid_utf8 [] = True"
| "valid_utf8 (c # cs) =
     (\<not> badRune (c # cs) \<and> valid_utf8 (drop (snd (decode_rune (c # cs))) (c # cs)))"
  by pat_completeness auto
termination
  by (relation "measure length") (use decode_rune_width_pos in \<open>auto intro!: diff_less\<close>)

declare esc.simps(2) [simp del] sanitize.simps(2) [simp del] valid_utf8.simps(2) [simp del]

text \<open>
  Reading a quoted string back, up to the closing quote: the inverse the decoder
  applies. Only the escapes the encoder produces are read.
\<close>

definition hexVal :: "char \<Rightarrow> nat option" where
  "hexVal c = (if CHR ''0'' \<le> c \<and> c \<le> CHR ''9'' then Some (byte c - 48)
     else if CHR ''a'' \<le> c \<and> c \<le> CHR ''f'' then Some (byte c - 87) else None)"

definition utf8 :: "nat \<Rightarrow> string" where
  "utf8 r = map char_of (if r < 128 then [r]
     else if r < 2048 then [192 + r div 64, 128 + r mod 64]
     else [224 + r div 4096, 128 + (r div 64) mod 64, 128 + r mod 64])"

definition unhex :: "char \<Rightarrow> char \<Rightarrow> char \<Rightarrow> char \<Rightarrow> nat option" where
  "unhex a b c d = (case (hexVal a, hexVal b, hexVal c, hexVal d) of
     (Some a, Some b, Some c, Some d) \<Rightarrow> Some (((a * 16 + b) * 16 + c) * 16 + d) | _ \<Rightarrow> None)"

fun unescShort :: "char \<Rightarrow> char option" where
  "unescShort c = (if c = CHR 0x22 \<or> c = backslash then Some c
     else if c = CHR ''b'' then Some (char_of (8::nat)) else if c = CHR ''f'' then Some (char_of (12::nat))
     else if c = CHR ''n'' then Some (char_of (10::nat)) else if c = CHR ''r'' then Some (char_of (13::nat))
     else if c = CHR ''t'' then Some (char_of (9::nat)) else None)"

fun unesc :: "string \<Rightarrow> (string \<times> string) option" where
  "unesc [] = None"
| "unesc (c # cs) =
     (if c = CHR 0x22 then Some ([], cs)
      else if c = backslash then
        (case cs of
           [] \<Rightarrow> None
         | e # ds \<Rightarrow>
             (case unescShort e of
                Some x \<Rightarrow> map_option (apfst (Cons x)) (unesc ds)
              | None \<Rightarrow>
                  if e \<noteq> CHR ''u'' then None
                  else (case ds of
                    h1 # h2 # h3 # h4 # es \<Rightarrow>
                      (case unhex h1 h2 h3 h4 of None \<Rightarrow> None
                       | Some r \<Rightarrow> map_option (apfst (append (utf8 r))) (unesc es))
                  | _ \<Rightarrow> None)))
      else map_option (apfst (Cons c)) (unesc cs))"

subsection \<open>Quoting is injective on valid UTF-8\<close>

lemma byte_eq_iff: "byte c = byte d \<longleftrightarrow> c = d"
  unfolding byte_def by simp

lemma char_of_byte [simp]: "char_of (byte c) = c"
  by (simp add: byte_def)

lemma byte_char_of: "n < 256 \<Longrightarrow> byte (char_of n) = n"
  by (simp add: byte_def)

lemma byte_less: "byte c < 256"
  by (simp add: byte_def)

lemma hexVal_hexDigit: "hexVal (hexDigit n) = Some (n mod 16)"
proof -
  have "\<forall>m \<in> set [0..<16]. hexVal (''0123456789abcdef'' ! m) = Some m" by code_simp
  then show ?thesis by (simp add: hexDigit_def)
qed

lemma unesc_raw:
  "c \<noteq> CHR 0x22 \<Longrightarrow> c \<noteq> backslash \<Longrightarrow> unesc (c # r) = map_option (apfst (Cons c)) (unesc r)"
  by simp

lemma unesc_quote: "unesc (CHR 0x22 # r) = Some ([], r)"
  by simp

lemma unesc_short:
  "unescShort e = Some x \<Longrightarrow> unesc (backslash # e # r) = map_option (apfst (Cons x)) (unesc r)"
  by (simp add: backslash_def del: unescShort.simps)

lemma unesc_u:
  "unhex a b c d = Some n \<Longrightarrow>
     unesc (backslash # CHR ''u'' # a # b # c # d # r) = map_option (apfst (append (utf8 n))) (unesc r)"
  by (simp add: backslash_def)

declare unesc.simps(2) [simp del]

lemma unesc_append_raw:
  assumes "\<And>c. c \<in> set u \<Longrightarrow> c \<noteq> CHR 0x22 \<and> c \<noteq> backslash"
  shows "unesc (u @ r) = map_option (apfst (append u)) (unesc r)"
  using assms
proof (induction u)
  case Nil
  then show ?case by (cases "unesc r") auto
next
  case (Cons c u)
  then have "unesc ((c # u) @ r) = map_option (apfst (Cons c)) (unesc (u @ r))"
    by (simp add: unesc_raw)
  with Cons show ?case by (cases "unesc r") auto
qed

lemma unhex_byte:
  assumes "byte c < 128"
  shows "unhex (CHR ''0'') (CHR ''0'') (hexDigit (byte c div 16)) (hexDigit (byte c)) = Some (byte c)"
proof -
  have "byte c div 16 mod 16 = byte c div 16" using assms by simp
  moreover have "hexVal (CHR ''0'') = Some 0" by code_simp
  ultimately show ?thesis by (simp add: unhex_def hexVal_hexDigit)
qed

lemma char_of_eq: "byte c = n \<Longrightarrow> char_of n = c"
  using char_of_byte by blast

lemma escByte_forms:
  "(htmlSafe c \<and> escByte c = [c]) \<or>
   (\<exists>e. escByte c = [backslash, e] \<and> unescShort e = Some c) \<or>
   escByte c = [backslash, CHR ''u'', CHR ''0'', CHR ''0'', hexDigit (byte c div 16), hexDigit (byte c)]"
proof -
  have short: "unescShort (CHR ''b'') = Some (char_of (8::nat))" "unescShort (CHR ''f'') = Some (char_of (12::nat))"
    "unescShort (CHR ''n'') = Some (char_of (10::nat))" "unescShort (CHR ''r'') = Some (char_of (13::nat))"
    "unescShort (CHR ''t'') = Some (char_of (9::nat))"
    "c = backslash \<or> c = CHR 0x22 \<Longrightarrow> unescShort c = Some c"
    by (auto simp: backslash_def)
  then show ?thesis
    unfolding escByte_def
    by (simp del: unescShort.simps split: if_split) (metis char_of_eq)
qed

lemma unesc_escByte:
  assumes "byte c < 128"
  shows "unesc (escByte c @ r) = map_option (apfst (Cons c)) (unesc r)"
  using escByte_forms[of c]
proof (elim disjE conjE exE)
  assume "htmlSafe c" "escByte c = [c]"
  then show ?thesis by (simp add: htmlSafe_def unesc_raw)
next
  fix e
  assume "escByte c = [backslash, e]" "unescShort e = Some c"
  then show ?thesis by (simp add: unesc_short del: unescShort.simps)
next
  assume *: "escByte c = [backslash, CHR ''u'', CHR ''0'', CHR ''0'', hexDigit (byte c div 16), hexDigit (byte c)]"
  have "utf8 (byte c) = [c]" using assms by (simp add: utf8_def)
  moreover have "append [c] = Cons c" by (simp add: fun_eq_iff)
  ultimately show ?thesis using unesc_u[OF unhex_byte[OF assms]] by (simp add: *)
qed

text \<open>The three shapes of a well-formed rune outside ASCII.\<close>

lemma rune_forms:
  assumes "\<not> byte c < 128" and "\<not> badRune (c # cs)"
  shows "(\<exists>c1 r. cs = c1 # r \<and> 194 \<le> byte c \<and> byte c \<le> 223 \<and> second_ok (byte c) (byte c1) \<and>
      decode_rune (c # cs) = ((byte c - 192) * 64 + (byte c1 - 128), 2)) \<or>
    (\<exists>c1 c2 r. cs = c1 # c2 # r \<and> 224 \<le> byte c \<and> byte c \<le> 239 \<and> second_ok (byte c) (byte c1) \<and>
      cont (byte c2) \<and>
      decode_rune (c # cs) = ((byte c - 224) * 4096 + (byte c1 - 128) * 64 + (byte c2 - 128), 3)) \<or>
    (\<exists>c1 c2 c3 r. cs = c1 # c2 # c3 # r \<and> 240 \<le> byte c \<and> byte c \<le> 244 \<and>
      second_ok (byte c) (byte c1) \<and> cont (byte c2) \<and> cont (byte c3) \<and>
      decode_rune (c # cs) =
        ((byte c - 240) * 262144 + (byte c1 - 128) * 4096 + (byte c2 - 128) * 64 + (byte c3 - 128), 4))"
proof -
  from assms(2) have "decode_rune (c # cs) \<noteq> (runeError, 1)" by (simp add: badRune_def)
  with assms(1) show ?thesis
    by (cases cs; cases "tl cs"; cases "tl (tl cs)") (simp_all add: decode_rune_def split: if_split_asm)
qed

lemma second_ok_bounds: "second_ok b0 b1 \<Longrightarrow> 128 \<le> b1 \<and> b1 \<le> 191"
  by (auto simp: second_ok_def cont_def split: if_splits)

lemma rune_bytes_high:
  assumes "\<not> byte c < 128" and "\<not> badRune (c # cs)"
    and "b \<in> set (take (snd (decode_rune (c # cs))) (c # cs))"
  shows "128 \<le> byte b"
  using rune_forms[OF assms(1,2)] assms(1,3)
  by (elim disjE exE conjE) (auto simp: cont_def dest: second_ok_bounds)

lemma decode_rune_2028:
  assumes "\<not> byte c < 128" and "\<not> badRune (c # cs)"
    and "fst (decode_rune (c # cs)) = 8232 \<or> fst (decode_rune (c # cs)) = 8233"
  shows "take (snd (decode_rune (c # cs))) (c # cs) = utf8 (fst (decode_rune (c # cs)))"
  using rune_forms[OF assms(1,2)]
proof (elim disjE exE conjE)
  fix c1 r
  assume 2: "cs = c1 # r" "byte c \<le> 223" "second_ok (byte c) (byte c1)"
    "decode_rune (c # cs) = ((byte c - 192) * 64 + (byte c1 - 128), 2)"
  have "(byte c - 192) * 64 + (byte c1 - 128) < 8232"
    using 2(2) second_ok_bounds[OF 2(3)] by linarith
  with assms(3) 2(4) show ?thesis by simp
next
  fix c1 c2 r
  assume 3: "cs = c1 # c2 # r" "224 \<le> byte c" "second_ok (byte c) (byte c1)" "cont (byte c2)"
    "decode_rune (c # cs) = ((byte c - 224) * 4096 + (byte c1 - 128) * 64 + (byte c2 - 128), 3)"
  let ?n = "fst (decode_rune (c # cs))"
  define x y z where "x = byte c - 224" and "y = byte c1 - 128" and "z = byte c2 - 128"
  have yz: "y < 64" "z < 64" using second_ok_bounds[OF 3(3)] 3(4) by (auto simp: y_def z_def cont_def)
  have n: "?n = (x * 64 + y) * 64 + z" using 3(5) by (simp add: x_def y_def z_def)
  have d: "?n mod 64 = z" "?n div 64 = x * 64 + y" using yz unfolding n
    by (simp_all only: mod_mult_self3 div_mult_self3 mod_less div_less)
  moreover have "?n div 64 mod 64 = y" using yz by (simp add: d)
  moreover have "?n div 4096 = ?n div 64 div 64" by (simp only: div_mult2_eq[symmetric]) simp
  then have "?n div 4096 = x" using yz by (simp add: d)
  moreover have "byte c = 224 + x" "byte c1 = 128 + y" "byte c2 = 128 + z"
    using 3(2) second_ok_bounds[OF 3(3)] 3(4) by (auto simp: x_def y_def z_def cont_def)
  then have "c = char_of (224 + x)" "c1 = char_of (128 + y)" "c2 = char_of (128 + z)"
    by (metis char_of_byte)+
  ultimately show ?thesis using assms(3) 3(1,5) by (auto simp: utf8_def)
next
  fix c1 c2 c3 r
  assume 4: "240 \<le> byte c" "second_ok (byte c) (byte c1)"
    "decode_rune (c # cs) =
      ((byte c - 240) * 262144 + (byte c1 - 128) * 4096 + (byte c2 - 128) * 64 + (byte c3 - 128), 4)"
  have "8233 < (byte c - 240) * 262144 + (byte c1 - 128) * 4096 + (byte c2 - 128) * 64 + (byte c3 - 128)"
  proof (cases "byte c = 240")
    case True
    with 4(2) have "144 \<le> byte c1" by (simp add: second_ok_def)
    then show ?thesis by linarith
  next
    case False
    with 4(1) have "241 \<le> byte c" by simp
    then show ?thesis by linarith
  qed
  with assms(3) 4(3) show ?thesis by simp
qed

lemma unesc_escRune:
  assumes "\<not> byte c < 128" and "\<not> badRune (c # cs)"
  shows "unesc (escRune (c # cs) @ r) =
    map_option (apfst (append (take (snd (decode_rune (c # cs))) (c # cs)))) (unesc r)"
proof (cases "fst (decode_rune (c # cs)) = 8232 \<or> fst (decode_rune (c # cs)) = 8233")
  case True
  have two: "hexVal (CHR ''2'') = Some 2" "hexVal (CHR ''0'') = Some 0" by code_simp+
  have "unhex (CHR ''2'') (CHR ''0'') (CHR ''2'') (hexDigit 8232) = Some 8232"
    "unhex (CHR ''2'') (CHR ''0'') (CHR ''2'') (hexDigit 8233) = Some 8233"
    by (simp_all add: unhex_def hexVal_hexDigit two)
  with True show ?thesis
    using unesc_u decode_rune_2028[OF assms True] assms(2)
    by (auto simp: escRune_def split: prod.splits)
next
  case False
  have "b \<noteq> CHR 0x22 \<and> b \<noteq> backslash" if "b \<in> set (take (snd (decode_rune (c # cs))) (c # cs))" for b
    using rune_bytes_high[OF assms that] by (auto simp: byte_def backslash_def)
  then have "unesc (take (snd (decode_rune (c # cs))) (c # cs) @ r) =
      map_option (apfst (append (take (snd (decode_rune (c # cs))) (c # cs)))) (unesc r)"
    by (rule unesc_append_raw)
  with False assms(2) show ?thesis by (simp add: escRune_def case_prod_unfold)
qed

lemma unesc_esc: "valid_utf8 s \<Longrightarrow> unesc (esc s @ CHR 0x22 # r) = Some (s, r)"
proof (induction s rule: esc.induct)
  case 1
  then show ?case by (simp add: unesc_quote)
next
  case (2 c cs)
  show ?case
  proof (cases "byte c < 128")
    case True
    with "2.prems" have "valid_utf8 cs" by (simp add: valid_utf8.simps decode_rune_ascii)
    with 2 True show ?thesis by (simp add: esc.simps unesc_escByte)
  next
    case False
    with "2.prems" have "\<not> badRune (c # cs)" "valid_utf8 (drop (snd (decode_rune (c # cs))) (c # cs))"
      by (simp_all add: valid_utf8.simps)
    with 2 False show ?thesis by (simp add: esc.simps unesc_escRune)
  qed
qed

lemma quote_inject:
  assumes "quote s @ r = quote s' @ r'" and "valid_utf8 s" and "valid_utf8 s'"
  shows "s = s' \<and> r = r'"
proof -
  from assms(1) have "esc s @ CHR 0x22 # r = esc s' @ CHR 0x22 # r'" by (simp add: quote_def)
  then have "unesc (esc s @ CHR 0x22 # r) = unesc (esc s' @ CHR 0x22 # r')" by simp
  with unesc_esc[OF assms(2)] unesc_esc[OF assms(3)] show ?thesis by simp
qed

subsection \<open>Decoded strings are valid UTF-8\<close>

lemma decode_rune_append:
  assumes "\<not> badRune (c # cs)"
  shows "decode_rune (take (snd (decode_rune (c # cs))) (c # cs) @ t) = decode_rune (c # cs)"
proof (cases "byte c < 128")
  case True
  then show ?thesis by (simp add: decode_rune_ascii)
next
  case False
  from rune_forms[OF False assms] False show ?thesis
    by (elim disjE exE conjE) (simp_all add: decode_rune_def)
qed

lemma rune_nonempty: "\<exists>d ds. take (snd (decode_rune (c # cs))) (c # cs) = d # ds"
  using decode_rune_width_pos[of "c # cs"] by (cases "snd (decode_rune (c # cs))") auto

lemma valid_utf8_append_rune:
  assumes "\<not> badRune (c # cs)" and "valid_utf8 t"
  shows "valid_utf8 (take (snd (decode_rune (c # cs))) (c # cs) @ t)"
proof -
  let ?u = "take (snd (decode_rune (c # cs))) (c # cs)"
  obtain d ds where u: "?u = d # ds" using rune_nonempty by blast
  have dec: "decode_rune (d # ds @ t) = decode_rune (c # cs)"
    using decode_rune_append[OF assms(1), of t] u by simp
  have "length ?u = snd (decode_rune (c # cs))" using decode_rune_width[of "c # cs"] by simp
  then have "drop (snd (decode_rune (c # cs))) (?u @ t) = t" by simp
  then have "drop (snd (decode_rune (c # cs))) (d # ds @ t) = t" by (simp only: u append_Cons)
  with dec assms u show ?thesis by (simp add: valid_utf8.simps badRune_def)
qed

lemma valid_utf8_sanitize [simp]: "valid_utf8 (sanitize s)"
proof (induction s rule: sanitize.induct)
  case (2 c cs)
  have repl: "\<not> badRune [CHR 0xEF, CHR 0xBF, CHR 0xBD]"
    "decode_rune [CHR 0xEF, CHR 0xBF, CHR 0xBD] = (65533, 3)"
    by (simp_all add: badRune_def decode_rune_def byte_def second_ok_def cont_def)
  show ?case
    using 2 valid_utf8_append_rune[OF repl(1)] valid_utf8_append_rune[of c cs]
    by (simp add: sanitize.simps repl(2))
qed simp

lemma sanitize_valid: "valid_utf8 s \<Longrightarrow> sanitize s = s"
  by (induction s rule: sanitize.induct) (simp_all add: sanitize.simps valid_utf8.simps)

section \<open>Number literals\<close>

definition digitChar :: "nat \<Rightarrow> char" where
  "digitChar n = char_of (48 + n mod 10)"

fun decNat :: "nat \<Rightarrow> string" where
  "decNat n = (if n < 10 then [digitChar n] else decNat (n div 10) @ [digitChar n])"

declare decNat.simps [simp del]

definition decInt :: "int \<Rightarrow> string" where
  "decInt i = (if i < 0 then CHR ''-'' # decNat (nat (- i)) else decNat (nat i))"

text \<open>
  \<^verbatim>\<open>strconv.FormatFloat(f, _, -1, 64)\<close>: the shortest decimal that reads back as the
  same float64, nearest to it among those. A finite float is \<open>m * 2 ^ e\<close>; a decimal
  reads back as it when it lies between the midpoints to its neighbours (inclusive when
  the mantissa is even). \<open>scaled\<close> gives a rational as a fraction of naturals.
\<close>

definition fracBits :: "64 word \<Rightarrow> nat" where
  "fracBits w = unat w mod 2 ^ 52"

definition expBits :: "64 word \<Rightarrow> nat" where
  "expBits w = unat w div 2 ^ 52 mod 2 ^ 11"

definition mantissa :: "64 word \<Rightarrow> nat" where
  "mantissa w = (if expBits w = 0 then fracBits w else 2 ^ 52 + fracBits w)"

definition binExp :: "64 word \<Rightarrow> int" where
  "binExp w = (if expBits w = 0 then - 1074 else int (expBits w) - 1075)"

definition scaled :: "nat \<Rightarrow> int \<Rightarrow> nat \<times> nat" where
  "scaled m e = (if 0 \<le> e then (m * 2 ^ nat e, 1) else (m, 2 ^ nat (- e)))"

definition timesTen :: "nat \<times> nat \<Rightarrow> int \<Rightarrow> nat \<times> nat" where
  "timesTen q k = (if 0 \<le> k then (fst q * 10 ^ nat k, snd q) else (fst q, snd q * 10 ^ nat (- k)))"

definition fracLess :: "nat \<times> nat \<Rightarrow> nat \<times> nat \<Rightarrow> bool" where
  "fracLess p q \<longleftrightarrow> fst p * snd q < fst q * snd p"

definition roundHalfEven :: "nat \<times> nat \<Rightarrow> nat" where
  "roundHalfEven q = (let d = fst q div snd q; r = fst q mod snd q in
     if 2 * r < snd q \<or> (2 * r = snd q \<and> even d) then d else d + 1)"

definition decimalPoint :: "nat \<times> nat \<Rightarrow> int" where
  "decimalPoint v = (case List.find (\<lambda>k. fracLess v (timesTen (1, 1) k)) (map (\<lambda>i. int i - 330) [0..<650])
     of None \<Rightarrow> 320 | Some k \<Rightarrow> k)"

definition readsBack :: "64 word \<Rightarrow> nat \<times> nat \<Rightarrow> bool" where
  "readsBack w q = (let m = mantissa w; e = binExp w - 2;
       hi = scaled (4 * m + 2) e;
       lo = scaled (if fracBits w = 0 \<and> 1 < expBits w then 4 * m - 1 else 4 * m - 2) e
     in if even m then \<not> fracLess q lo \<and> \<not> fracLess hi q else fracLess lo q \<and> fracLess q hi)"

text \<open>The digits and the position of the decimal point: \<open>0.ds * 10 ^ dp\<close>.\<close>

definition shortest :: "64 word \<Rightarrow> string \<times> int" where
  "shortest w = (let v = scaled (mantissa w) (binExp w); k = decimalPoint v;
       cand = (\<lambda>n. roundHalfEven (timesTen v (int n - k)));
       n = (case List.find (\<lambda>n. readsBack w (timesTen (cand n, 1) (k - int n))) [1..<18]
            of None \<Rightarrow> 17 | Some n \<Rightarrow> n);
       ds = decNat (cand n)
     in (rev (dropWhile (\<lambda>c. c = CHR ''0'') (rev ds)), k + int (length ds) - int n))"

definition formatF :: "string \<Rightarrow> int \<Rightarrow> string" where
  "formatF ds dp =
     (if dp \<le> 0 then CHR ''0'' # CHR ''.'' # replicate (nat (- dp)) (CHR ''0'') @ ds
      else if length ds \<le> nat dp then ds @ replicate (nat dp - length ds) (CHR ''0'')
      else take (nat dp) ds @ CHR ''.'' # drop (nat dp) ds)"

definition formatE :: "string \<Rightarrow> int \<Rightarrow> string" where
  "formatE ds dp = take 1 ds @ (if length ds \<le> 1 then [] else CHR ''.'' # drop 1 ds) @
     CHR ''e'' # (if dp - 1 < 0 then CHR ''-'' else CHR ''+'') # decNat (nat \<bar>dp - 1\<bar>)"

text \<open>
  \<^verbatim>\<open>encoding/json\<close>'s float encoder: not-a-number and infinities are refused; the
  exponent form is used below the float64 \<open>1e-6\<close> and from \<open>1e21\<close> on; magnitudes of
  floats are ordered as their bit patterns.
\<close>

definition floatLit :: "64 word \<Rightarrow> string option" where
  "floatLit w =
     (if expBits w = 2047 then None
      else let sign = (if 2 ^ 63 \<le> unat w then ''-'' else []) in
        if mantissa w = 0 then Some (sign @ ''0'')
        else let mag = unat w mod 2 ^ 63; (ds, dp) = shortest w in
          if mag < 0x3EB0C6F7A0B5ED8D \<or> 0x444B1AE4D6E2EF50 \<le> mag
          then Some (sign @ formatE ds dp) else Some (sign @ formatF ds dp))"

definition numChar :: "char \<Rightarrow> bool" where
  "numChar c \<longleftrightarrow> (CHR ''0'' \<le> c \<and> c \<le> CHR ''9'') \<or> c \<in> {CHR ''-'', CHR ''+'', CHR ''.'', CHR ''e''}"

definition numLit :: "string \<Rightarrow> bool" where
  "numLit s \<longleftrightarrow> s \<noteq> [] \<and> (\<forall>c \<in> set s. numChar c)"

lemma numChar_digitChar [simp]: "numChar (digitChar n)"
proof -
  have "\<forall>m \<in> set [0..<10]. numChar (char_of (48 + m :: nat))" by code_simp
  then show ?thesis by (simp add: digitChar_def)
qed

lemma decNat_nonempty [simp]: "decNat n \<noteq> []"
  by (subst decNat.simps) simp

lemma decNat_chars: "c \<in> set (decNat n) \<Longrightarrow> numChar c"
proof (induction n rule: decNat.induct)
  case (1 n)
  then show ?case by (subst (asm) decNat.simps) (auto split: if_splits)
qed

lemma numChar_consts [simp]:
  "numChar (CHR ''0'')" "numChar (CHR ''-'')" "numChar (CHR ''+'')" "numChar (CHR ''.'')" "numChar (CHR ''e'')"
  by code_simp+

lemma numLit_decInt [simp]: "numLit (decInt i)"
  by (auto simp: numLit_def decInt_def dest: decNat_chars)

lemma shortest_chars: "c \<in> set (fst (shortest w)) \<Longrightarrow> numChar c"
  by (auto simp: shortest_def Let_def dest!: set_dropWhileD dest: decNat_chars)

lemma format_chars:
  assumes "\<And>c. c \<in> set ds \<Longrightarrow> numChar c"
  shows "c \<in> set (formatE ds dp) \<Longrightarrow> numChar c" "c \<in> set (formatF ds dp) \<Longrightarrow> numChar c"
  using assms
  by (auto simp: formatE_def formatF_def dest: in_set_takeD in_set_dropD decNat_chars split: if_splits)

lemma numLit_floatLit:
  assumes "floatLit w = Some s"
  shows "numLit s"
proof -
  obtain ds dp where sh: "shortest w = (ds, dp)" by fastforce
  have ds: "numChar c" if "c \<in> set ds" for c using shortest_chars[of c w] that sh by simp
  have "formatE ds dp \<noteq> []" "formatF ds dp \<noteq> []"
    by (auto simp: formatE_def formatF_def)
  with assms sh format_chars[OF ds] show ?thesis
    by (auto simp: floatLit_def numLit_def Let_def split: if_splits)
qed

lemma digitChar_inj: "m < 10 \<Longrightarrow> n < 10 \<Longrightarrow> digitChar m = digitChar n \<Longrightarrow> m = n"
proof -
  assume *: "m < 10" "n < 10" "digitChar m = digitChar n"
  then have "byte (char_of (48 + m)) = byte (char_of (48 + n))" by (simp add: digitChar_def)
  with *(1,2) show "m = n" by (simp only: byte_char_of)
qed

section \<open>Trees\<close>

text \<open>
  The dynamic types \<^verbatim>\<open>Decode\<close> produces with \<^verbatim>\<open>UseNumber\<close>: nil, bool,
  \<^verbatim>\<open>json.Number\<close> (its literal), string, \<^verbatim>\<open>[]any\<close> and \<^verbatim>\<open>map[string]any\<close>.
\<close>

datatype json =
    JNull
  | JBool bool
  | JNum string
  | JStr string
  | JArr "json list"
  | JObj "(string \<times> json) list"

fun wf_json :: "json \<Rightarrow> bool" where
  "wf_json JNull = True"
| "wf_json (JBool b) = True"
| "wf_json (JNum s) = numLit s"
| "wf_json (JStr s) = valid_utf8 s"
| "wf_json (JArr js) = list_all wf_json js"
| "wf_json (JObj kvs) = (distinct (map fst kvs) \<and> list_all (\<lambda>k. valid_utf8 k) (map fst kvs) \<and>
     list_all wf_json (map snd kvs))"

text \<open>
  \<^verbatim>\<open>Marshal\<close> prints the entries of a map in key order; \<^verbatim>\<open>Decode\<close> stores them one
  after the other, so of two keys that sanitize to the same text the later one stays.
\<close>

definition decodeObj :: "(string \<times> json) list \<Rightarrow> json" where
  "decodeObj kvs = JObj (fold (\<lambda>(k, v). AList.update k v) kvs [])"

text \<open>\<^verbatim>\<open>strconv.FormatFloat\<close> of the values JSON has no number for.\<close>

definition nonFinite :: "64 word \<Rightarrow> string" where
  "nonFinite w = (if fracBits w \<noteq> 0 then ''NaN'' else if 2 ^ 63 \<le> unat w then ''-Inf'' else ''+Inf'')"

definition marshalErr :: "string \<Rightarrow> gerror" where
  "marshalErr what = Errorf ''json: %s'' [AStr what]"

text \<open>
  Marshalling followed by decoding. \<open>mo\<close> is what happens to a value whose dynamic type
  is outside the model (\<open>VOther\<close>): the tree its encoder produces, or \<open>None\<close> when
  \<^verbatim>\<open>encoding/json\<close> does not support the type.
\<close>

fun toJSON :: "(string \<Rightarrow> json option) \<Rightarrow> goval \<Rightarrow> json result" where
  "toJSON mo VNil = Ok JNull"
| "toJSON mo (VBool b) = Ok (JBool b)"
| "toJSON mo (VInt i) = Ok (JNum (decInt (sint i)))"
| "toJSON mo (VInt64 i) = Ok (JNum (decInt (sint i)))"
| "toJSON mo (VFloat64 w) =
     (case floatLit w of None \<Rightarrow> Err (marshalErr (''unsupported value: '' @ nonFinite w)) | Some s \<Rightarrow> Ok (JNum s))"
| "toJSON mo (VString s) = Ok (JStr (sanitize s))"
| "toJSON mo (VSlice None) = Ok JNull"
| "toJSON mo (VSlice (Some vs)) = bindR (seqR (map (toJSON mo) vs)) (\<lambda>js. Ok (JArr js))"
| "toJSON mo (VStrings None) = Ok JNull"
| "toJSON mo (VStrings (Some ss)) = Ok (JArr (map (\<lambda>s. JStr (sanitize s)) ss))"
| "toJSON mo (VMap None) = Ok JNull"
| "toJSON mo (VMap (Some kvs)) =
     bindR (seqR (map (\<lambda>(k, v). bindR (toJSON mo v) (\<lambda>j. Ok (sanitize k, j))) (sort_key fst kvs)))
       (\<lambda>kjs. Ok (decodeObj kjs))"
| "toJSON mo (VOther ty) =
     (case mo ty of None \<Rightarrow> Err (marshalErr (''unsupported type: '' @ ty)) | Some j \<Rightarrow> Ok j)"

subsection \<open>The decoded tree is well formed\<close>

lemma distinct_fold_update:
  "distinct (map fst m) \<Longrightarrow> distinct (map fst (fold (\<lambda>(k, v). AList.update k v) kvs m))"
  by (induction kvs arbitrary: m) (auto intro: distinct_update)

lemma set_fold_update:
  "set (fold (\<lambda>(k, v). AList.update k v) kvs m) \<subseteq> set m \<union> set kvs"
proof (induction kvs arbitrary: m)
  case (Cons kv kvs)
  obtain k v where kv: "kv = (k, v)" by (cases kv)
  have "set (AList.update k v m) \<subseteq> insert (k, v) (set m)"
    by (induction m) (auto split: if_splits)
  with Cons[of "AList.update k v m"] kv show ?case by auto
qed simp

lemma wf_decodeObj:
  assumes "\<And>k j. (k, j) \<in> set kvs \<Longrightarrow> valid_utf8 k \<and> wf_json j"
  shows "wf_json (decodeObj kvs)"
proof -
  have "(k, j) \<in> set kvs" if "(k, j) \<in> set (fold (\<lambda>(k, v). AList.update k v) kvs [])" for k j
    using set_fold_update[of kvs "[]"] that by auto
  with assms show ?thesis
    by (fastforce simp: decodeObj_def list_all_iff distinct_fold_update)
qed

lemma toJSON_wf:
  "(\<And>ty j. mo ty = Some j \<Longrightarrow> wf_json j) \<Longrightarrow> toJSON mo v = Ok j \<Longrightarrow> wf_json j"
proof (induction mo v arbitrary: j rule: toJSON.induct)
  case (8 mo vs)
  then show ?case by (fastforce simp: seqR_Ok_iff list_all_iff map_eq_conv list_eq_iff_nth_eq in_set_conv_nth)
next
  case (12 mo kvs)
  then obtain kjs where j: "j = decodeObj kjs"
    and s: "map (\<lambda>(k, v). bindR (toJSON mo v) (\<lambda>j. Ok (sanitize k, j))) (sort_key fst kvs) = map Ok kjs"
    by (auto simp: seqR_Ok_iff)
  have "valid_utf8 k \<and> wf_json i" if "(k, i) \<in> set kjs" for k i
  proof -
    from that have "Ok (k, i) \<in> set (map Ok kjs)" by simp
    then have "Ok (k, i) \<in> (\<lambda>(k, v). bindR (toJSON mo v) (\<lambda>j. Ok (sanitize k, j))) ` set kvs"
      unfolding s[symmetric] by simp
    then obtain x where x: "x \<in> set kvs"
      "(\<lambda>(k, v). bindR (toJSON mo v) (\<lambda>j. Ok (sanitize k, j))) x = Ok (k, i)"
      by (elim imageE) metis
    obtain k' v where "x = (k', v)" by (cases x)
    with x have kv: "(k', v) \<in> set kvs" "k = sanitize k'" "toJSON mo v = Ok i" by auto
    then have "(k', v) \<in> set (sort_key fst kvs)" by simp
    from "12.IH"[OF this refl "12.prems"(1) kv(3)] kv(2) show ?thesis by simp
  qed
  with j show ?case by (simp add: wf_decodeObj)
qed (auto simp: list_all_iff numLit_floatLit split: option.splits)

lemma toJSON_noPanic: "noPanic (toJSON mo v)"
  by (induction mo v rule: toJSON.induct) (auto intro!: noPanic_bindR seqR_noPanic split: option.splits)

end
