(* ===== verification/SpecCanonical.thy ===== *)
theory SpecCanonical
  imports GoJson SpecTypes
begin

text \<open>
  The canonical form of a spec (\<^verbatim>\<open>canonical.go\<close>): the marshalled and decoded tree
  of an \<^verbatim>\<open>AgentSpec\<close> (the \<^verbatim>\<open>json\<close> tags of \<^verbatim>\<open>types.go\<close>), \<^verbatim>\<open>pruneEmpty\<close>,
  \<^verbatim>\<open>canonicalEncode\<close> and \<^verbatim>\<open>CanonicalConfigsEqual\<close>.

  The writers of the sources are in-memory buffers whose \<^verbatim>\<open>Write\<close> does not fail, so an
  encoding is the text written. The \<^verbatim>\<open>float64\<close> and default branches of the type
  switch are for dynamic types a tree decoded with \<^verbatim>\<open>UseNumber\<close> does not hold.
\<close>

section \<open>pruneEmpty and canonicalEncode\<close>

fun pruneEmpty :: "json \<Rightarrow> json" where
  "pruneEmpty (JObj kvs) =
     (if length kvs = 0 then JNull
      else let out = filter (\<lambda>(k, p). p \<noteq> JNull) (map (\<lambda>(k, child). (k, pruneEmpty child)) kvs)
        in if length out = 0 then JNull else JObj out)"
| "pruneEmpty (JArr vs) =
     (if length vs = 0 then JNull
      else let out = filter (\<lambda>p. p \<noteq> JNull) (map pruneEmpty vs)
        in if length out = 0 then JNull else JArr out)"
| "pruneEmpty v = v"

definition canonicalEncodeBool :: "bool \<Rightarrow> string" where
  "canonicalEncodeBool v = (if v then ''true'' else ''false'')"

definition canonicalEncodeSlice :: "string list \<Rightarrow> string" where
  "canonicalEncodeSlice items = ''['' @ join items '','' @ '']''"

text \<open>The argument holds each key with the encoding of \<^verbatim>\<open>val[k]\<close>.\<close>

definition canonicalEncodeMap :: "(string \<times> string) list \<Rightarrow> string" where
  "canonicalEncodeMap val =
     (let keys = sort (map fst val)
      in ''{'' @ join (map (\<lambda>k. quote k @ '':'' @ the (map_of val k)) keys) '','' @ ''}'')"

fun canonicalEncode :: "json \<Rightarrow> string" where
  "canonicalEncode JNull = ''null''"
| "canonicalEncode (JBool b) = canonicalEncodeBool b"
| "canonicalEncode (JNum s) = s"
| "canonicalEncode (JStr s) = quote s"
| "canonicalEncode (JObj kvs) = canonicalEncodeMap (map (\<lambda>(k, v). (k, canonicalEncode v)) kvs)"
| "canonicalEncode (JArr vs) = canonicalEncodeSlice (map canonicalEncode vs)"

section \<open>The marshalled spec\<close>

text \<open>
  A struct is an object with its fields under their tags; \<open>omit\<close> is \<^verbatim>\<open>omitempty\<close>.
\<close>

type_synonym jfield = "string \<times> json result"

definition structTree :: "jfield list \<Rightarrow> json result" where
  "structTree fs = bindR (seqR (map (\<lambda>(k, r). bindR r (\<lambda>j. Ok (k, j))) fs)) (\<lambda>kjs. Ok (decodeObj kjs))"

definition omit :: "bool \<Rightarrow> string \<Rightarrow> json result \<Rightarrow> jfield list" where
  "omit isEmpty k r = (if isEmpty then [] else [(k, r)])"

definition strTree :: "string \<Rightarrow> json result" where
  "strTree s = Ok (JStr (sanitize s))"

definition intTree :: "int64 \<Rightarrow> json result" where
  "intTree i = Ok (JNum (decInt (sint i)))"

definition listTree :: "('a \<Rightarrow> json result) \<Rightarrow> 'a list \<Rightarrow> json result" where
  "listTree f xs = bindR (seqR (map f xs)) (\<lambda>js. Ok (JArr js))"

definition ptrTree :: "('a \<Rightarrow> json result) \<Rightarrow> string \<Rightarrow> 'a option \<Rightarrow> jfield list" where
  "ptrTree f k p = (case p of None \<Rightarrow> [] | Some x \<Rightarrow> [(k, f x)])"

definition ownerTree :: "Owner \<Rightarrow> json result" where
  "ownerTree o1 = structTree (omit (ow_Team o1 = []) ''team'' (strTree (ow_Team o1)) @
     omit (ow_Contact o1 = []) ''contact'' (strTree (ow_Contact o1)))"

definition labelsTree :: "(string \<times> string) list \<Rightarrow> json result" where
  "labelsTree kvs = Ok (decodeObj (map (\<lambda>(k, v). (sanitize k, JStr (sanitize v))) (sort_key fst kvs)))"

definition metadataTree :: "Metadata \<Rightarrow> json result" where
  "metadataTree m = structTree ([(''id'', strTree (md_ID m)), (''version'', strTree (md_Version m))] @
     omit (md_DisplayName m = []) ''displayName'' (strTree (md_DisplayName m)) @
     omit (md_Description m = []) ''description'' (strTree (md_Description m)) @
     omit (elems (md_Owners m) = []) ''owners'' (listTree ownerTree (elems (md_Owners m))) @
     omit (elems (md_Labels m) = []) ''labels'' (labelsTree (elems (md_Labels m))))"

definition refTree :: "(string \<Rightarrow> json option) \<Rightarrow> ComponentRef \<Rightarrow> json result" where
  "refTree mo r = structTree ((''ref'', strTree (cr_Ref r)) #
     omit (elems (cr_Config r) = []) ''config'' (toJSON mo (VMap (cr_Config r))))"

definition refsTree :: "(string \<Rightarrow> json option) \<Rightarrow> string \<Rightarrow> ComponentRef slice \<Rightarrow> jfield list" where
  "refsTree mo k rs = omit (elems rs = []) k (listTree (refTree mo) (elems rs))"

definition promptTree :: "(string \<Rightarrow> json option) \<Rightarrow> PromptBlock \<Rightarrow> json result" where
  "promptTree mo p = structTree (ptrTree (refTree mo) ''system'' (pb_System p) @
     ptrTree (refTree mo) ''user'' (pb_User p))"

definition filtersTree :: "(string \<Rightarrow> json option) \<Rightarrow> FilterBlock \<Rightarrow> json result" where
  "filtersTree mo f = structTree (refsTree mo ''preLLM'' (fb_PreLLM f) @
     refsTree mo ''preTool'' (fb_PreTool f) @ refsTree mo ''postTool'' (fb_PostTool f))"

definition overridesTree :: "BudgetOverrides \<Rightarrow> json result" where
  "overridesTree b = structTree (
     omit (bo_MaxWallClock b = []) ''maxWallClock'' (strTree (bo_MaxWallClock b)) @
     omit (bo_MaxInputTokens b = 0) ''maxInputTokens'' (intTree (bo_MaxInputTokens b)) @
     omit (bo_MaxOutputTokens b = 0) ''maxOutputTokens'' (intTree (bo_MaxOutputTokens b)) @
     omit (bo_MaxToolCalls b = 0) ''maxToolCalls'' (intTree (bo_MaxToolCalls b)) @
     omit (bo_MaxCostMicrodollars b = 0) ''maxCostMicrodollars'' (intTree (bo_MaxCostMicrodollars b)))"

definition budgetTree :: "BudgetRef \<Rightarrow> json result" where
  "budgetTree b = structTree [(''ref'', strTree (br_Ref b)), (''overrides'', overridesTree (br_Overrides b))]"

definition credTree :: "CredRef \<Rightarrow> json result" where
  "credTree c = structTree ((''ref'', strTree (cd_Ref c)) #
     omit (elems (cd_Scopes c) = []) ''scopes'' (listTree strTree (elems (cd_Scopes c))))"

definition specTree :: "(string \<Rightarrow> json option) \<Rightarrow> AgentSpec \<Rightarrow> json result" where
  "specTree mo s = structTree (
     [(''apiVersion'', strTree (s_APIVersion s)), (''kind'', strTree (s_Kind s)),
      (''metadata'', metadataTree (s_Metadata s)), (''provider'', refTree mo (s_Provider s)),
      (''prompt'', promptTree mo (s_Prompt s))] @
     refsTree mo ''tools'' (s_Tools s) @ refsTree mo ''policies'' (s_Policies s) @
     [(''filters'', filtersTree mo (s_Filters s))] @
     ptrTree budgetTree ''budget'' (s_Budget s) @
     ptrTree (refTree mo) ''telemetry'' (s_Telemetry s) @
     ptrTree credTree ''credentials'' (s_Credentials s) @
     ptrTree (refTree mo) ''identity'' (s_Identity s) @
     omit (elems (s_Extends s) = []) ''extends'' (listTree strTree (elems (s_Extends s))) @
     refsTree mo ''skills'' (s_Skills s) @ refsTree mo ''mcpImports'' (s_MCPImports s) @
     ptrTree (refTree mo) ''outputContract'' (s_OutputContract s))"

section \<open>Canonical JSON\<close>

definition computeCanonicalJSON :: "(string \<Rightarrow> json option) \<Rightarrow> AgentSpec \<Rightarrow> string result" where
  "computeCanonicalJSON mo s =
     bindR (wrapErr (\<lambda>err. Errorf ''spec: canonical JSON marshal: %w'' [AWrap err]) (specTree mo s))
       (\<lambda>tree. Ok (canonicalEncode (pruneEmpty tree)))"

definition canonicalizeConfig :: "(string \<Rightarrow> json option) \<Rightarrow> gomap \<Rightarrow> string result" where
  "canonicalizeConfig mo cfg =
     bindR (wrapErr (\<lambda>err. Errorf ''spec: canonical config marshal: %w'' [AWrap err]) (toJSON mo (VMap cfg)))
       (\<lambda>tree. let tree = pruneEmpty tree in
          if tree = JNull then Ok ''null'' else Ok (canonicalEncode tree))"

definition CanonicalConfigsEqual :: "(string \<Rightarrow> json option) \<Rightarrow> gomap \<Rightarrow> gomap \<Rightarrow> bool result" where
  "CanonicalConfigsEqual mo a b =
     bindR (canonicalizeConfig mo a) (\<lambda>ab. bindR (canonicalizeConfig mo b) (\<lambda>bb. Ok (ab = bb)))"

section \<open>Pruning\<close>

text \<open>A compact tree holds no null and no empty collection below its root.\<close>

fun compact :: "json \<Rightarrow> bool" where
  "compact (JObj kvs) = (kvs \<noteq> [] \<and> list_all (\<lambda>(k, v). v \<noteq> JNull \<and> compact v) kvs)"
| "compact (JArr vs) = (vs \<noteq> [] \<and> list_all (\<lambda>v. v \<noteq> JNull \<and> compact v) vs)"
| "compact v = True"

lemma pruneEmpty_compact: "compact (pruneEmpty j)"
  by (induction j rule: pruneEmpty.induct) (auto simp: Let_def list_all_iff filter_empty_conv)

lemma pruneEmpty_id: "compact j \<Longrightarrow> pruneEmpty j = j"
proof (induction j rule: pruneEmpty.induct)
  case (1 kvs)
  have "map (\<lambda>(k, child). (k, pruneEmpty child)) kvs = map id kvs"
    using 1 by (intro map_cong) (auto simp: list_all_iff)
  moreover have "filter (\<lambda>(k, p). p \<noteq> JNull) kvs = kvs"
    using 1 by (auto simp: list_all_iff intro!: filter_True)
  ultimately show ?case using 1 by simp
next
  case (2 vs)
  have "map pruneEmpty vs = map id vs"
    using 2 by (intro map_cong) (auto simp: list_all_iff)
  moreover have "filter (\<lambda>p. p \<noteq> JNull) vs = vs"
    using 2 by (auto simp: list_all_iff intro!: filter_True)
  ultimately show ?case using 2 by simp
qed simp_all

lemma pruneEmpty_idem: "pruneEmpty (pruneEmpty j) = pruneEmpty j"
  by (rule pruneEmpty_id) (rule pruneEmpty_compact)

lemma fst_o_val [simp]: "fst \<circ> (\<lambda>(k, v). (k, f v)) = fst"
  by (auto simp: fun_eq_iff)

lemma distinct_fst_filter: "distinct (map fst kvs) \<Longrightarrow> distinct (map fst (filter P kvs))"
  by (induction kvs) auto

lemma pruneEmpty_wf: "wf_json j \<Longrightarrow> wf_json (pruneEmpty j)"
proof (induction j rule: pruneEmpty.induct)
  case (1 kvs)
  let ?m = "map (\<lambda>(k, child). (k, pruneEmpty child)) kvs"
  have "distinct (map fst (filter (\<lambda>(k, p). p \<noteq> JNull) ?m))"
    using 1 by (intro distinct_fst_filter) simp
  moreover have "valid_utf8 k \<and> wf_json v" if "(k, v) \<in> set ?m" for k v
    using 1 that by (fastforce simp: list_all_iff)
  ultimately show ?case by (fastforce simp: Let_def list_all_iff)
qed (auto simp: Let_def list_all_iff)

section \<open>The encoding determines the tree\<close>

text \<open>
  \<open>sortKeys\<close> puts every object in key order; \<open>printJSON\<close> prints a tree as it stands.
  The canonical encoding is the print of the sorted tree.
\<close>

fun sortKeys :: "json \<Rightarrow> json" where
  "sortKeys (JObj kvs) = JObj (sort_key fst (map (\<lambda>(k, v). (k, sortKeys v)) kvs))"
| "sortKeys (JArr vs) = JArr (map sortKeys vs)"
| "sortKeys v = v"

fun printJSON :: "json \<Rightarrow> string" where
  "printJSON JNull = ''null''"
| "printJSON (JBool b) = canonicalEncodeBool b"
| "printJSON (JNum s) = s"
| "printJSON (JStr s) = quote s"
| "printJSON (JObj kvs) = ''{'' @ join (map (\<lambda>(k, v). quote k @ '':'' @ printJSON v) kvs) '','' @ ''}''"
| "printJSON (JArr vs) = ''['' @ join (map printJSON vs) '','' @ '']''"

lemma sort_map_fst: "sort (map fst kvs) = map fst (sort_key fst kvs)"
proof (induction kvs)
  case (Cons kv kvs)
  have "insort (fst kv) (map fst xs) = map fst (insort_key fst kv xs)" for xs
    by (induction xs) auto
  with Cons show ?case by simp
qed simp

lemma sorted_lookup:
  assumes "distinct (map fst kvs)"
  shows "map (\<lambda>k. g k (the (map_of kvs k))) (sort (map fst kvs)) = map (\<lambda>(k, v). g k v) (sort_key fst kvs)"
  unfolding sort_map_fst map_map
  by (rule map_cong) (auto simp: assms)

lemma sort_key_map_snd: "sort_key fst (map (\<lambda>(k, v). (k, f v)) kvs) = map (\<lambda>(k, v). (k, f v)) (sort_key fst kvs)"
proof (induction kvs)
  case (Cons kv kvs)
  have "insort_key fst (k, f v) (map (\<lambda>(k, v). (k, f v)) xs) =
      map (\<lambda>(k, v). (k, f v)) (insort_key fst (k, v) xs)" for k v xs
    by (induction xs) auto
  with Cons show ?case by (cases kv) simp
qed simp

lemma canonicalEncode_print: "wf_json j \<Longrightarrow> canonicalEncode j = printJSON (sortKeys j)"
proof (induction j rule: canonicalEncode.induct)
  case (5 kvs)
  have ih: "map (\<lambda>(k, v). (k, canonicalEncode v)) kvs = map (\<lambda>(k, v). (k, printJSON (sortKeys v))) kvs"
    using 5 by (intro map_cong) (auto simp: list_all_iff)
  have d: "distinct (map fst (map (\<lambda>(k, v). (k, printJSON (sortKeys v))) kvs))"
    using 5 by simp
  have "canonicalEncode (JObj kvs) = canonicalEncodeMap (map (\<lambda>(k, v). (k, printJSON (sortKeys v))) kvs)"
    by (simp only: canonicalEncode.simps ih)
  also have "\<dots> = ''{'' @ join (map (\<lambda>(k, t). quote k @ '':'' @ t)
      (sort_key fst (map (\<lambda>(k, v). (k, printJSON (sortKeys v))) kvs))) '','' @ ''}''"
    by (simp only: canonicalEncodeMap_def Let_def sorted_lookup[OF d, of "\<lambda>k t. quote k @ '':'' @ t"])
  also have "\<dots> = printJSON (sortKeys (JObj kvs))"
    by (simp only: sortKeys.simps printJSON.simps sort_key_map_snd[of "\<lambda>v. printJSON (sortKeys v)"]
        sort_key_map_snd[of sortKeys] map_map) (simp add: o_def split_def)
  finally show ?case .
qed (auto simp: canonicalEncodeSlice_def list_all_iff intro!: arg_cong2[of _ _ _ _ join])

text \<open>
  \<open>stops r\<close>: what may follow a value. With it the print of a value is a prefix code.
\<close>

definition stops :: "string \<Rightarrow> bool" where
  "stops r \<longleftrightarrow> r = [] \<or> hd r \<in> {CHR '','', CHR '']'', CHR ''}''}"

lemma stops_simps [simp]: "stops []" "stops (CHR '','' # r)" "stops (CHR '']'' # r)" "stops (CHR ''}'' # r)"
  by (simp_all add: stops_def)

lemma not_numChar: "\<not> numChar (CHR '','')" "\<not> numChar (CHR '']'')" "\<not> numChar (CHR ''}'')"
  "\<not> numChar (CHR ''n'')" "\<not> numChar (CHR ''t'')" "\<not> numChar (CHR ''f'')" "\<not> numChar (CHR 0x22)"
  "\<not> numChar (CHR ''{'')" "\<not> numChar (CHR ''['')"
  by code_simp+

lemma numLit_prefix:
  assumes "s @ r = s' @ r'" "numLit s" "numLit s'" "stops r" "stops r'"
  shows "s = s' \<and> r = r'"
proof -
  have "takeWhile numChar (t @ u) = t" if "numLit t" "stops u" for t u
  proof -
    have "takeWhile numChar u = []" using that(2) not_numChar by (cases u) (auto simp: stops_def)
    then show ?thesis using that(1) by (simp add: numLit_def)
  qed
  from this[OF assms(2,4)] this[OF assms(3,5)] assms(1) have "s = s'" by metis
  with assms(1) show ?thesis by simp
qed

definition prefixCode :: "('a \<Rightarrow> string) \<Rightarrow> 'a \<Rightarrow> 'a \<Rightarrow> bool" where
  "prefixCode f a b \<longleftrightarrow> (\<forall>r r'. f a @ r = f b @ r' \<longrightarrow> stops r \<longrightarrow> stops r' \<longrightarrow> a = b \<and> r = r')"

text \<open>A comma-separated list of prefix codes, up to its closing bracket.\<close>

lemma join_cons: "join (x # xs) sep = x @ (if xs = [] then [] else sep @ join xs sep)"
  by (cases xs) simp_all

lemma join_prefix:
  assumes "\<And>a b. a \<in> set xs \<Longrightarrow> b \<in> set ys \<Longrightarrow> prefixCode f a b"
    and "\<And>a. a \<in> set xs \<union> set ys \<Longrightarrow> f a \<noteq> [] \<and> hd (f a) \<noteq> c"
    and "c = CHR '']'' \<or> c = CHR ''}''"
    and "join (map f xs) '','' @ c # r = join (map f ys) '','' @ c # r'"
  shows "xs = ys \<and> r = r'"
  using assms
proof (induction xs arbitrary: ys)
  case Nil
  show ?case
  proof (cases ys)
    case (Cons y ys')
    with Nil.prems(2)[of y] Nil.prems(4) show ?thesis by (cases "f y") (auto simp: join_cons)
  qed (use Nil.prems(4) in simp)
next
  case (Cons x xs)
  show ?case
  proof (cases ys)
    case Nil
    with Cons.prems(2)[of x] Cons.prems(4) show ?thesis by (cases "f x") (auto simp: join_cons)
  next
    case (Cons y ys')
    let ?t = "\<lambda>zs q. (if zs = [] then [] else '','' @ join (map f zs) '','') @ c # q"
    have "f x @ ?t xs r = f y @ ?t ys' r'"
      using Cons.prems(4) Cons by (simp add: join_cons)
    moreover have "prefixCode f x y" using Cons.prems(1) Cons by simp
    moreover have "stops (?t zs q)" for zs q using Cons.prems(3) by auto
    ultimately have xy: "x = y" and t: "?t xs r = ?t ys' r'" unfolding prefixCode_def by blast+
    have "xs = [] \<longleftrightarrow> ys' = []" using t Cons.prems(3) by (auto split: if_splits)
    with t have "join (map f xs) '','' @ c # r = join (map f ys') '','' @ c # r'"
      by (auto split: if_splits)
    with Cons.IH[of ys'] Cons.prems(1-3) Cons xy show ?thesis by simp
  qed
qed

lemma quote_hd [simp]: "quote s \<noteq> []" "hd (quote s @ r) = CHR 0x22" "hd (quote s) = CHR 0x22"
  by (simp_all add: quote_def)

text \<open>The first character tells the constructor.\<close>

lemma print_hd:
  assumes "wf_json j"
  shows "printJSON j \<noteq> [] \<and> hd (printJSON j @ r) = hd (printJSON j) \<and>
    (case j of JNull \<Rightarrow> hd (printJSON j) = CHR ''n''
     | JBool b \<Rightarrow> hd (printJSON j) = (if b then CHR ''t'' else CHR ''f'')
     | JNum s \<Rightarrow> numChar (hd (printJSON j))
     | JStr s \<Rightarrow> hd (printJSON j) = CHR 0x22
     | JArr vs \<Rightarrow> hd (printJSON j) = CHR ''[''
     | JObj kvs \<Rightarrow> hd (printJSON j) = CHR ''{'')"
  using assms by (cases j) (auto simp: canonicalEncodeBool_def numLit_def)

lemma print_not_close: "wf_json j \<Longrightarrow> hd (printJSON j) \<noteq> CHR '']''"
  using print_hd[of j "[]"] not_numChar by (cases j) (auto split: if_splits)

lemma print_same_shape:
  assumes "printJSON a @ r = printJSON b @ r'" "wf_json a" "wf_json b"
  shows "(a = JNull \<longleftrightarrow> b = JNull) \<and> ((\<exists>x. a = JBool x) \<longleftrightarrow> (\<exists>x. b = JBool x)) \<and>
    ((\<exists>x. a = JNum x) \<longleftrightarrow> (\<exists>x. b = JNum x)) \<and> ((\<exists>x. a = JStr x) \<longleftrightarrow> (\<exists>x. b = JStr x)) \<and>
    ((\<exists>x. a = JArr x) \<longleftrightarrow> (\<exists>x. b = JArr x)) \<and> ((\<exists>x. a = JObj x) \<longleftrightarrow> (\<exists>x. b = JObj x))"
proof -
  have "hd (printJSON a) = hd (printJSON b)"
    using print_hd[OF assms(2), of r] print_hd[OF assms(3), of r'] assms(1) by metis
  with print_hd[OF assms(2), of r] print_hd[OF assms(3), of r'] not_numChar show ?thesis
    by (cases a; cases b) (auto split: if_splits)
qed

lemma pair_prefix:
  assumes "prefixCode printJSON (snd p) (snd q)" "valid_utf8 (fst p)" "valid_utf8 (fst q)"
  shows "prefixCode (\<lambda>(k, v). quote k @ '':'' @ printJSON v) p q"
  unfolding prefixCode_def
proof (intro allI impI)
  fix r r'
  assume eq: "(\<lambda>(k, v). quote k @ '':'' @ printJSON v) p @ r = (\<lambda>(k, v). quote k @ '':'' @ printJSON v) q @ r'"
    and st: "stops r" "stops r'"
  then have "quote (fst p) @ CHR '':'' # printJSON (snd p) @ r = quote (fst q) @ CHR '':'' # printJSON (snd q) @ r'"
    by (simp add: split_def)
  from quote_inject[OF this assms(2,3)] assms(1) st show "p = q \<and> r = r'"
    by (auto simp: prefixCode_def prod_eq_iff)
qed

lemma print_prefix: "wf_json a \<Longrightarrow> wf_json b \<Longrightarrow> prefixCode printJSON a b"
proof (induction a arbitrary: b)
  case (JArr vs)
  show ?case unfolding prefixCode_def
  proof (intro allI impI)
    fix r r'
    assume eq: "printJSON (JArr vs) @ r = printJSON b @ r'"
    from print_same_shape[OF eq JArr.prems] obtain ws where b: "b = JArr ws" by blast
    have "vs = ws \<and> r = r'"
    proof (rule join_prefix[where f = printJSON and c = "CHR '']''"])
      show "prefixCode printJSON v w" if "v \<in> set vs" "w \<in> set ws" for v w
        using JArr b that by (auto simp: list_all_iff)
      show "printJSON v \<noteq> [] \<and> hd (printJSON v) \<noteq> CHR '']''" if "v \<in> set vs \<union> set ws" for v
        using JArr.prems b that print_hd print_not_close by (auto simp: list_all_iff)
    qed (use eq b in simp_all)
    with b show "JArr vs = b \<and> r = r'" by simp
  qed
next
  case (JObj kvs)
  show ?case unfolding prefixCode_def
  proof (intro allI impI)
    fix r r'
    assume eq: "printJSON (JObj kvs) @ r = printJSON b @ r'"
    from print_same_shape[OF eq JObj.prems] obtain lvs where b: "b = JObj lvs" by blast
    have "kvs = lvs \<and> r = r'"
    proof (rule join_prefix[where f = "\<lambda>(k, v). quote k @ '':'' @ printJSON v" and c = "CHR ''}''"])
      show "prefixCode (\<lambda>(k, v). quote k @ '':'' @ printJSON v) p q" if "p \<in> set kvs" "q \<in> set lvs" for p q
        using JObj.prems b that by (intro pair_prefix JObj.IH[of p]) (auto simp: list_all_iff snds.simps)
      show "(\<lambda>(k, v). quote k @ '':'' @ printJSON v) p \<noteq> [] \<and>
          hd ((\<lambda>(k, v). quote k @ '':'' @ printJSON v) p) \<noteq> CHR ''}''" for p
        by (simp add: split_def)
    qed (use eq b in simp_all)
    with b show "JObj kvs = b \<and> r = r'" by simp
  qed
next
  case (JNum s)
  show ?case unfolding prefixCode_def
  proof (intro allI impI)
    fix r r'
    assume eq: "printJSON (JNum s) @ r = printJSON b @ r'" and st: "stops r" "stops r'"
    from print_same_shape[OF eq JNum] obtain s' where b: "b = JNum s'" by blast
    from numLit_prefix[of s r s' r'] eq b JNum st show "JNum s = b \<and> r = r'" by simp
  qed
next
  case (JStr s)
  show ?case unfolding prefixCode_def
  proof (intro allI impI)
    fix r r'
    assume eq: "printJSON (JStr s) @ r = printJSON b @ r'"
    from print_same_shape[OF eq JStr] obtain s' where b: "b = JStr s'" by blast
    from quote_inject[of s r s' r'] eq b JStr show "JStr s = b \<and> r = r'" by simp
  qed
next
  case (JBool x)
  show ?case unfolding prefixCode_def
  proof (intro allI impI)
    fix r r'
    assume eq: "printJSON (JBool x) @ r = printJSON b @ r'"
    from print_same_shape[OF eq JBool] obtain y where b: "b = JBool y" by blast
    from eq b show "JBool x = b \<and> r = r'" by (auto simp: canonicalEncodeBool_def split: if_splits)
  qed
next
  case JNull
  show ?case unfolding prefixCode_def
  proof (intro allI impI)
    fix r r'
    assume eq: "printJSON JNull @ r = printJSON b @ r'"
    from print_same_shape[OF eq JNull] have b: "b = JNull" by blast
    from eq b show "JNull = b \<and> r = r'" by simp
  qed
qed

lemma sortKeys_wf: "wf_json j \<Longrightarrow> wf_json (sortKeys j)"
proof (induction j rule: sortKeys.induct)
  case (1 kvs)
  then show ?case by (fastforce simp: list_all_iff sort_map_fst[symmetric])
qed (auto simp: list_all_iff)

text \<open>Two trees have one encoding exactly when they differ only in the order of keys.\<close>

lemma canonicalEncode_eq_iff:
  assumes "wf_json a" "wf_json b"
  shows "canonicalEncode a = canonicalEncode b \<longleftrightarrow> sortKeys a = sortKeys b"
proof
  assume "canonicalEncode a = canonicalEncode b"
  then have "printJSON (sortKeys a) @ [] = printJSON (sortKeys b) @ []"
    by (simp add: canonicalEncode_print assms)
  with print_prefix[OF sortKeys_wf[OF assms(1)] sortKeys_wf[OF assms(2)]]
  show "sortKeys a = sortKeys b" unfolding prefixCode_def using stops_simps(1) by blast
qed (simp add: canonicalEncode_print assms)

section \<open>The order of map entries does not matter\<close>

text \<open>
  \<open>samev v w\<close>: the same Go value, its maps iterated in possibly different orders.
\<close>

inductive samev :: "goval \<Rightarrow> goval \<Rightarrow> bool" where
  same_refl: "samev v v"
| same_slice: "list_all2 samev vs ws \<Longrightarrow> samev (VSlice (Some vs)) (VSlice (Some ws))"
| same_map: "distinct (map fst kvs) \<Longrightarrow> distinct (map fst lvs) \<Longrightarrow>
    set (map fst kvs) = set (map fst lvs) \<Longrightarrow>
    (\<And>k v. map_of kvs k = Some v \<Longrightarrow> \<exists>w. map_of lvs k = Some w \<and> samev v w) \<Longrightarrow>
    samev (VMap (Some kvs)) (VMap (Some lvs))"

inductive_simps samev_map_simps: "samev (VMap (Some kvs)) w"

lemma sort_key_by_lookup:
  "distinct (map fst kvs) \<Longrightarrow> sort_key fst kvs = map (\<lambda>k. (k, the (map_of kvs k))) (sort (map fst kvs))"
  using sorted_lookup[of kvs Pair] by (simp add: split_def)

lemma map_list_all2_eq: "list_all2 (\<lambda>x y. f x = f y) xs ys \<Longrightarrow> map f xs = map f ys"
  by (induction rule: list_all2_induct) auto

lemma toJSON_samev: "samev v w \<Longrightarrow> toJSON mo v = toJSON mo w"
proof (induction rule: samev.induct)
  case (same_slice vs ws)
  then have "map (toJSON mo) vs = map (toJSON mo) ws"
    by (intro map_list_all2_eq) (auto elim: list_all2_mono)
  then show ?case by simp
next
  case (same_map kvs lvs)
  let ?f = "\<lambda>(k, v). bindR (toJSON mo v) (\<lambda>j. Ok (sanitize k, j))"
  have keys: "sort (map fst kvs) = sort (map fst lvs)"
    by (rule sorted_distinct_set_unique) (use same_map.hyps in auto)
  have "map ?f (sort_key fst kvs) = map ?f (sort_key fst lvs)"
    unfolding sort_key_by_lookup[OF same_map.hyps(1)] sort_key_by_lookup[OF same_map.hyps(2)] keys map_map
  proof (rule map_cong[OF refl])
    fix k
    assume "k \<in> set (sort (map fst lvs))"
    then have "k \<in> fst ` set kvs" using same_map.hyps(3) by simp
    then obtain v where "map_of kvs k = Some v" by (metis map_of_eq_None_iff not_Some_eq)
    with same_map.IH[of k v] show "(?f \<circ> (\<lambda>k. (k, the (map_of kvs k)))) k = (?f \<circ> (\<lambda>k. (k, the (map_of lvs k)))) k"
      by auto
  qed
  then show ?case by simp
qed simp

section \<open>What CanonicalConfigsEqual decides\<close>

text \<open>
  The normal form of a configuration: marshalled, pruned, keys in order. Two
  configurations compare equal exactly when their normal forms are the same tree.
\<close>

definition configForm :: "(string \<Rightarrow> json option) \<Rightarrow> gomap \<Rightarrow> json result" where
  "configForm mo cfg = bindR (toJSON mo (VMap cfg)) (\<lambda>j. Ok (sortKeys (pruneEmpty j)))"

lemma canonicalizeConfig_eq:
  "canonicalizeConfig mo cfg =
     bindR (wrapErr (\<lambda>err. Errorf ''spec: canonical config marshal: %w'' [AWrap err]) (toJSON mo (VMap cfg)))
       (\<lambda>tree. Ok (canonicalEncode (pruneEmpty tree)))"
  by (cases "toJSON mo (VMap cfg)") (simp_all add: canonicalizeConfig_def Let_def)

lemma CanonicalConfigsEqual_iff:
  assumes "\<And>ty j. mo ty = Some j \<Longrightarrow> wf_json j"
  shows "CanonicalConfigsEqual mo a b = Ok True \<longleftrightarrow>
    (\<exists>t. configForm mo a = Ok t \<and> configForm mo b = Ok t)"
proof (cases "toJSON mo (VMap a)"; cases "toJSON mo (VMap b)")
  fix x y
  assume ab: "toJSON mo (VMap a) = Ok x" "toJSON mo (VMap b) = Ok y"
  have "wf_json (pruneEmpty x)" "wf_json (pruneEmpty y)"
    by (rule pruneEmpty_wf[OF toJSON_wf[OF _ ab(1)]], erule assms)
      (rule pruneEmpty_wf[OF toJSON_wf[OF _ ab(2)]], erule assms)
  from canonicalEncode_eq_iff[OF this] ab show ?thesis
    by (auto simp: CanonicalConfigsEqual_def canonicalizeConfig_eq configForm_def)
qed (auto simp: CanonicalConfigsEqual_def canonicalizeConfig_eq configForm_def)

lemma CanonicalConfigsEqual_isOk:
  "isOk (CanonicalConfigsEqual mo a b) \<longleftrightarrow> isOk (toJSON mo (VMap a)) \<and> isOk (toJSON mo (VMap b))"
  by (cases "toJSON mo (VMap a)"; cases "toJSON mo (VMap b)")
    (auto simp: CanonicalConfigsEqual_def canonicalizeConfig_eq)

lemma CanonicalConfigsEqual_sym:
  "CanonicalConfigsEqual mo a b = Ok r \<Longrightarrow> CanonicalConfigsEqual mo b a = Ok r"
  by (auto simp: CanonicalConfigsEqual_def)

lemma CanonicalConfigsEqual_trans:
  "CanonicalConfigsEqual mo a b = Ok True \<Longrightarrow> CanonicalConfigsEqual mo b c = Ok True \<Longrightarrow>
     CanonicalConfigsEqual mo a c = Ok True"
  by (auto simp: CanonicalConfigsEqual_def)

lemma CanonicalConfigsEqual_nil_empty: "CanonicalConfigsEqual mo None (Some []) = Ok True"
  by (simp add: CanonicalConfigsEqual_def canonicalizeConfig_eq decodeObj_def)

section \<open>The marshalled spec is well formed\<close>

lemma valid_utf8_ascii: "list_all (\<lambda>c. byte c < 128) s \<Longrightarrow> valid_utf8 s"
  by (induction s) (auto simp: valid_utf8.simps decode_rune_ascii badRune_def runeError_def)

definition okTree :: "json result \<Rightarrow> bool" where
  "okTree r \<longleftrightarrow> (\<forall>j. r = Ok j \<longrightarrow> wf_json j)"

definition okFields :: "jfield list \<Rightarrow> bool" where
  "okFields fs \<longleftrightarrow> (\<forall>(k, r) \<in> set fs. list_all (\<lambda>c. byte c < 128) k \<and> okTree r)"

lemma okFields_simps [simp]:
  "okFields []" "okFields ((k, r) # fs) \<longleftrightarrow> list_all (\<lambda>c. byte c < 128) k \<and> okTree r \<and> okFields fs"
  "okFields (fs @ gs) \<longleftrightarrow> okFields fs \<and> okFields gs"
  by (auto simp: okFields_def)

lemma okFields_omit [simp]: "list_all (\<lambda>c. byte c < 128) k \<Longrightarrow> okTree r \<Longrightarrow> okFields (omit b k r)"
  by (simp add: omit_def)

lemma okFields_ptr [simp]: "list_all (\<lambda>c. byte c < 128) k \<Longrightarrow> (\<And>x. okTree (f x)) \<Longrightarrow> okFields (ptrTree f k p)"
  by (simp add: ptrTree_def split: option.split)

lemma okTree_struct [simp]:
  assumes "okFields fs"
  shows "okTree (structTree fs)"
  unfolding okTree_def
proof (intro allI impI)
  fix j
  assume "structTree fs = Ok j"
  then obtain kjs where j: "j = decodeObj kjs" and s: "map (\<lambda>(k, r). bindR r (\<lambda>j. Ok (k, j))) fs = map Ok kjs"
    by (auto simp: structTree_def seqR_Ok_iff)
  have "valid_utf8 k \<and> wf_json i" if "(k, i) \<in> set kjs" for k i
  proof -
    from that have "Ok (k, i) \<in> set (map (\<lambda>(k, r). bindR r (\<lambda>j. Ok (k, j))) fs)" unfolding s by simp
    then obtain r where "(k, r) \<in> set fs" "r = Ok i"
      by (auto dest: sym)
    with assms show ?thesis by (fastforce simp: okFields_def okTree_def intro: valid_utf8_ascii)
  qed
  with j show "wf_json j" by (simp add: wf_decodeObj)
qed

lemma okTree_basic [simp]: "okTree (strTree s)" "okTree (intTree i)" "okTree (labelsTree kvs)"
  by (auto simp: okTree_def strTree_def intTree_def labelsTree_def intro!: wf_decodeObj)

lemma okTree_list [simp]: "(\<And>x. okTree (f x)) \<Longrightarrow> okTree (listTree f xs)"
  by (auto simp: okTree_def listTree_def seqR_Ok_iff list_all_iff map_eq_conv) (metis ex_map_conv list.set_map image_eqI)

lemmas tree_defs = ownerTree_def metadataTree_def promptTree_def filtersTree_def
  overridesTree_def budgetTree_def credTree_def

lemma okTree_ref:
  assumes "\<And>ty j. mo ty = Some j \<Longrightarrow> wf_json j"
  shows "okTree (refTree mo r)" "list_all (\<lambda>c. byte c < 128) k \<Longrightarrow> okFields (refsTree mo k rs)"
proof -
  have "okTree (toJSON mo v)" for v using toJSON_wf[of mo v] assms by (auto simp: okTree_def)
  then show ref: "okTree (refTree mo r)" for r by (simp add: refTree_def byte_def)
  show "okFields (refsTree mo k rs)" if "list_all (\<lambda>c. byte c < 128) k"
    using that by (simp add: refsTree_def ref)
qed

lemma specTree_wf:
  assumes "\<And>ty j. mo ty = Some j \<Longrightarrow> wf_json j" and "specTree mo s = Ok j"
  shows "wf_json j"
proof -
  note ref = okTree_ref[of mo, OF assms(1)]
  have o: "okTree (ownerTree x)" for x by (simp add: ownerTree_def byte_def)
  have "okTree (specTree mo s)"
    unfolding specTree_def
    by (intro okTree_struct) (simp add: o ref tree_defs byte_def)
  with assms(2) show ?thesis by (simp add: okTree_def)
qed

section \<open>Properties\<close>

text \<open>C10. The canonical encoding loses nothing but the order of object keys: two decoded trees
  have the same canonical text exactly when they are equal after sorting the keys of every
  object.\<close>

theorem canonicalEncode_injective:
  assumes "wf_json a" and "wf_json b"
  shows "canonicalEncode a = canonicalEncode b \<longleftrightarrow> sortKeys a = sortKeys b"
  by (rule canonicalEncode_eq_iff[OF assms])

theorem canonicalEncode_injective_witness:
  "canonicalEncode (JObj [(''b'', JNum ''1''), (''a'', JNull)]) = canonicalEncode (JObj [(''a'', JNull), (''b'', JNum ''1'')])"
proof -
  have "wf_json (JObj [(''b'', JNum ''1''), (''a'', JNull)])" "wf_json (JObj [(''a'', JNull), (''b'', JNum ''1'')])"
    by (simp_all add: valid_utf8_ascii byte_def numLit_def numChar_def)
  moreover have "sortKeys (JObj [(''b'', JNum ''1''), (''a'', JNull)]) = sortKeys (JObj [(''a'', JNull), (''b'', JNum ''1'')])"
    by code_simp
  ultimately show ?thesis by (simp only: canonicalEncode_injective)
qed

text \<open>C11. \<^verbatim>\<open>CanonicalConfigsEqual\<close> answers true exactly when both configurations marshal and
  have the same normal form (nulls and empty collections pruned at every depth, keys sorted);
  it is symmetric and transitive, and identifies the nil map with the empty one.\<close>

theorem CanonicalConfigsEqual_decides:
  assumes "\<And>ty j. mo ty = Some j \<Longrightarrow> wf_json j"
  shows "(CanonicalConfigsEqual mo a b = Ok True \<longleftrightarrow> (\<exists>t. configForm mo a = Ok t \<and> configForm mo b = Ok t)) \<and>
    (CanonicalConfigsEqual mo a b = Ok r \<longrightarrow> CanonicalConfigsEqual mo b a = Ok r) \<and>
    (CanonicalConfigsEqual mo a b = Ok True \<longrightarrow> CanonicalConfigsEqual mo b c = Ok True \<longrightarrow>
       CanonicalConfigsEqual mo a c = Ok True) \<and>
    CanonicalConfigsEqual mo None (Some []) = Ok True"
proof (intro conjI impI)
  show "CanonicalConfigsEqual mo a b = Ok True \<longleftrightarrow> (\<exists>t. configForm mo a = Ok t \<and> configForm mo b = Ok t)"
    by (rule CanonicalConfigsEqual_iff) (erule assms)
qed (auto intro: CanonicalConfigsEqual_sym CanonicalConfigsEqual_trans CanonicalConfigsEqual_nil_empty)

theorem CanonicalConfigsEqual_decides_witness:
  "CanonicalConfigsEqual (\<lambda>_. None) (Some [(''b'', VSlice (Some [])), (''a'', VBool True)]) (Some [(''a'', VBool True)]) = Ok True"
proof -
  have "configForm (\<lambda>_. None) (Some [(''b'', VSlice (Some [])), (''a'', VBool True)]) = Ok (JObj [(''a'', JBool True)])"
    "configForm (\<lambda>_. None) (Some [(''a'', VBool True)]) = Ok (JObj [(''a'', JBool True)])"
    by (simp_all add: configForm_def decodeObj_def sanitize_valid valid_utf8_ascii byte_def less_eq_char_def less_char_def)
  then show ?thesis
    using CanonicalConfigsEqual_decides[of "\<lambda>_. None" "Some [(''b'', VSlice (Some [])), (''a'', VBool True)]" "Some [(''a'', VBool True)]"]
    by auto
qed

text \<open>The canonical form of a configuration does not depend on the iteration order of its
  maps, at any depth.\<close>

theorem canonicalizeConfig_order_independent:
  assumes "samev (VMap a) (VMap b)"
  shows "canonicalizeConfig mo a = canonicalizeConfig mo b"
  using toJSON_samev[OF assms] by (simp add: canonicalizeConfig_def)

theorem canonicalizeConfig_order_independent_witness:
  "canonicalizeConfig (\<lambda>_. None) (Some [(''b'', VNil), (''a'', VBool True)]) =
     canonicalizeConfig (\<lambda>_. None) (Some [(''a'', VBool True), (''b'', VNil)])"
  by (rule canonicalizeConfig_order_independent, rule same_map) (auto intro: same_refl split: if_splits)

text \<open>Pruning leaves a tree without nulls and without empty collections below its root,
  keeps well-formedness, changes nothing when applied twice, and is the identity on trees
  that are already compact.\<close>

theorem pruneEmpty_compacts:
  "compact (pruneEmpty j) \<and> pruneEmpty (pruneEmpty j) = pruneEmpty j \<and>
     (wf_json j \<longrightarrow> wf_json (pruneEmpty j)) \<and> (compact j \<longrightarrow> pruneEmpty j = j)"
  using pruneEmpty_compact pruneEmpty_idem pruneEmpty_wf pruneEmpty_id by blast

theorem pruneEmpty_compacts_witness:
  "pruneEmpty (JArr [JObj [(''a'', JArr [])], JBool True]) = JArr [JBool True] \<and> pruneEmpty (JArr [JBool True]) = JArr [JBool True]"
  using pruneEmpty_compacts[of "JArr [JBool True]"] by simp

end
