(* ===== verification/SpecHash.thy ===== *)
theory SpecHash
  imports SpecCanonical
begin

text \<open>
  \<^verbatim>\<open>NormalizedHash\<close> and the memoized accessors of \<^verbatim>\<open>canonical.go\<close>: SHA-256 over
  32-bit words as \<^verbatim>\<open>crypto/sha256\<close> computes it, its lowercase hex form, and the
  \<^verbatim>\<open>sync.Once\<close> memos of \<^verbatim>\<open>NormalizedSpec\<close>.
\<close>

unbundle bit_operations_syntax

section \<open>SHA-256\<close>

type_synonym w32 = "32 word"

text \<open>
  The round constants and the initial state: the first 32 fractional bits of the cube roots
  of the first 64 primes and of the square roots of the first eight, in decimal.
\<close>

definition sha256K :: "w32 list" where
  "sha256K = [
     1116352408, 1899447441, 3049323471, 3921009573, 961987163, 1508970993, 2453635748, 2870763221,
     3624381080, 310598401, 607225278, 1426881987, 1925078388, 2162078206, 2614888103, 3248222580,
     3835390401, 4022224774, 264347078, 604807628, 770255983, 1249150122, 1555081692, 1996064986,
     2554220882, 2821834349, 2952996808, 3210313671, 3336571891, 3584528711, 113926993, 338241895,
     666307205, 773529912, 1294757372, 1396182291, 1695183700, 1986661051, 2177026350, 2456956037,
     2730485921, 2820302411, 3259730800, 3345764771, 3516065817, 3600352804, 4094571909, 275423344,
     430227734, 506948616, 659060556, 883997877, 958139571, 1322822218, 1537002063, 1747873779,
     1955562222, 2024104815, 2227730452, 2361852424, 2428436474, 2756734187, 3204031479, 3329325298]"

definition sha256Init :: "w32 list" where
  "sha256Init = [
     1779033703, 3144134277, 1013904242, 2773480762, 1359893119, 2600822924, 528734635, 1541459225]"

definition bigEndian :: "nat list \<Rightarrow> w32" where
  "bigEndian bs = of_nat (foldl (\<lambda>acc b. acc * 256 + b) 0 bs)"

text \<open>The message followed by a one bit, zeros, and the bit length in 64 bits.\<close>

definition sha256Pad :: "nat list \<Rightarrow> nat list" where
  "sha256Pad msg = (let n = length msg in
     msg @ 128 # replicate ((119 - n mod 64) mod 64) 0 @
     map (\<lambda>i. (8 * n) div 256 ^ i mod 256) [7, 6, 5, 4, 3, 2, 1, 0])"

fun chunks :: "nat \<Rightarrow> nat list \<Rightarrow> nat list list" where
  "chunks k xs = (if k = 0 \<or> xs = [] then [] else take k xs # chunks k (drop k xs))"

declare chunks.simps [simp del]

definition smallSigma0 :: "w32 \<Rightarrow> w32" where
  "smallSigma0 x = word_rotr 7 x XOR word_rotr 18 x XOR drop_bit 3 x"

definition smallSigma1 :: "w32 \<Rightarrow> w32" where
  "smallSigma1 x = word_rotr 17 x XOR word_rotr 19 x XOR drop_bit 10 x"

definition bigSigma0 :: "w32 \<Rightarrow> w32" where
  "bigSigma0 x = word_rotr 2 x XOR word_rotr 13 x XOR word_rotr 22 x"

definition bigSigma1 :: "w32 \<Rightarrow> w32" where
  "bigSigma1 x = word_rotr 6 x XOR word_rotr 11 x XOR word_rotr 25 x"

definition shaCh :: "w32 \<Rightarrow> w32 \<Rightarrow> w32 \<Rightarrow> w32" where
  "shaCh e f g = (e AND f) XOR (NOT e AND g)"

definition shaMaj :: "w32 \<Rightarrow> w32 \<Rightarrow> w32 \<Rightarrow> w32" where
  "shaMaj a b c = (a AND b) XOR (a AND c) XOR (b AND c)"

text \<open>The schedule is a window of the last 16 words, oldest first.\<close>

definition scheduleStep :: "w32 list \<Rightarrow> w32 list" where
  "scheduleStep w = tl w @ [smallSigma1 (w ! 14) + w ! 9 + smallSigma0 (w ! 1) + hd w]"

fun sha256Rounds :: "w32 list \<Rightarrow> w32 list \<Rightarrow> w32 list \<Rightarrow> w32 list" where
  "sha256Rounds [] w st = st"
| "sha256Rounds (k # ks) w [a, b, c, d, e, f, g, h] =
     (let t1 = h + bigSigma1 e + shaCh e f g + k + hd w;
          t2 = bigSigma0 a + shaMaj a b c
      in sha256Rounds ks (scheduleStep w) [t1 + t2, a, b, c, d + t1, e, f, g])"
| "sha256Rounds ks w st = st"

definition sha256Block :: "nat list \<Rightarrow> w32 list \<Rightarrow> w32 list" where
  "sha256Block block st =
     map2 (+) st (sha256Rounds sha256K (map bigEndian (chunks 4 block)) st)"

definition wordBytes :: "w32 \<Rightarrow> nat list" where
  "wordBytes w = map (\<lambda>i. unat w div 256 ^ i mod 256) [3, 2, 1, 0]"

definition Sum256 :: "string \<Rightarrow> nat list" where
  "Sum256 s = concat (map wordBytes (fold sha256Block (chunks 64 (sha256Pad (map byte s))) sha256Init))"

definition hexEncode :: "nat list \<Rightarrow> string" where
  "hexEncode bs = concat (map (\<lambda>b. [hexDigit (b div 16), hexDigit b]) bs)"

section \<open>Memoized accessors\<close>

text \<open>
  \<^verbatim>\<open>once.Do\<close> runs its body on the first call only; a memo is the result stored by
  that call. The hash body reads the canonical bytes through the canonical memo.
\<close>

record memos =
  canonicalMemo :: "string result option"
  hashMemo :: "string result option"

definition freshMemos :: memos where
  "freshMemos = \<lparr>canonicalMemo = None, hashMemo = None\<rparr>"

definition CanonicalJSON :: "(string \<Rightarrow> json option) \<Rightarrow> AgentSpec \<Rightarrow> memos \<Rightarrow> string result \<times> memos" where
  "CanonicalJSON mo spec m =
     (case canonicalMemo m of
        Some r \<Rightarrow> (r, m)
      | None \<Rightarrow> let r = computeCanonicalJSON mo spec in (r, m\<lparr>canonicalMemo := Some r\<rparr>))"

definition NormalizedHash :: "(string \<Rightarrow> json option) \<Rightarrow> AgentSpec \<Rightarrow> memos \<Rightarrow> string result \<times> memos" where
  "NormalizedHash mo spec m =
     (case hashMemo m of
        Some r \<Rightarrow> (r, m)
      | None \<Rightarrow>
          let (b, m) = CanonicalJSON mo spec m;
              r = bindR b (\<lambda>bytes. Ok (hexEncode (Sum256 bytes)))
          in (r, m\<lparr>hashMemo := Some r\<rparr>))"

section \<open>Shape of the digest\<close>

lemma sha256Rounds_length: "length st = 8 \<Longrightarrow> length (sha256Rounds ks w st) = 8"
  by (induction ks w st rule: sha256Rounds.induct) (auto simp: Let_def)

lemma sha256Block_length [forge_inv]: "length st = 8 \<Longrightarrow> length (sha256Block b st) = 8"
  by (simp add: sha256Block_def sha256Rounds_length)

lemma fold_blocks_length: "length st = 8 \<Longrightarrow> length (fold sha256Block bs st) = 8"
  by (induction bs arbitrary: st) (simp_all add: sha256Block_length)

lemma length_concat_const: "(\<And>x. x \<in> set xs \<Longrightarrow> length (f x) = n) \<Longrightarrow> length (concat (map f xs)) = n * length xs"
  by (induction xs) simp_all

lemma length_Sum256: "length (Sum256 s) = 32"
proof -
  have "length (fold sha256Block bs sha256Init) = 8" for bs
    by (rule fold_blocks_length) (simp add: sha256Init_def)
  then show ?thesis by (simp add: Sum256_def wordBytes_def length_concat_const[where n = 4])
qed

definition isLowerHex :: "char \<Rightarrow> bool" where
  "isLowerHex c \<longleftrightarrow> c \<in> set ''0123456789abcdef''"

lemma isLowerHex_hexDigit [simp]: "isLowerHex (hexDigit n)"
  unfolding isLowerHex_def hexDigit_def by (rule nth_mem) simp

lemma hexEncode_shape: "length (hexEncode bs) = 2 * length bs \<and> list_all isLowerHex (hexEncode bs)"
  by (induction bs) (simp_all add: hexEncode_def)

lemma hexDigit_inj: "hexDigit m = hexDigit n \<Longrightarrow> m mod 16 = n mod 16"
  using hexVal_hexDigit[of m] hexVal_hexDigit[of n] by simp

lemma byte_by_digits: "b < 256 \<Longrightarrow> b div 16 mod 16 * 16 + b mod 16 = (b::nat)"
  by simp

lemma hexEncode_inj:
  "(\<And>b. b \<in> set bs \<union> set cs \<Longrightarrow> b < 256) \<Longrightarrow> hexEncode bs = hexEncode cs \<Longrightarrow> bs = cs"
proof (induction bs arbitrary: cs)
  case Nil
  then show ?case by (cases cs) (simp_all add: hexEncode_def)
next
  case (Cons b bs)
  then obtain c cs' where cs: "cs = c # cs'" by (cases cs) (auto simp: hexEncode_def)
  with Cons.prems have "hexDigit (b div 16) = hexDigit (c div 16)" "hexDigit b = hexDigit c"
    and rest: "hexEncode bs = hexEncode cs'" by (auto simp: hexEncode_def)
  then have "b div 16 mod 16 = c div 16 mod 16" "b mod 16 = c mod 16"
    using hexDigit_inj by blast+
  moreover have "b < 256" "c < 256" using Cons.prems(1) cs by simp_all
  ultimately have "b = c" by (metis byte_by_digits)
  with Cons.IH[of cs'] Cons.prems(1) cs rest show ?case by simp
qed

section \<open>Memos\<close>

text \<open>The memos of a value hold what was computed from its spec.\<close>

definition memosOf :: "(string \<Rightarrow> json option) \<Rightarrow> AgentSpec \<Rightarrow> memos \<Rightarrow> bool" where
  "memosOf mo spec m \<longleftrightarrow>
     (canonicalMemo m = None \<or> canonicalMemo m = Some (computeCanonicalJSON mo spec)) \<and>
     (hashMemo m = None \<or>
      hashMemo m = Some (bindR (computeCanonicalJSON mo spec) (\<lambda>b. Ok (hexEncode (Sum256 b)))))"

lemma freshMemos_ok [simp, forge_inv]: "memosOf mo spec freshMemos"
  by (simp add: memosOf_def freshMemos_def)

lemma CanonicalJSON_spec:
  "memosOf mo spec m \<Longrightarrow> fst (CanonicalJSON mo spec m) = computeCanonicalJSON mo spec"
  "memosOf mo spec m \<Longrightarrow> memosOf mo spec (snd (CanonicalJSON mo spec m))"
  by (auto simp: memosOf_def CanonicalJSON_def Let_def split: option.splits)

lemma NormalizedHash_spec:
  assumes "memosOf mo spec m"
  shows "fst (NormalizedHash mo spec m) = bindR (computeCanonicalJSON mo spec) (\<lambda>b. Ok (hexEncode (Sum256 b)))"
    and "memosOf mo spec (snd (NormalizedHash mo spec m))"
  using assms CanonicalJSON_spec[OF assms]
  by (auto simp: NormalizedHash_def memosOf_def Let_def split: option.splits prod.splits)

section \<open>Properties\<close>

text \<open>A normalized hash is 64 lowercase hexadecimal digits, the encoding of a 32-byte
  digest, and hashing fails exactly when the canonical JSON cannot be computed.\<close>

theorem NormalizedHash_shape:
  assumes "memosOf mo spec m"
  shows "(fst (NormalizedHash mo spec m) = Ok h \<longrightarrow> length h = 64 \<and> list_all isLowerHex h) \<and>
    isOk (fst (NormalizedHash mo spec m)) = isOk (computeCanonicalJSON mo spec)"
proof (cases "computeCanonicalJSON mo spec")
  case (Ok b)
  then show ?thesis
    using hexEncode_shape[of "Sum256 b"] by (auto simp: NormalizedHash_spec(1)[OF assms] length_Sum256)
qed (simp_all add: NormalizedHash_spec(1)[OF assms])

theorem NormalizedHash_shape_witness:
  "isOk (fst (NormalizedHash (\<lambda>_. None) zeroAgentSpec freshMemos)) = isOk (computeCanonicalJSON (\<lambda>_. None) zeroAgentSpec)"
  using NormalizedHash_shape[OF freshMemos_ok] by blast

text \<open>The memoized accessors return, on every call in any order, what the first call
  computed from the spec: the canonical JSON and its digest.\<close>

theorem memoized_accessors:
  assumes "memosOf mo spec m"
  shows "fst (CanonicalJSON mo spec m) = computeCanonicalJSON mo spec \<and>
    fst (NormalizedHash mo spec m) = bindR (computeCanonicalJSON mo spec) (\<lambda>b. Ok (hexEncode (Sum256 b))) \<and>
    memosOf mo spec (snd (CanonicalJSON mo spec m)) \<and> memosOf mo spec (snd (NormalizedHash mo spec m)) \<and>
    fst (NormalizedHash mo spec' (snd (NormalizedHash mo spec m))) = fst (NormalizedHash mo spec m)"
proof -
  have "fst (NormalizedHash mo spec' (snd (NormalizedHash mo spec m))) = fst (NormalizedHash mo spec m)"
    by (auto simp: NormalizedHash_def Let_def split: option.splits prod.splits)
  then show ?thesis using CanonicalJSON_spec[OF assms] NormalizedHash_spec[OF assms] by simp
qed

theorem memoized_accessors_witness:
  "fst (CanonicalJSON (\<lambda>_. None) zeroAgentSpec freshMemos) = computeCanonicalJSON (\<lambda>_. None) zeroAgentSpec"
  using memoized_accessors[OF freshMemos_ok] by blast

text \<open>The canonical JSON identifies a spec up to what it means to ignore: when both specs
  marshal, their canonical texts are equal exactly when the marshalled trees are equal after
  pruning nulls and empty collections and sorting keys. Equal texts give equal hashes.\<close>

theorem canonicalJSON_identifies:
  assumes "\<And>ty j. mo ty = Some j \<Longrightarrow> wf_json j" and "specTree mo s = Ok a" and "specTree mo t = Ok b"
  shows "(computeCanonicalJSON mo s = computeCanonicalJSON mo t \<longleftrightarrow>
      sortKeys (pruneEmpty a) = sortKeys (pruneEmpty b)) \<and>
    (computeCanonicalJSON mo s = computeCanonicalJSON mo t \<longrightarrow>
      fst (NormalizedHash mo s freshMemos) = fst (NormalizedHash mo t freshMemos))"
proof -
  have "wf_json a" "wf_json b"
    by (rule specTree_wf[OF assms(1) assms(2)], assumption) (rule specTree_wf[OF assms(1) assms(3)], assumption)
  from canonicalEncode_eq_iff[OF this[THEN pruneEmpty_wf]] show ?thesis
    by (auto simp: computeCanonicalJSON_def assms(2,3) NormalizedHash_spec(1))
qed

definition tinySpec :: "string \<Rightarrow> AgentSpec" where
  "tinySpec k = zeroAgentSpec\<lparr>s_Kind := k\<rparr>"

lemma tinySpec_tree:
  "list_all (\<lambda>c. byte c < 128) k \<Longrightarrow> specTree mo (tinySpec k) =
     Ok (JObj [(''apiVersion'', JStr []), (''kind'', JStr k),
       (''metadata'', JObj [(''id'', JStr []), (''version'', JStr [])]),
       (''provider'', JObj [(''ref'', JStr [])]), (''prompt'', JObj []), (''filters'', JObj [])])"
  by (simp add: specTree_def tinySpec_def zeroAgentSpec_def zeroMetadata_def structTree_def omit_def strTree_def
      refTree_def refsTree_def promptTree_def filtersTree_def metadataTree_def ptrTree_def decodeObj_def
      sanitize_valid valid_utf8_ascii)

theorem canonicalJSON_identifies_witness:
  "computeCanonicalJSON (\<lambda>_. None) (tinySpec ''A'') \<noteq> computeCanonicalJSON (\<lambda>_. None) (tinySpec ''B'')"
proof -
  have ascii: "list_all (\<lambda>c. byte c < 128) ''A''" "list_all (\<lambda>c. byte c < 128) ''B''" by (simp_all add: byte_def)
  show ?thesis
    using canonicalJSON_identifies[where mo = "\<lambda>_. None", OF _ tinySpec_tree[OF ascii(1)] tinySpec_tree[OF ascii(2)]]
    by (simp add: less_eq_char_def less_char_def)
qed

end
