(* ===== verification/BuildExpand.thy ===== *)
theory BuildExpand
  imports SpecNormalize SpecHash Registry
begin

text \<open>
  Skill expansion (\<^verbatim>\<open>build/expand.go\<close>): every skill's required tools, policies and
  output contract are injected into the composition, with strict conflict detection,
  and each injected component is attributed to the skill that brought it in.

  The injected-by map is keyed \<^verbatim>\<open>kind:id\<close> as in the source. \<open>mo\<close> is the marshalling
  of dynamic types outside the model (see \<open>GoJson\<close>), used by the config comparison.
\<close>

section \<open>expand.go\<close>

type_synonym mo = "string \<Rightarrow> json option"
type_synonym injected = "string \<Rightarrow> string option"

record ResolvedSkill =
  rs_ID :: string
  rs_Config :: gomap
  rs_Value :: Skill

record ResolvedOutputContract =
  ro_ID :: string
  ro_Config :: gomap
  ro_Value :: OutputContract

record ExpandedSpec =
  ex_Spec :: AgentSpec
  ex_Skills :: "ResolvedSkill list"
  ex_ResolvedOutputContract :: "ResolvedOutputContract option"
  ex_InjectedBy :: injected

definition errCodeEmptyContribution :: string where
  "errCodeEmptyContribution = ''skill_empty_contribution''"
definition errCodeUnresolvedRequired :: string where
  "errCodeUnresolvedRequired = ''skill_unresolved_required_component''"
definition errCodeVersionDivergence :: string where
  "errCodeVersionDivergence = ''skill_conflict_version_divergence''"
definition errCodeConfigDivergence :: string where
  "errCodeConfigDivergence = ''skill_conflict_config_divergence''"
definition errCodeOutputMultiple :: string where
  "errCodeOutputMultiple = ''skill_conflict_output_contract_multiple''"
definition errCodeOutputUserOverride :: string where
  "errCodeOutputUserOverride = ''skill_conflict_output_contract_user_override''"

definition isEmptyContribution :: "Skill \<Rightarrow> bool" where
  "isEmptyContribution sk \<longleftrightarrow> sk_PromptFragment sk = [] \<and>
     length (elems (sk_RequiredTools sk)) = 0 \<and> length (elems (sk_RequiredPolicies sk)) = 0 \<and>
     sk_RequiredOutputContract sk = None"

definition requiredRef :: "RequiredComponent \<Rightarrow> ComponentRef" where
  "requiredRef rc = \<lparr>cr_Ref = rc_ID rc, cr_Config = rc_Config rc\<rparr>"

definition injKey :: "string \<Rightarrow> string \<Rightarrow> string" where
  "injKey kindLabel cid = kindLabel @ '':'' @ cid"

text \<open>The loop over the existing refs: whether the component is already there.\<close>

fun findExisting :: "mo \<Rightarrow> string \<Rightarrow> string \<Rightarrow> RequiredComponent \<Rightarrow> string \<times> string \<Rightarrow>
    ComponentRef list \<Rightarrow> bool result" where
  "findExisting mo kindLabel skillID rc want [] = Ok False"
| "findExisting mo kindLabel skillID rc want (existing # rest) =
     bindR (wrapErr (\<lambda>err. Errorf ''%s %s: existing ref %q: %w''
              [AStr kindLabel, AStr skillID, AStr (cr_Ref existing), AWrap err]) (ParseID (cr_Ref existing)))
       (\<lambda>got.
         if fst got \<noteq> fst want then findExisting mo kindLabel skillID rc want rest
         else if snd got \<noteq> snd want then
           Err (Errorf ''%s: skill %s wants %s at version %s but composition already has %s (existing ref %s)''
             [AStr errCodeVersionDivergence, AStr skillID, AStr (fst want), AStr (snd want), AStr (snd got),
              AStr (cr_Ref existing)])
         else bindR (wrapErr (\<lambda>err. Errorf ''%s: %w'' [AStr errCodeConfigDivergence, AWrap err])
                (CanonicalConfigsEqual mo (cr_Config existing) (rc_Config rc)))
           (\<lambda>eq. if \<not> eq then
                Err (Errorf ''%s: skill %s wants %s with a different config than the one already in the composition''
                  [AStr errCodeConfigDivergence, AStr skillID, AStr (rc_ID rc)])
              else Ok True))"

definition injectRequired :: "mo \<Rightarrow> string \<Rightarrow> string \<Rightarrow> RequiredComponent \<Rightarrow>
    (ComponentRef list \<times> injected) \<Rightarrow> (ComponentRef list \<times> injected) result" where
  "injectRequired mo kindLabel skillID rc st =
     (if rc_ID rc = [] then Err (Errorf ''%s %s: RequiredComponent missing ID'' [AStr kindLabel, AStr skillID])
      else bindR (wrapErr (\<lambda>err. Errorf ''%s %s: %w'' [AStr kindLabel, AStr skillID, AWrap err]) (ParseID (rc_ID rc)))
        (\<lambda>want. bindR (findExisting mo kindLabel skillID rc want (fst st))
          (\<lambda>found. if found then Ok st
             else Ok (fst st @ [requiredRef rc], (snd st)(injKey kindLabel (rc_ID rc) \<mapsto> skillID)))))"

definition injectOutputContract :: "mo \<Rightarrow> string \<Rightarrow> RequiredComponent \<Rightarrow>
    (ComponentRef option \<times> injected) \<Rightarrow> (ComponentRef option \<times> injected) result" where
  "injectOutputContract mo skillID rc st =
     (if rc_ID rc = [] then
        Err (Errorf ''output_contract skill %s: RequiredOutputContract missing ID'' [AStr skillID])
      else bindR (wrapErr (\<lambda>err. Errorf ''output_contract skill %s: %w'' [AStr skillID, AWrap err]) (ParseID (rc_ID rc)))
        (\<lambda>_. case fst st of
           None \<Rightarrow> Ok (Some (requiredRef rc), (snd st)(injKey ''output_contract'' (rc_ID rc) \<mapsto> skillID))
         | Some oc \<Rightarrow>
             let skillInjected = (snd st (injKey ''output_contract'' (cr_Ref oc)) \<noteq> None) in
             if cr_Ref oc \<noteq> rc_ID rc then
               (if skillInjected then
                  Err (Errorf ''%s: skills require different output contracts (%s vs %s)''
                    [AStr errCodeOutputMultiple, AStr (cr_Ref oc), AStr (rc_ID rc)])
                else Err (Errorf ''%s: skill %s requires output contract %s but user declared %s''
                    [AStr errCodeOutputUserOverride, AStr skillID, AStr (rc_ID rc), AStr (cr_Ref oc)]))
             else bindR (wrapErr (\<lambda>err. Errorf ''%s: %w'' [AStr errCodeOutputUserOverride, AWrap err])
                    (CanonicalConfigsEqual mo (cr_Config oc) (rc_Config rc)))
               (\<lambda>eq. if eq then Ok st
                  else if skillInjected then
                    Err (Errorf ''%s: two skills require %s with divergent configs''
                      [AStr errCodeOutputMultiple, AStr (rc_ID rc)])
                  else Err (Errorf ''%s: skill %s requires %s but user config differs''
                      [AStr errCodeOutputUserOverride, AStr skillID, AStr (rc_ID rc)]))))"

text \<open>
  The mutable part of the expansion: the rewritten tool, policy and output-contract
  slots, the skills so far and the attribution.
\<close>

record expandState =
  es_Tools :: "ComponentRef list"
  es_Policies :: "ComponentRef list"
  es_OutputContract :: "ComponentRef option"
  es_Skills :: "ResolvedSkill list"
  es_InjectedBy :: injected

definition injectTools :: "mo \<Rightarrow> string \<Rightarrow> RequiredComponent list \<Rightarrow> expandState \<Rightarrow> expandState result" where
  "injectTools mo skillID rcs st =
     bindR (foldR (\<lambda>_. injectRequired mo ''tool_pack'' skillID) 0 rcs (es_Tools st, es_InjectedBy st))
       (\<lambda>(t, i). Ok (st\<lparr>es_Tools := t, es_InjectedBy := i\<rparr>))"

definition injectPolicies :: "mo \<Rightarrow> string \<Rightarrow> RequiredComponent list \<Rightarrow> expandState \<Rightarrow> expandState result" where
  "injectPolicies mo skillID rcs st =
     bindR (foldR (\<lambda>_. injectRequired mo ''policy_pack'' skillID) 0 rcs (es_Policies st, es_InjectedBy st))
       (\<lambda>(p, i). Ok (st\<lparr>es_Policies := p, es_InjectedBy := i\<rparr>))"

definition injectContract :: "mo \<Rightarrow> string \<Rightarrow> RequiredComponent option \<Rightarrow> expandState \<Rightarrow> expandState result" where
  "injectContract mo skillID rc st = (case rc of
     None \<Rightarrow> Ok st
   | Some rc \<Rightarrow> bindR (injectOutputContract mo skillID rc (es_OutputContract st, es_InjectedBy st))
       (\<lambda>(oc, i). Ok (st\<lparr>es_OutputContract := oc, es_InjectedBy := i\<rparr>)))"

definition expandOne :: "mo \<Rightarrow> ctx \<Rightarrow> 'h ComponentRegistry \<Rightarrow> nat \<Rightarrow> ComponentRef \<Rightarrow> expandState \<Rightarrow>
    expandState result" where
  "expandOne mo ctx r i skillRef st =
     bindR (wrapErr (\<lambda>err. Errorf ''resolve skills[%d] %s: %w'' [AInt (int i), AStr (cr_Ref skillRef), AWrap err])
              (LookupSkill r (cr_Ref skillRef))) (\<lambda>fac.
     bindR (wrapErr (\<lambda>err. Errorf ''build skills[%d] %s: %w'' [AInt (int i), AStr (cr_Ref skillRef), AWrap err])
              (f_Build fac ctx (cr_Config skillRef))) (\<lambda>skVal.
     if isEmptyContribution skVal then
       Err (Errorf ''skills[%d] %s: %s: skill contributes no prompt fragment, no required components''
         [AInt (int i), AStr (cr_Ref skillRef), AStr errCodeEmptyContribution])
     else
       let st = st\<lparr>es_Skills := es_Skills st @
             [\<lparr>rs_ID = cr_Ref skillRef, rs_Config = cr_Config skillRef, rs_Value = skVal\<rparr>]\<rparr> in
       bindR (injectTools mo (cr_Ref skillRef) (elems (sk_RequiredTools skVal)) st) (\<lambda>st.
       bindR (injectPolicies mo (cr_Ref skillRef) (elems (sk_RequiredPolicies skVal)) st)
         (injectContract mo (cr_Ref skillRef) (sk_RequiredOutputContract skVal)))))"

definition initExpand :: "AgentSpec \<Rightarrow> expandState" where
  "initExpand s = \<lparr>es_Tools = elems (s_Tools s), es_Policies = elems (s_Policies s),
     es_OutputContract = s_OutputContract s, es_Skills = [], es_InjectedBy = (\<lambda>_. None)\<rparr>"

definition finishExpand :: "AgentSpec \<Rightarrow> expandState \<Rightarrow> ExpandedSpec" where
  "finishExpand s st =
     \<lparr>ex_Spec = s\<lparr>s_Tools := appended (es_Tools st), s_Policies := appended (es_Policies st),
          s_OutputContract := es_OutputContract st\<rparr>,
      ex_Skills = es_Skills st, ex_ResolvedOutputContract = None, ex_InjectedBy = es_InjectedBy st\<rparr>"

definition expandSkills :: "mo \<Rightarrow> ctx \<Rightarrow> AgentSpec \<Rightarrow> 'h ComponentRegistry \<Rightarrow> ExpandedSpec result" where
  "expandSkills mo ctx s r =
     bindR (foldR (expandOne mo ctx r) 0 (elems (s_Skills s)) (initExpand s)) (\<lambda>st. Ok (finishExpand s st))"

definition resolveOutputContract :: "ctx \<Rightarrow> ExpandedSpec \<Rightarrow> 'h ComponentRegistry \<Rightarrow> ExpandedSpec result" where
  "resolveOutputContract ctx es r = (case s_OutputContract (ex_Spec es) of
     None \<Rightarrow> Ok es
   | Some oc \<Rightarrow>
       bindR (wrapErr (\<lambda>err. Errorf ''resolve outputContract: %w'' [AWrap err]) (LookupOutputContract r (cr_Ref oc))) (\<lambda>fac.
       bindR (wrapErr (\<lambda>err. Errorf ''build outputContract %s: %w'' [AStr (cr_Ref oc), AWrap err])
                (f_Build fac ctx (cr_Config oc))) (\<lambda>val.
       Ok (es\<lparr>ex_ResolvedOutputContract :=
             Some \<lparr>ro_ID = cr_Ref oc, ro_Config = cr_Config oc, ro_Value = val\<rparr>\<rparr>))))"

section \<open>expanded_hash.go\<close>

definition computeExpandedHash :: "mo \<Rightarrow> ExpandedSpec \<Rightarrow> string result" where
  "computeExpandedHash mo es = fst (NormalizedHash mo (ex_Spec es) freshMemos)"

section \<open>One injection\<close>

text \<open>A requirement is met by a ref with its id and an equal configuration.\<close>

definition meets :: "mo \<Rightarrow> RequiredComponent \<Rightarrow> ComponentRef \<Rightarrow> bool" where
  "meets mo rc e \<longleftrightarrow> cr_Ref e = rc_ID rc \<and>
     (cr_Config e = rc_Config rc \<or> CanonicalConfigsEqual mo (cr_Config e) (rc_Config rc) = Ok True)"

definition nameOf :: "string \<Rightarrow> string" where
  "nameOf ref = takeWhile (\<lambda>c. c \<noteq> CHR ''@'') ref"

lemma ParseID_nameOf: "ParseID ref = Ok nv \<Longrightarrow> nameOf ref = fst nv"
  by (cases nv) (auto simp: nameOf_def ParseID_Ok_iff dest!: valid_name_no_at intro!: takeWhile_eq_all_conv[THEN iffD2]
      simp: takeWhile_append2 takeWhile_tail)

lemma findExisting_Ok:
  "findExisting mo k sk rc want refs = Ok b \<Longrightarrow>
     (if b then \<exists>e \<in> set refs. ParseID (cr_Ref e) = Ok want \<and>
        CanonicalConfigsEqual mo (cr_Config e) (rc_Config rc) = Ok True
      else \<forall>e \<in> set refs. nameOf (cr_Ref e) \<noteq> fst want)"
proof (induction refs)
  case (Cons e refs)
  from Cons.prems obtain got where g: "ParseID (cr_Ref e) = Ok got" by auto
  show ?case
  proof (cases "fst got = fst want")
    case True
    with Cons.prems g have "snd got = snd want" "b" "CanonicalConfigsEqual mo (cr_Config e) (rc_Config rc) = Ok True"
      by (auto split: if_splits)
    with g True show ?thesis by (auto simp: prod_eq_iff intro!: bexI[of _ e])
  next
    case False
    with Cons g ParseID_nameOf[OF g] show ?thesis by auto
  qed
qed auto

lemma injectRequired_Ok:
  assumes "injectRequired mo k sk rc (t, ij) = Ok (t', ij')"
  shows "(t' = t \<and> ij' = ij \<and> (\<exists>e \<in> set t. meets mo rc e)) \<or>
    (t' = t @ [requiredRef rc] \<and> ij' = ij(injKey k (rc_ID rc) \<mapsto> sk) \<and>
     (\<forall>e \<in> set t. nameOf (cr_Ref e) \<noteq> nameOf (rc_ID rc)))"
proof -
  from assms obtain want found where w: "ParseID (rc_ID rc) = Ok want"
    and f: "findExisting mo k sk rc want t = Ok found"
    and r: "(t', ij') = (if found then (t, ij) else (t @ [requiredRef rc], ij(injKey k (rc_ID rc) \<mapsto> sk)))"
    by (auto simp: injectRequired_def split: if_splits)
  show ?thesis
  proof (cases found)
    case True
    with findExisting_Ok[OF f] w r show ?thesis by (auto simp: meets_def dest: ParseID_inj)
  next
    case False
    with findExisting_Ok[OF f] ParseID_nameOf[OF w] r show ?thesis by auto
  qed
qed

text \<open>
  A batch of injections for one skill: refs are only appended, each for a requirement,
  each attributed; every requirement ends up met; component names stay distinct.
\<close>

definition attribute :: "string \<Rightarrow> string \<Rightarrow> ComponentRef list \<Rightarrow> injected \<Rightarrow> injected" where
  "attribute k sk added ij = (\<lambda>x. if x \<in> (\<lambda>e. injKey k (cr_Ref e)) ` set added then Some sk else ij x)"

lemma attribute_simps:
  "attribute k sk [] ij = ij"
  "attribute k sk bs (attribute k sk as ij) = attribute k sk (as @ bs) ij"
  "ij(injKey k (rc_ID rc) \<mapsto> sk) = attribute k sk [requiredRef rc] ij"
  by (auto simp: attribute_def requiredRef_def fun_eq_iff)

lemma meets_requiredRef [simp]: "meets mo rc (requiredRef rc)"
  by (simp add: meets_def requiredRef_def)

lemma inject_batch:
  assumes "foldR (\<lambda>_. injectRequired mo k sk) i rcs (t, ij) = Ok (t', ij')"
  shows "\<exists>added. t' = t @ added \<and> ij' = attribute k sk added ij \<and>
    (\<forall>rc \<in> set rcs. \<exists>e \<in> set t'. meets mo rc e) \<and> set added \<subseteq> requiredRef ` set rcs \<and>
    (distinct (map (\<lambda>e. nameOf (cr_Ref e)) t) \<longrightarrow> distinct (map (\<lambda>e. nameOf (cr_Ref e)) t'))"
  using assms
proof (induction rcs arbitrary: i t ij)
  case Nil
  then show ?case by (auto simp: attribute_simps)
next
  case (Cons rc rcs)
  from Cons.prems obtain u j where u: "injectRequired mo k sk rc (t, ij) = Ok (u, j)"
    and rest: "foldR (\<lambda>_. injectRequired mo k sk) (Suc i) rcs (u, j) = Ok (t', ij')" by auto
  from Cons.IH[OF rest] obtain added where a: "t' = u @ added" "ij' = attribute k sk added j"
    "\<forall>rc \<in> set rcs. \<exists>e \<in> set t'. meets mo rc e" "set added \<subseteq> requiredRef ` set rcs"
    "distinct (map (\<lambda>e. nameOf (cr_Ref e)) u) \<longrightarrow> distinct (map (\<lambda>e. nameOf (cr_Ref e)) t')" by auto
  from injectRequired_Ok[OF u] show ?case
  proof (elim disjE conjE)
    assume "u = t" "j = ij" "\<exists>e \<in> set t. meets mo rc e"
    with a show ?thesis by (intro exI[of _ added]) auto
  next
    assume *: "u = t @ [requiredRef rc]" "j = ij(injKey k (rc_ID rc) \<mapsto> sk)"
      "\<forall>e \<in> set t. nameOf (cr_Ref e) \<noteq> nameOf (rc_ID rc)"
    then have "ij' = attribute k sk (requiredRef rc # added) ij"
      using a(2) by (simp add: attribute_simps)
    moreover have "cr_Ref (requiredRef rc) = rc_ID rc" by (simp add: requiredRef_def)
    ultimately show ?thesis using * a by (intro exI[of _ "requiredRef rc # added"]) auto
  qed
qed

lemma injectOutputContract_Ok:
  assumes "injectOutputContract mo sk rc (oc, ij) = Ok (oc', ij')"
  shows "\<exists>e. oc' = Some e \<and> meets mo rc e \<and>
    (case oc of None \<Rightarrow> e = requiredRef rc \<and> ij' = ij(injKey ''output_contract'' (rc_ID rc) \<mapsto> sk)
     | Some e' \<Rightarrow> e = e' \<and> ij' = ij)"
  using assms by (auto simp: injectOutputContract_def Let_def meets_def requiredRef_def split: if_splits option.splits)

section \<open>The whole expansion\<close>

text \<open>
  The invariant of the loop over skills, relative to the spec being expanded:
  user-declared refs stay in front and untouched, a user-declared contract stays, every
  skill so far has its requirements met, and a component is attributed exactly when it
  was injected, to one of the skills so far.
\<close>

definition skillMet :: "mo \<Rightarrow> expandState \<Rightarrow> Skill \<Rightarrow> bool" where
  "skillMet mo st sk \<longleftrightarrow>
     (\<forall>rc \<in> set (elems (sk_RequiredTools sk)). \<exists>e \<in> set (es_Tools st). meets mo rc e) \<and>
     (\<forall>rc \<in> set (elems (sk_RequiredPolicies sk)). \<exists>e \<in> set (es_Policies st). meets mo rc e) \<and>
     (\<forall>rc. sk_RequiredOutputContract sk = Some rc \<longrightarrow> (\<exists>e. es_OutputContract st = Some e \<and> meets mo rc e))"

text \<open>One state extends another: nothing is removed or replaced.\<close>

definition extends :: "expandState \<Rightarrow> expandState \<Rightarrow> bool" where
  "extends st st' \<longleftrightarrow> (\<exists>at ap. es_Tools st' = es_Tools st @ at \<and> es_Policies st' = es_Policies st @ ap) \<and>
     (es_OutputContract st \<noteq> None \<longrightarrow> es_OutputContract st' = es_OutputContract st) \<and>
     (\<exists>sks. es_Skills st' = es_Skills st @ sks)"

lemma extends_refl [simp]: "extends st st"
  by (simp add: extends_def)

lemma extends_trans: "extends a b \<Longrightarrow> extends b c \<Longrightarrow> extends a c"
  unfolding extends_def by (elim conjE exE) simp

lemma skillMet_extends: "skillMet mo st sk \<Longrightarrow> extends st st' \<Longrightarrow> skillMet mo st' sk"
  unfolding skillMet_def extends_def by (elim conjE exE) (auto 4 4)

definition injectedKeys :: "AgentSpec \<Rightarrow> expandState \<Rightarrow> string set" where
  "injectedKeys s st =
     (\<lambda>e. injKey ''tool_pack'' (cr_Ref e)) ` set (drop (length (elems (s_Tools s))) (es_Tools st)) \<union>
     (\<lambda>e. injKey ''policy_pack'' (cr_Ref e)) ` set (drop (length (elems (s_Policies s))) (es_Policies st)) \<union>
     (if s_OutputContract s = None then (\<lambda>e. injKey ''output_contract'' (cr_Ref e)) ` set_option (es_OutputContract st)
      else {})"

definition expandBase :: "AgentSpec \<Rightarrow> expandState \<Rightarrow> bool" where
  "expandBase s st \<longleftrightarrow> extends (initExpand s) st \<and> dom (es_InjectedBy st) = injectedKeys s st \<and>
     ran (es_InjectedBy st) \<subseteq> rs_ID ` set (es_Skills st)"

definition expandInv :: "mo \<Rightarrow> AgentSpec \<Rightarrow> expandState \<Rightarrow> bool" where
  "expandInv mo s st \<longleftrightarrow> expandBase s st \<and> (\<forall>rs \<in> set (es_Skills st). skillMet mo st (rs_Value rs))"

lemma injectTools_Ok:
  assumes "injectTools mo sk rcs st = Ok st'"
  shows "\<exists>added. st' = st\<lparr>es_Tools := es_Tools st @ added, es_InjectedBy := attribute ''tool_pack'' sk added (es_InjectedBy st)\<rparr> \<and>
    (\<forall>rc \<in> set rcs. \<exists>e \<in> set (es_Tools st'). meets mo rc e)"
proof -
  from assms obtain t ij where f: "foldR (\<lambda>_. injectRequired mo ''tool_pack'' sk) 0 rcs (es_Tools st, es_InjectedBy st) = Ok (t, ij)"
    and st': "st' = st\<lparr>es_Tools := t, es_InjectedBy := ij\<rparr>" by (auto simp: injectTools_def)
  from inject_batch[OF f] st' show ?thesis by auto
qed

lemma injectPolicies_Ok:
  assumes "injectPolicies mo sk rcs st = Ok st'"
  shows "\<exists>added. st' = st\<lparr>es_Policies := es_Policies st @ added, es_InjectedBy := attribute ''policy_pack'' sk added (es_InjectedBy st)\<rparr> \<and>
    (\<forall>rc \<in> set rcs. \<exists>e \<in> set (es_Policies st'). meets mo rc e)"
proof -
  from assms obtain t ij where f: "foldR (\<lambda>_. injectRequired mo ''policy_pack'' sk) 0 rcs (es_Policies st, es_InjectedBy st) = Ok (t, ij)"
    and st': "st' = st\<lparr>es_Policies := t, es_InjectedBy := ij\<rparr>" by (auto simp: injectPolicies_def)
  from inject_batch[OF f] st' show ?thesis by auto
qed

lemma injectContract_Ok:
  assumes "injectContract mo sk orc st = Ok st'"
  shows "(\<forall>rc. orc = Some rc \<longrightarrow> (\<exists>e. es_OutputContract st' = Some e \<and> meets mo rc e)) \<and>
    (st' = st \<or> (\<exists>e. es_OutputContract st = None \<and>
       st' = st\<lparr>es_OutputContract := Some e,
         es_InjectedBy := (es_InjectedBy st)(injKey ''output_contract'' (cr_Ref e) \<mapsto> sk)\<rparr>))"
proof (cases orc)
  case None
  with assms show ?thesis by (simp add: injectContract_def)
next
  case (Some rc)
  with assms obtain oc ij where i: "injectOutputContract mo sk rc (es_OutputContract st, es_InjectedBy st) = Ok (oc, ij)"
    and st': "st' = st\<lparr>es_OutputContract := oc, es_InjectedBy := ij\<rparr>" by (auto simp: injectContract_def)
  note e = injectOutputContract_Ok[OF i]
  show ?thesis
  proof (cases "es_OutputContract st")
    case None
    with e st' Some show ?thesis
      by (auto simp: requiredRef_def intro!: exI[of _ "\<lparr>cr_Ref = rc_ID rc, cr_Config = rc_Config rc\<rparr>"])
  qed (use e st' Some in auto)
qed

lemma dom_attribute: "dom (attribute k sk added ij) = dom ij \<union> (\<lambda>e. injKey k (cr_Ref e)) ` set added"
  by (auto simp: attribute_def dom_def)

lemma ran_attribute: "ran (attribute k sk added ij) \<subseteq> insert sk (ran ij)"
  by (auto simp: attribute_def ran_def)

lemma initExpand_simps [simp]:
  "es_Tools (initExpand s) = elems (s_Tools s)" "es_Policies (initExpand s) = elems (s_Policies s)"
  "es_OutputContract (initExpand s) = s_OutputContract s" "es_Skills (initExpand s) = []"
  "es_InjectedBy (initExpand s) = (\<lambda>_. None)"
  by (simp_all add: initExpand_def)

lemma base_init: "expandBase s (initExpand s)"
  by (auto simp: expandBase_def injectedKeys_def)

lemma base_skill: "expandBase s st \<Longrightarrow> expandBase s (st\<lparr>es_Skills := es_Skills st @ [rs]\<rparr>)"
  by (auto simp: expandBase_def extends_def injectedKeys_def)

lemma base_tools:
  assumes "expandBase s st" "sk \<in> rs_ID ` set (es_Skills st)"
  shows "expandBase s (st\<lparr>es_Tools := es_Tools st @ added, es_InjectedBy := attribute ''tool_pack'' sk added (es_InjectedBy st)\<rparr>)"
proof -
  from assms(1) obtain at where "es_Tools st = elems (s_Tools s) @ at"
    by (auto simp: expandBase_def extends_def)
  with assms ran_attribute[of "''tool_pack''" sk added "es_InjectedBy st"] show ?thesis
    by (auto simp: expandBase_def extends_def injectedKeys_def dom_attribute)
qed

lemma base_policies:
  assumes "expandBase s st" "sk \<in> rs_ID ` set (es_Skills st)"
  shows "expandBase s (st\<lparr>es_Policies := es_Policies st @ added, es_InjectedBy := attribute ''policy_pack'' sk added (es_InjectedBy st)\<rparr>)"
proof -
  from assms(1) obtain ap where "es_Policies st = elems (s_Policies s) @ ap"
    by (auto simp: expandBase_def extends_def)
  with assms ran_attribute[of "''policy_pack''" sk added "es_InjectedBy st"] show ?thesis
    by (auto simp: expandBase_def extends_def injectedKeys_def dom_attribute)
qed

lemma base_contract:
  assumes "expandBase s st" "sk \<in> rs_ID ` set (es_Skills st)" "es_OutputContract st = None"
  shows "expandBase s (st\<lparr>es_OutputContract := Some e,
    es_InjectedBy := (es_InjectedBy st)(injKey ''output_contract'' (cr_Ref e) \<mapsto> sk)\<rparr>)"
proof -
  have "s_OutputContract s = None" using assms by (auto simp: expandBase_def extends_def)
  moreover have "ran ((es_InjectedBy st)(injKey ''output_contract'' (cr_Ref e) \<mapsto> sk)) \<subseteq> insert sk (ran (es_InjectedBy st))"
    by (auto simp: ran_def)
  ultimately show ?thesis
    using assms by (auto simp: expandBase_def extends_def injectedKeys_def)
qed

lemma expandOne_inv [forge_inv]:
  assumes "expandOne mo ctx r i ref st = Ok st'" "expandInv mo s st"
  shows "expandInv mo s st'"
proof -
  from assms(1) obtain skVal st2 st3 where
    2: "injectTools mo (cr_Ref ref) (elems (sk_RequiredTools skVal)) (st\<lparr>es_Skills := es_Skills st @
          [\<lparr>rs_ID = cr_Ref ref, rs_Config = cr_Config ref, rs_Value = skVal\<rparr>]\<rparr>) = Ok st2"
    and 3: "injectPolicies mo (cr_Ref ref) (elems (sk_RequiredPolicies skVal)) st2 = Ok st3"
    and 4: "injectContract mo (cr_Ref ref) (sk_RequiredOutputContract skVal) st3 = Ok st'"
    by (auto simp: expandOne_def Let_def split: if_splits)
  let ?st1 = "st\<lparr>es_Skills := es_Skills st @ [\<lparr>rs_ID = cr_Ref ref, rs_Config = cr_Config ref, rs_Value = skVal\<rparr>]\<rparr>"
  have b1: "expandBase s ?st1" using assms(2) base_skill by (simp add: expandInv_def)
  from injectTools_Ok[OF 2] b1 base_tools[of s ?st1 "cr_Ref ref"]
  have b2: "expandBase s st2" "es_Skills st2 = es_Skills ?st1" "extends ?st1 st2" by (auto simp: extends_def)
  from injectPolicies_Ok[OF 3] b2 base_policies[of s st2 "cr_Ref ref"]
  have b3: "expandBase s st3" "es_Skills st3 = es_Skills st2" "extends st2 st3" by (auto simp: extends_def)
  from injectContract_Ok[OF 4] b2 b3 base_contract[of s st3 "cr_Ref ref"]
  have b4: "expandBase s st'" "es_Skills st' = es_Skills st3" "extends st3 st'" by (auto simp: extends_def)
  have "extends st ?st1" by (simp add: extends_def)
  then have "extends st st'" using b2(3) b3(3) b4(3) by (blast intro: extends_trans)
  then have old: "skillMet mo st' (rs_Value rs)" if "rs \<in> set (es_Skills st)" for rs
    using assms(2) that by (auto simp: expandInv_def intro: skillMet_extends)
  have "\<exists>at. es_Tools st' = es_Tools st2 @ at" "\<exists>ap. es_Policies st' = es_Policies st3 @ ap"
    using b3(3) b4(3) by (auto simp: extends_def)
  then have new: "skillMet mo st' skVal"
    using injectTools_Ok[OF 2] injectPolicies_Ok[OF 3] injectContract_Ok[OF 4]
    unfolding skillMet_def by (elim conjE exE) (auto 4 3)
  show ?thesis using b4(1,2) b3(2) b2(2) old new by (auto simp: expandInv_def)
qed

lemma foldR_expandInv:
  "foldR (expandOne mo ctx r) i refs st = Ok st' \<Longrightarrow> expandInv mo s st \<Longrightarrow> expandInv mo s st'"
  by (erule foldR_invariant) (auto intro: expandOne_inv)

lemma expandSkills_inv:
  assumes "expandSkills mo ctx s r = Ok es"
  shows "\<exists>st. expandInv mo s st \<and> es = finishExpand s st"
proof -
  from assms obtain st where "foldR (expandOne mo ctx r) 0 (elems (s_Skills s)) (initExpand s) = Ok st"
    "es = finishExpand s st" by (auto simp: expandSkills_def)
  moreover have "expandInv mo s (initExpand s)" by (simp add: expandInv_def base_init)
  ultimately show ?thesis using foldR_expandInv by blast
qed

text \<open>The skills of the result are the declared ones, in order.\<close>

lemma expandOne_skills:
  "expandOne mo ctx r i ref st = Ok st' \<Longrightarrow>
     map rs_ID (es_Skills st') = map rs_ID (es_Skills st) @ [cr_Ref ref]"
  by (auto simp: expandOne_def Let_def split: if_splits
      dest!: injectTools_Ok injectPolicies_Ok injectContract_Ok)

lemma foldR_skills:
  "foldR (expandOne mo ctx r) i refs st = Ok st' \<Longrightarrow>
     map rs_ID (es_Skills st') = map rs_ID (es_Skills st) @ map cr_Ref refs"
  by (induction refs arbitrary: i st) (auto dest: expandOne_skills)

section \<open>Properties\<close>

text \<open>The metadata of the injected components: kind label and refs beyond the declared ones.\<close>

definition addedRefs :: "string \<Rightarrow> ComponentRef slice \<Rightarrow> ComponentRef slice \<Rightarrow> string set" where
  "addedRefs k old new = (\<lambda>e. injKey k (cr_Ref e)) ` set (drop (length (elems old)) (elems new))"

text \<open>Expanding skills only adds: the user's tools and policies stay in front, in order and
  with their configurations, a user-declared output contract stays, every other field of the
  spec is untouched, and the skills recorded are those declared, in order. A component is
  attributed to a skill exactly when the expansion injected it, and the attribution names a
  declared skill.\<close>

theorem expandSkills_only_adds:
  assumes "expandSkills mo ctx s r = Ok es"
  shows "(\<exists>at ap. elems (s_Tools (ex_Spec es)) = elems (s_Tools s) @ at \<and>
      elems (s_Policies (ex_Spec es)) = elems (s_Policies s) @ ap) \<and>
    (s_OutputContract s \<noteq> None \<longrightarrow> s_OutputContract (ex_Spec es) = s_OutputContract s) \<and>
    (ex_Spec es)\<lparr>s_Tools := s_Tools s, s_Policies := s_Policies s, s_OutputContract := s_OutputContract s\<rparr> = s \<and>
    map rs_ID (ex_Skills es) = map cr_Ref (elems (s_Skills s)) \<and>
    dom (ex_InjectedBy es) = addedRefs ''tool_pack'' (s_Tools s) (s_Tools (ex_Spec es)) \<union>
      addedRefs ''policy_pack'' (s_Policies s) (s_Policies (ex_Spec es)) \<union>
      (if s_OutputContract s = None
       then (\<lambda>e. injKey ''output_contract'' (cr_Ref e)) ` set_option (s_OutputContract (ex_Spec es)) else {}) \<and>
    ran (ex_InjectedBy es) \<subseteq> set (map cr_Ref (elems (s_Skills s)))"
proof -
  from assms obtain st where st: "foldR (expandOne mo ctx r) 0 (elems (s_Skills s)) (initExpand s) = Ok st"
    and es: "es = finishExpand s st" by (auto simp: expandSkills_def)
  have inv: "expandInv mo s st" by (rule foldR_expandInv[OF st]) (simp add: expandInv_def base_init)
  have sk: "map rs_ID (es_Skills st) = map cr_Ref (elems (s_Skills s))" using foldR_skills[OF st] by simp
  have app: "elems (appended xs) = xs" for xs :: "ComponentRef list" by (simp add: appended_def)
  have "rs_ID ` set (es_Skills st) = set (map cr_Ref (elems (s_Skills s)))" by (simp only: sk[symmetric] set_map)
  with inv sk show ?thesis
    by (auto simp: es finishExpand_def expandInv_def expandBase_def extends_def injectedKeys_def addedRefs_def app)
qed

definition needTool :: RequiredComponent where
  "needTool = \<lparr>rc_ID = ''toolpack.x@1.0.0'', rc_Config = None\<rparr>"

definition sampleSkill :: Skill where
  "sampleSkill = \<lparr>sk_PromptFragment = ''be brief'', sk_RequiredTools = Some [needTool], sk_RequiredPolicies = None,
     sk_RequiredOutputContract = None, sk_Descriptor = \<lparr>sd_Name = [], sd_Owner = [], sd_Summary = [], sd_Tags = None\<rparr>\<rparr>"

definition skillRegistry :: "nat ComponentRegistry" where
  "skillRegistry = NewComponentRegistry\<lparr>skills := [''skill.s@1.0.0'' \<mapsto> constFactory ''skill.s@1.0.0'' sampleSkill]\<rparr>"

definition skillSpec :: AgentSpec where
  "skillSpec = sampleSpec\<lparr>s_Skills := Some [\<lparr>cr_Ref = ''skill.s@1.0.0'', cr_Config = None\<rparr>]\<rparr>"

definition expandedSample :: ExpandedSpec where
  "expandedSample = \<lparr>ex_Spec = skillSpec\<lparr>s_Tools := Some [\<lparr>cr_Ref = ''toolpack.http-get@1.0.0'', cr_Config = None\<rparr>,
         \<lparr>cr_Ref = ''toolpack.x@1.0.0'', cr_Config = None\<rparr>]\<rparr>,
     ex_Skills = [\<lparr>rs_ID = ''skill.s@1.0.0'', rs_Config = None, rs_Value = sampleSkill\<rparr>],
     ex_ResolvedOutputContract = None, ex_InjectedBy = [''tool_pack:toolpack.x@1.0.0'' \<mapsto> ''skill.s@1.0.0'']\<rparr>"

lemma sample_ids:
  "ParseID ''toolpack.x@1.0.0'' = Ok (''toolpack.x'', ''1.0.0'')"
  "ParseID ''toolpack.http-get@1.0.0'' = Ok (''toolpack.http-get'', ''1.0.0'')"
  by code_simp+

lemma sample_expands: "expandSkills (\<lambda>_. None) background skillSpec skillRegistry = Ok expandedSample"
  by (simp add: expandSkills_def expandOne_def initExpand_def skillSpec_def sampleSpec_def zeroAgentSpec_def
      skillRegistry_def LookupSkill_def constFactory_def isEmptyContribution_def sampleSkill_def needTool_def
      injectTools_def injectPolicies_def injectContract_def injectRequired_def sample_ids finishExpand_def
      appended_def expandedSample_def requiredRef_def injKey_def Let_def)

theorem expandSkills_only_adds_witness:
  "ran (ex_InjectedBy expandedSample) \<subseteq> {''skill.s@1.0.0''}"
  using expandSkills_only_adds[OF sample_expands] by (simp add: skillSpec_def)

text \<open>C14. After expansion every skill has what it requires: each required tool and policy is in
  the composition under its id with an equal configuration, and its required output contract
  is the one in effect.\<close>

theorem expandSkills_meets_requirements:
  assumes "expandSkills mo ctx s r = Ok es" and "rs \<in> set (ex_Skills es)"
  shows "(\<forall>rc \<in> set (elems (sk_RequiredTools (rs_Value rs))). \<exists>e \<in> set (elems (s_Tools (ex_Spec es))). meets mo rc e) \<and>
    (\<forall>rc \<in> set (elems (sk_RequiredPolicies (rs_Value rs))). \<exists>e \<in> set (elems (s_Policies (ex_Spec es))). meets mo rc e) \<and>
    (\<forall>rc. sk_RequiredOutputContract (rs_Value rs) = Some rc \<longrightarrow>
       (\<exists>e. s_OutputContract (ex_Spec es) = Some e \<and> meets mo rc e))"
proof -
  have app: "elems (appended xs) = xs" for xs :: "ComponentRef list" by (simp add: appended_def)
  from expandSkills_inv[OF assms(1)] assms(2) show ?thesis
    by (auto simp: expandInv_def skillMet_def finishExpand_def app)
qed

theorem expandSkills_meets_requirements_witness:
  "\<exists>e \<in> set (elems (s_Tools (ex_Spec expandedSample))). meets (\<lambda>_. None) needTool e"
  using expandSkills_meets_requirements[OF sample_expands, of "\<lparr>rs_ID = ''skill.s@1.0.0'', rs_Config = None, rs_Value = sampleSkill\<rparr>"]
  by (simp add: expandedSample_def sampleSkill_def)

end
