(* ===== verification/BuildChains.thy ===== *)
theory BuildChains
  imports Registry
begin

text \<open>
  The runtime compositions of the \<^verbatim>\<open>build\<close> package: the policy chain
  (\<^verbatim>\<open>policy_chain.go\<close>), the three filter chains (\<^verbatim>\<open>filter_chains.go\<close>) and the
  tool router (\<^verbatim>\<open>tool_router.go\<close>).

  Hooks, filters and invokers are values of praxis interfaces; here they are functions
  of their inputs, arbitrary ones. A Go call that returns a value, decisions and an
  error at once is a triple, since a blocked chain returns its decisions together with
  the error.
\<close>

section \<open>policy_chain.go\<close>

text \<open>\<^verbatim>\<open>hooks.Verdict\<close>; \<open>VerdictOther\<close> is any value the chain does not know.\<close>

datatype Verdict =
    VerdictAllow | VerdictDeny | VerdictRequireApproval | VerdictLog | VerdictContinue
  | VerdictOther string

record Decision =
  dc_Verdict :: Verdict
  dc_Reason :: string
  dc_Metadata :: gomap

type_synonym 'i PolicyHook = "'i \<Rightarrow> Decision result"

text \<open>The input \<open>'i\<close> stands for the context, the phase and the policy input.\<close>

fun policyChain_Evaluate :: "'i PolicyHook list \<Rightarrow> 'i \<Rightarrow> Decision result" where
  "policyChain_Evaluate [] i = Ok \<lparr>dc_Verdict = VerdictAllow, dc_Reason = [], dc_Metadata = None\<rparr>"
| "policyChain_Evaluate (h # c) i =
     bindR (h i) (\<lambda>d. case dc_Verdict d of
        VerdictDeny \<Rightarrow> Ok d
      | VerdictRequireApproval \<Rightarrow> Ok d
      | VerdictLog \<Rightarrow> policyChain_Evaluate c i
      | VerdictAllow \<Rightarrow> policyChain_Evaluate c i
      | VerdictContinue \<Rightarrow> policyChain_Evaluate c i
      | VerdictOther _ \<Rightarrow> Ok d)"

text \<open>A hook passes when it lets the chain go on.\<close>

definition passes :: "'i \<Rightarrow> 'i PolicyHook \<Rightarrow> bool" where
  "passes i h \<longleftrightarrow> (\<exists>d. h i = Ok d \<and> dc_Verdict d \<in> {VerdictLog, VerdictAllow, VerdictContinue})"

lemma policyChain_step:
  "policyChain_Evaluate (h # c) i = (if passes i h then policyChain_Evaluate c i else h i)"
  by (cases "h i") (auto simp: passes_def split: Verdict.splits)

lemma policyChain_first:
  "policyChain_Evaluate c i =
     (case dropWhile (passes i) c of [] \<Rightarrow> Ok \<lparr>dc_Verdict = VerdictAllow, dc_Reason = [], dc_Metadata = None\<rparr> | h # _ \<Rightarrow> h i)"
  by (induction c) (simp_all add: policyChain_step del: policyChain_Evaluate.simps(2))

lemma policyChain_decided:
  "list_all (passes i) c \<Longrightarrow> \<not> passes i h \<Longrightarrow> policyChain_Evaluate (c @ h # d) i = h i"
  by (induction c) (simp_all add: policyChain_step del: policyChain_Evaluate.simps(2))

lemma policyChain_allow_iff:
  "(\<exists>d. policyChain_Evaluate c i = Ok d \<and> dc_Verdict d = VerdictAllow) \<longleftrightarrow> list_all (passes i) c"
  by (induction c)
    (auto simp: policyChain_step passes_def simp del: policyChain_Evaluate.simps(2))

section \<open>filter_chains.go\<close>

datatype FilterAction = FilterActionPass | FilterActionRedact | FilterActionLog | FilterActionBlock | FilterActionOther string

record FilterDecision =
  fd_Action :: FilterAction
  fd_Field :: string
  fd_Reason :: string

type_synonym 'm filtered = "'m \<times> FilterDecision list \<times> gerror option"
type_synonym ('c, 'm) Filter = "'c \<Rightarrow> 'm \<Rightarrow> 'm filtered"

definition blocked :: "string \<Rightarrow> gerror" where
  "blocked reason = (if reason = [] then Sentinel ErrFilterBlocked
     else Errorf ''%w: %s'' [AWrap (Sentinel ErrFilterBlocked), AStr reason])"

definition blockingDec :: "FilterDecision list \<Rightarrow> FilterDecision option" where
  "blockingDec decs = List.find (\<lambda>d. fd_Action d = FilterActionBlock) decs"

text \<open>
  The loop the three \<^verbatim>\<open>Filter\<close> methods share; \<open>zero\<close> is the value returned with an
  error (the nil slice, \<^verbatim>\<open>tools.ToolCall{}\<close>, \<^verbatim>\<open>tools.ToolResult{}\<close>).
\<close>

fun filterLoop :: "'m \<Rightarrow> 'c \<Rightarrow> ('c, 'm) Filter list \<Rightarrow> 'm \<Rightarrow> FilterDecision list \<Rightarrow> 'm filtered" where
  "filterLoop zero ctx [] cur all_decs = (cur, all_decs, None)"
| "filterLoop zero ctx (f # fs) cur all_decs =
     (let (out, decs, err) = f ctx cur in
      case err of
        Some e \<Rightarrow> (zero, [], Some e)
      | None \<Rightarrow>
          let all_decs = all_decs @ decs in
          (case blockingDec decs of
             Some d \<Rightarrow> (zero, all_decs, Some (blocked (fd_Reason d)))
           | None \<Rightarrow> filterLoop zero ctx fs out all_decs))"

text \<open>Messages are a slice of praxis values \<open>'msg\<close>, with nil returned on an error.\<close>

definition preLLMFilterChain :: "('c, 'msg slice) Filter list \<Rightarrow> ('c, 'msg slice) Filter" where
  "preLLMFilterChain c ctx msgs = filterLoop None ctx c msgs []"

record ToolCall =
  tc_CallID :: string
  tc_Name :: string
  tc_ArgumentsJSON :: string

record ToolResult =
  tr_CallID :: string
  tr_Status :: string
  tr_Content :: string
  tr_Err :: "gerror option"

definition zeroToolCall :: ToolCall where
  "zeroToolCall = \<lparr>tc_CallID = [], tc_Name = [], tc_ArgumentsJSON = []\<rparr>"

definition zeroToolResult :: ToolResult where
  "zeroToolResult = \<lparr>tr_CallID = [], tr_Status = [], tr_Content = [], tr_Err = None\<rparr>"

definition preToolFilterChain :: "('c, ToolCall) Filter list \<Rightarrow> ('c, ToolCall) Filter" where
  "preToolFilterChain c ctx call = filterLoop zeroToolCall ctx c call []"

definition postToolFilterChain :: "('c, ToolResult) Filter list \<Rightarrow> ('c, ToolResult) Filter" where
  "postToolFilterChain c ctx r = filterLoop zeroToolResult ctx c r []"

subsection \<open>What a chain computes\<close>

text \<open>
  \<open>runFilters\<close> is the specification: thread the value through filters that neither fail
  nor block, collecting decisions; \<open>Inr\<close> holds the outcome of the filter that stopped.
\<close>

definition stopsAt :: "'m filtered \<Rightarrow> bool" where
  "stopsAt o1 \<longleftrightarrow> snd (snd o1) \<noteq> None \<or> blockingDec (fst (snd o1)) \<noteq> None"

fun runFilters :: "'c \<Rightarrow> ('c, 'm) Filter list \<Rightarrow> 'm \<Rightarrow> (('m \<times> FilterDecision list) + (FilterDecision list \<times> 'm filtered))" where
  "runFilters ctx [] cur = Inl (cur, [])"
| "runFilters ctx (f # fs) cur =
     (let o1 = f ctx cur in
      if stopsAt o1 then Inr ([], o1)
      else (case runFilters ctx fs (fst o1) of
          Inl (v, ds) \<Rightarrow> Inl (v, fst (snd o1) @ ds)
        | Inr (ds, o2) \<Rightarrow> Inr (fst (snd o1) @ ds, o2)))"

definition chainOutcome :: "'m \<Rightarrow> FilterDecision list \<Rightarrow>
    (('m \<times> FilterDecision list) + (FilterDecision list \<times> 'm filtered)) \<Rightarrow> 'm filtered" where
  "chainOutcome zero pre r = (case r of
     Inl (v, ds) \<Rightarrow> (v, pre @ ds, None)
   | Inr (ds, (v, decs, Some e)) \<Rightarrow> (zero, [], Some e)
   | Inr (ds, (v, decs, None)) \<Rightarrow>
       (zero, pre @ ds @ decs, map_option (\<lambda>d. blocked (fd_Reason d)) (blockingDec decs)))"

lemma filterLoop_spec: "filterLoop zero ctx fs cur pre = chainOutcome zero pre (runFilters ctx fs cur)"
proof (induction fs arbitrary: cur pre)
  case Nil
  then show ?case by (simp add: chainOutcome_def)
next
  case (Cons f fs)
  obtain out decs err where f: "f ctx cur = (out, decs, err)" by (cases "f ctx cur") auto
  show ?case
  proof (cases "stopsAt (f ctx cur)")
    case True
    with f show ?thesis
      by (auto simp: chainOutcome_def stopsAt_def Let_def split: option.splits)
  next
    case False
    then have "err = None" "blockingDec decs = None" using f by (auto simp: stopsAt_def)
    with f False Cons.IH[of out "pre @ decs"] show ?thesis
      by (auto simp: chainOutcome_def Let_def split: sum.splits prod.splits option.splits)
  qed
qed

lemma blocked_is [simp]: "errors_is (blocked r) ErrFilterBlocked"
  by (simp add: blocked_def)

lemma runFilters_stopped: "runFilters ctx fs cur = Inr (ds, o1) \<Longrightarrow> stopsAt o1"
  by (induction fs arbitrary: cur ds) (auto simp: Let_def split: if_splits sum.splits)

text \<open>A chain succeeds exactly when no filter fails or blocks.\<close>

lemma chain_success_iff:
  "snd (snd (filterLoop zero ctx fs cur pre)) = None \<longleftrightarrow> (\<exists>v ds. runFilters ctx fs cur = Inl (v, ds))"
proof (cases "runFilters ctx fs cur")
  case (Inr w)
  then have "stopsAt (snd w)" using runFilters_stopped by (metis prod.collapse)
  with Inr show ?thesis
    by (auto simp: filterLoop_spec chainOutcome_def stopsAt_def split: prod.splits option.splits)
qed (auto simp: filterLoop_spec chainOutcome_def)

lemma filterLoop_append:
  "filterLoop zero ctx (fs @ gs) cur pre =
     (let (v, ds, err) = filterLoop zero ctx fs cur pre in
      case err of Some e \<Rightarrow> (v, ds, Some e) | None \<Rightarrow> filterLoop zero ctx gs v ds)"
  by (induction fs arbitrary: cur pre)
    (auto simp: Let_def split: prod.splits option.splits)

section \<open>tool_router.go\<close>

record 'h toolRouter =
  byName :: "string \<Rightarrow> 'h option"

definition mcpPrefix :: string where
  "mcpPrefix = ''mcp.''"

fun routeDefs :: "'h \<Rightarrow> ToolDefinition list \<Rightarrow> ('h toolRouter \<times> ToolDefinition list) \<Rightarrow>
    ('h toolRouter \<times> ToolDefinition list) result" where
  "routeDefs ivk [] st = Ok st"
| "routeDefs ivk (dfn # ds) (r, defs) =
     (if hasPrefix (td_Name dfn) mcpPrefix
      then Err (Errorf ''%w: %s'' [AWrap (Sentinel ErrToolNameReservedPrefix), AStr (td_Name dfn)])
      else if byName r (td_Name dfn) \<noteq> None
      then Err (Errorf ''%w: %s'' [AWrap (Sentinel ErrToolNameCollision), AStr (td_Name dfn)])
      else routeDefs ivk ds (r\<lparr>byName := (byName r)(td_Name dfn \<mapsto> ivk)\<rparr>, defs @ [dfn]))"

fun routePacks :: "'h ToolPack list \<Rightarrow> ('h toolRouter \<times> ToolDefinition list) \<Rightarrow>
    ('h toolRouter \<times> ToolDefinition list) result" where
  "routePacks [] st = Ok st"
| "routePacks (p # ps) st = bindR (routeDefs (tp_Invoker p) (tp_Definitions p) st) (routePacks ps)"

definition newToolRouter :: "'h ToolPack list \<Rightarrow> ('h toolRouter \<times> ToolDefinition list) result" where
  "newToolRouter packs = routePacks packs (\<lparr>byName = (\<lambda>_. None)\<rparr>, [])"

text \<open>\<open>invoke\<close> is the \<^verbatim>\<open>Invoke\<close> method of the praxis invoker behind a handle.\<close>

definition toolRouter_Invoke :: "('h \<Rightarrow> 'c \<Rightarrow> ToolCall \<Rightarrow> ToolResult result) \<Rightarrow> 'h toolRouter \<Rightarrow> 'c \<Rightarrow>
    ToolCall \<Rightarrow> ToolResult result" where
  "toolRouter_Invoke invoke r ctx call =
     (case byName r (tc_Name call) of
        None \<Rightarrow> Err (Errorf ''%w: %s'' [AWrap (Sentinel ErrToolNotFound), AStr (tc_Name call)])
      | Some ivk \<Rightarrow> invoke ivk ctx call)"

subsection \<open>What the router holds\<close>

definition packNames :: "'h ToolPack list \<Rightarrow> (string \<times> 'h) list" where
  "packNames ps = concat (map (\<lambda>p. map (\<lambda>d. (td_Name d, tp_Invoker p)) (tp_Definitions p)) ps)"

definition routable :: "(string \<Rightarrow> 'h option) \<Rightarrow> string list \<Rightarrow> bool" where
  "routable m ns \<longleftrightarrow> distinct ns \<and> (\<forall>n \<in> set ns. m n = None \<and> \<not> hasPrefix n mcpPrefix)"

lemma routable_Nil [simp]: "routable m []"
  by (simp add: routable_def)

lemma routable_Cons:
  "routable m (n # ns) \<longleftrightarrow> m n = None \<and> \<not> hasPrefix n mcpPrefix \<and> routable (m(n \<mapsto> i)) ns"
  by (auto simp: routable_def)

lemma routable_append:
  "routable m (ns @ ks) \<longleftrightarrow> routable m ns \<and> routable (m ++ map_of (rev (map (\<lambda>n. (n, i)) ns))) ks"
proof (induction ns arbitrary: m)
  case (Cons n ns)
  have "m(n \<mapsto> i) ++ f = m ++ ([n \<mapsto> i] ++ f)" for f by (simp add: map_add_assoc)
  with Cons show ?case by (simp add: routable_Cons[where i = i] fun_upd_def)
qed simp

lemma routeDefs_Ok:
  "routeDefs ivk ds (r, defs) = Ok st \<longleftrightarrow> routable (byName r) (map td_Name ds) \<and>
     st = (r\<lparr>byName := byName r ++ map_of (rev (map (\<lambda>d. (td_Name d, ivk)) ds))\<rparr>, defs @ ds)"
proof (induction ds arbitrary: r defs)
  case (Cons d ds)
  have "(byName r)(td_Name d \<mapsto> ivk) ++ m = byName r ++ ([td_Name d \<mapsto> ivk] ++ m)" for m
    by (simp add: map_add_assoc)
  with Cons show ?case by (simp add: routable_Cons[where i = ivk] fun_upd_def)
qed auto

lemma routePacks_Ok:
  "routePacks ps (r, defs) = Ok st \<longleftrightarrow> routable (byName r) (map fst (packNames ps)) \<and>
     st = (r\<lparr>byName := byName r ++ map_of (rev (packNames ps))\<rparr>, defs @ concat (map tp_Definitions ps))"
proof (induction ps arbitrary: r defs)
  case Nil
  then show ?case by (auto simp: packNames_def)
next
  case (Cons p ps)
  let ?m = "byName r ++ map_of (rev (map (\<lambda>d. (td_Name d, tp_Invoker p)) (tp_Definitions p)))"
  have split: "packNames (p # ps) = map (\<lambda>d. (td_Name d, tp_Invoker p)) (tp_Definitions p) @ packNames ps"
    by (simp add: packNames_def)
  have "routable (byName r) (map fst (packNames (p # ps))) \<longleftrightarrow>
      routable (byName r) (map td_Name (tp_Definitions p)) \<and> routable ?m (map fst (packNames ps))"
    by (simp add: split routable_append[where i = "tp_Invoker p"] o_def rev_map)
  moreover have "?m ++ map_of (rev (packNames ps)) = byName r ++ map_of (rev (packNames (p # ps)))"
    by (simp add: split)
  ultimately show ?case by (auto simp: routeDefs_Ok Cons.IH)
qed

lemma newToolRouter_Ok:
  "newToolRouter ps = Ok (r, defs) \<longleftrightarrow>
     distinct (map fst (packNames ps)) \<and> (\<forall>n \<in> fst ` set (packNames ps). \<not> hasPrefix n mcpPrefix) \<and>
     byName r = map_of (packNames ps) \<and> defs = concat (map tp_Definitions ps)"
proof -
  have "map_of (rev (packNames ps)) = map_of (packNames ps)" if "distinct (map fst (packNames ps))"
  proof (rule ext)
    fix n
    have "map_of (rev (packNames ps)) n = Some i \<longleftrightarrow> map_of (packNames ps) n = Some i" for i
      using that by (simp add: rev_map[symmetric])
    then show "map_of (rev (packNames ps)) n = map_of (packNames ps) n"
      by (cases "map_of (packNames ps) n") (auto simp: option.expand)
  qed
  then show ?thesis
    by (cases r) (auto simp: newToolRouter_def routePacks_Ok routable_def)
qed

lemma routeDefs_Err:
  "routeDefs ivk ds (r, defs) = Err e \<Longrightarrow>
     errors_is e ErrToolNameReservedPrefix \<or> errors_is e ErrToolNameCollision"
  by (induction ds arbitrary: r defs) (auto split: if_splits)

lemma routePacks_Err:
  "routePacks ps st = Err e \<Longrightarrow> errors_is e ErrToolNameReservedPrefix \<or> errors_is e ErrToolNameCollision"
  by (induction ps arbitrary: st) (auto simp: bindR_eq_Err dest: routeDefs_Err)

lemma routePacks_noPanic: "noPanic (routePacks ps st)"
proof (induction ps arbitrary: st)
  case (Cons p ps)
  have "noPanic (routeDefs ivk ds st)" for ivk ds and st :: "'a toolRouter \<times> ToolDefinition list"
    by (induction ds arbitrary: st) (case_tac st, auto)+
  with Cons show ?case by auto
qed simp

section \<open>Properties\<close>

text \<open>C19. The policy chain returns the outcome (decision or error) of the first hook that does
  not let it go on, whatever hooks follow, and allows exactly when every hook logs, allows
  or continues; in particular a denial cannot be overridden by a later hook.\<close>

theorem policyChain_first_decides:
  assumes "list_all (passes i) c" and "\<not> passes i h"
  shows "policyChain_Evaluate (c @ h # d) i = h i \<and>
    ((\<exists>v. policyChain_Evaluate e i = Ok v \<and> dc_Verdict v = VerdictAllow) \<longleftrightarrow> list_all (passes i) e)"
  by (simp add: policyChain_decided[OF assms] policyChain_allow_iff)

definition verdictHook :: "Verdict \<Rightarrow> unit PolicyHook" where
  "verdictHook v = (\<lambda>_. Ok \<lparr>dc_Verdict = v, dc_Reason = ''why'', dc_Metadata = None\<rparr>)"

theorem policyChain_first_decides_witness:
  "policyChain_Evaluate [verdictHook VerdictLog, verdictHook VerdictDeny, verdictHook VerdictAllow] () =
     Ok \<lparr>dc_Verdict = VerdictDeny, dc_Reason = ''why'', dc_Metadata = None\<rparr>"
  using policyChain_first_decides[of "()" "[verdictHook VerdictLog]" "verdictHook VerdictDeny" "[verdictHook VerdictAllow]"]
  by (simp add: passes_def verdictHook_def)

text \<open>C20. A filter chain threads its value through the filters in order, concatenating their
  decisions, as long as none fails or blocks; a failure discards value and decisions and
  returns the filter's error, a block returns the decisions so far and an error that is
  \<^verbatim>\<open>ErrFilterBlocked\<close>. This holds for the three chains alike.\<close>

theorem filter_chains_thread:
  "preLLMFilterChain c1 ctx v1 = chainOutcome None [] (runFilters ctx c1 v1) \<and>
   preToolFilterChain c2 ctx v2 = chainOutcome zeroToolCall [] (runFilters ctx c2 v2) \<and>
   postToolFilterChain c3 ctx v3 = chainOutcome zeroToolResult [] (runFilters ctx c3 v3) \<and>
   errors_is (blocked reason) ErrFilterBlocked"
  by (simp add: preLLMFilterChain_def preToolFilterChain_def postToolFilterChain_def filterLoop_spec)

text \<open>A filter chain is the sequential composition of its parts: running the front part and,
  if it reports no error, the rest on its value with its decisions, gives the whole chain; so
  filters after a failing or blocking one never run.\<close>

theorem filter_chain_sequential:
  "preToolFilterChain (fs @ gs) ctx call =
     (let (v, ds, err) = preToolFilterChain fs ctx call in
      case err of Some e \<Rightarrow> (v, ds, Some e) | None \<Rightarrow> filterLoop zeroToolCall ctx gs v ds)"
  by (simp add: preToolFilterChain_def filterLoop_append)

text \<open>C18. The tool router is built exactly when no tool name occurs twice across the packs and
  none starts with the reserved prefix; its definitions are those of the packs in order. A call then
  reaches the invoker of the one pack that declares its tool, with the context and the call as they
  are, and a call of an undeclared tool reaches none and fails with \<^verbatim>\<open>ErrToolNotFound\<close>.\<close>

theorem toolRouter_routes:
  "(newToolRouter ps = Ok (r, defs) \<longleftrightarrow>
     distinct (map fst (packNames ps)) \<and> (\<forall>n \<in> fst ` set (packNames ps). \<not> hasPrefix n mcpPrefix) \<and>
     byName r = map_of (packNames ps) \<and> defs = concat (map tp_Definitions ps)) \<and>
   (newToolRouter ps = Ok (r, defs) \<longrightarrow>
     (\<forall>p \<in> set ps. tc_Name call \<in> td_Name ` set (tp_Definitions p) \<longrightarrow>
        toolRouter_Invoke invoke r ctx call = invoke (tp_Invoker p) ctx call) \<and>
     ((\<forall>p \<in> set ps. tc_Name call \<notin> td_Name ` set (tp_Definitions p)) \<longrightarrow>
        toolRouter_Invoke invoke r ctx call =
          Err (Errorf ''%w: %s'' [AWrap (Sentinel ErrToolNotFound), AStr (tc_Name call)])))"
proof -
  have "map_of (packNames ps) (tc_Name call) = Some (tp_Invoker p)"
    if "distinct (map fst (packNames ps))" "p \<in> set ps" "tc_Name call \<in> td_Name ` set (tp_Definitions p)" for p
    using that by (intro map_of_is_SomeI) (auto simp: packNames_def)
  moreover have "map_of (packNames ps) (tc_Name call) = None"
    if "\<forall>p \<in> set ps. tc_Name call \<notin> td_Name ` set (tp_Definitions p)"
    using that by (auto simp: packNames_def map_of_eq_None_iff)
  ultimately have "toolRouter_Invoke invoke r ctx call = (case map_of (packNames ps) (tc_Name call) of
      None \<Rightarrow> Err (Errorf ''%w: %s'' [AWrap (Sentinel ErrToolNotFound), AStr (tc_Name call)]) | Some ivk \<Rightarrow> invoke ivk ctx call)"
    and "\<forall>p \<in> set ps. tc_Name call \<in> td_Name ` set (tp_Definitions p) \<longrightarrow>
      toolRouter_Invoke invoke r ctx call = invoke (tp_Invoker p) ctx call"
    and "(\<forall>p \<in> set ps. tc_Name call \<notin> td_Name ` set (tp_Definitions p)) \<longrightarrow> toolRouter_Invoke invoke r ctx call =
      Err (Errorf ''%w: %s'' [AWrap (Sentinel ErrToolNotFound), AStr (tc_Name call)])"
    if "newToolRouter ps = Ok (r, defs)"
    using that[unfolded newToolRouter_Ok] by (metis option.case toolRouter_Invoke_def)+
  then show ?thesis using newToolRouter_Ok by blast
qed

definition packA :: "nat ToolPack" where
  "packA = \<lparr>tp_Invoker = 7, tp_Definitions = [\<lparr>td_Name = ''get'', td_Description = [], td_InputSchema = []\<rparr>], tp_Descriptors = []\<rparr>"

theorem toolRouter_routes_witness:
  "newToolRouter [packA] = Ok (\<lparr>byName = [''get'' \<mapsto> 7]\<rparr>, tp_Definitions packA) \<and>
   toolRouter_Invoke (\<lambda>h _ _. Ok (zeroToolResult\<lparr>tr_Content := replicate h (CHR ''x'')\<rparr>)) \<lparr>byName = [''get'' \<mapsto> 7]\<rparr> ()
     (zeroToolCall\<lparr>tc_Name := ''get''\<rparr>) = Ok (zeroToolResult\<lparr>tr_Content := ''xxxxxxx''\<rparr>)"
proof -
  have r: "newToolRouter [packA] = Ok (\<lparr>byName = [''get'' \<mapsto> 7]\<rparr>, tp_Definitions packA)"
    by (simp add: toolRouter_routes[THEN conjunct1], auto simp: packA_def packNames_def mcpPrefix_def)
  moreover have "toolRouter_Invoke (\<lambda>h _ _. Ok (zeroToolResult\<lparr>tr_Content := replicate h (CHR ''x'')\<rparr>)) \<lparr>byName = [''get'' \<mapsto> 7]\<rparr> ()
     (zeroToolCall\<lparr>tc_Name := ''get''\<rparr>) = Ok (zeroToolResult\<lparr>tr_Content := replicate 7 (CHR ''x'')\<rparr>)"
    using toolRouter_routes[THEN conjunct2, rule_format, OF r, THEN conjunct1, rule_format, of packA "zeroToolCall\<lparr>tc_Name := ''get''\<rparr>"]
    by (simp add: packA_def)
  ultimately show ?thesis by (simp add: numeral_eq_Suc)
qed

end
