(* ===== verification/GoTime.thy ===== *)
theory GoTime
  imports GoJson
begin

text \<open>
  \<^verbatim>\<open>time.ParseDuration\<close>, which the budget overrides and several factories use. The
  accumulators are unsigned 64-bit integers kept as naturals, with the overflow tests
  of the original; the fraction of a unit is computed in float64, modelled by rounding
  a fraction of naturals to 53 significant bits.
\<close>

section \<open>Rounding to float64\<close>

fun bitLen :: "nat \<Rightarrow> nat" where
  "bitLen n = (if n = 0 then 0 else Suc (bitLen (n div 2)))"

declare bitLen.simps [simp del]

definition timesTwo :: "nat \<times> nat \<Rightarrow> int \<Rightarrow> nat \<times> nat" where
  "timesTwo q e = (if 0 \<le> e then (fst q * 2 ^ nat e, snd q) else (fst q, snd q * 2 ^ nat (- e)))"

definition roundFloat :: "nat \<times> nat \<Rightarrow> nat \<times> nat" where
  "roundFloat q =
     (if fst q = 0 then (0, 1)
      else let e0 = int (bitLen (fst q)) - int (bitLen (snd q)) - 52;
               t = timesTwo q (- e0);
               e = (if fst t div snd t < 2 ^ 52 then e0 - 1 else e0)
           in scaled (roundHalfEven (timesTwo q (- e))) e)"

definition floatMul :: "nat \<times> nat \<Rightarrow> nat \<times> nat \<Rightarrow> nat \<times> nat" where
  "floatMul p q = roundFloat (fst p * fst q, snd p * snd q)"

text \<open>\<^verbatim>\<open>uint64(float64(f) * (float64(unit) / scale))\<close>\<close>

definition fracNanos :: "nat \<Rightarrow> nat \<Rightarrow> nat \<Rightarrow> nat" where
  "fracNanos f unit scale = (let r = floatMul (roundFloat (f, 1)) (roundFloat (unit, scale))
     in fst r div snd r)"

section \<open>Scanning\<close>

definition isDigit :: "char \<Rightarrow> bool" where
  "isDigit c \<longleftrightarrow> CHR ''0'' \<le> c \<and> c \<le> CHR ''9''"

definition digitVal :: "char \<Rightarrow> nat" where
  "digitVal c = byte c - 48"

fun leadingInt :: "nat \<Rightarrow> string \<Rightarrow> (nat \<times> string) option" where
  "leadingInt x [] = Some (x, [])"
| "leadingInt x (c # s) =
     (if \<not> isDigit c then Some (x, c # s)
      else if x > 2 ^ 63 div 10 then None
      else let y = x * 10 + digitVal c in if y > 2 ^ 63 then None else leadingInt y s)"

fun leadingFraction :: "nat \<Rightarrow> nat \<Rightarrow> bool \<Rightarrow> string \<Rightarrow> nat \<times> nat \<times> string" where
  "leadingFraction x scale overflow [] = (x, scale, [])"
| "leadingFraction x scale overflow (c # s) =
     (if \<not> isDigit c then (x, scale, c # s)
      else if overflow then leadingFraction x scale True s
      else if x > (2 ^ 63 - 1) div 10 then leadingFraction x scale True s
      else let y = x * 10 + digitVal c in
        if y > 2 ^ 63 then leadingFraction x scale True s
        else leadingFraction y (scale * 10) False s)"

definition unitMap :: "(string \<times> nat) list" where
  "unitMap = [(''ns'', 1), (''us'', 10 ^ 3),
     ([CHR 0xC2, CHR 0xB5, CHR ''s''], 10 ^ 3), ([CHR 0xCE, CHR 0xBC, CHR ''s''], 10 ^ 3),
     (''ms'', 10 ^ 6), (''s'', 10 ^ 9), (''m'', 60 * 10 ^ 9), (''h'', 3600 * 10 ^ 9)]"

definition isUnitChar :: "char \<Rightarrow> bool" where
  "isUnitChar c \<longleftrightarrow> \<not> (c = CHR ''.'' \<or> isDigit c)"

text \<open>\<^verbatim>\<open>quote\<close> of package \<^verbatim>\<open>time\<close>, byte by byte.\<close>

definition timeQuote :: "string \<Rightarrow> string" where
  "timeQuote s = CHR 0x22 # concat (map (\<lambda>c.
       if byte c < 32 \<or> 128 \<le> byte c then [backslash, CHR ''x'', hexDigit (byte c div 16), hexDigit (byte c)]
       else if c = CHR 0x22 \<or> c = backslash then [backslash, c] else [c]) s) @ [CHR 0x22]"

definition durErr :: "string \<Rightarrow> string \<Rightarrow> gerror" where
  "durErr what orig = Errorf what [AStr (timeQuote orig)]"

section \<open>ParseDuration\<close>

text \<open>The optional fraction: digits, scale, rest, and whether a digit was read.\<close>

definition durFraction :: "string \<Rightarrow> nat \<times> nat \<times> string \<times> bool" where
  "durFraction s =
     (if s \<noteq> [] \<and> hd s = CHR ''.''
      then let (f, scale, r) = leadingFraction 0 1 False (tl s) in (f, scale, r, length r \<noteq> length (tl s))
      else (0, 1, s, False))"

text \<open>
  One component: an integer part, an optional fraction, a unit. The value is in
  nanoseconds; the rest of the input follows it.
\<close>

definition durComponent :: "string \<Rightarrow> string \<Rightarrow> (nat \<times> string) result" where
  "durComponent orig s =
     (if \<not> (hd s = CHR ''.'' \<or> isDigit (hd s)) then Err (durErr ''time: invalid duration %s'' orig)
      else case leadingInt 0 s of
        None \<Rightarrow> Err (durErr ''time: invalid duration %s'' orig)
      | Some (v, s1) \<Rightarrow>
          let pre = (length s1 \<noteq> length s);
              (f, scale, s2, post) = durFraction s1
          in if \<not> pre \<and> \<not> post then Err (durErr ''time: invalid duration %s'' orig)
             else let u = takeWhile isUnitChar s2; s3 = dropWhile isUnitChar s2 in
               if u = [] then Err (durErr ''time: missing unit in duration %s'' orig)
               else (case map_of unitMap u of
                  None \<Rightarrow> Err (Errorf ''time: unknown unit %s in duration %s'' [AStr (timeQuote u), AStr (timeQuote orig)])
                | Some unit \<Rightarrow>
                    if v > 2 ^ 63 div unit then Err (durErr ''time: invalid duration %s'' orig)
                    else let v = v * unit;
                             w = (if f > 0 then v + fracNanos f unit scale else v)
                         in if f > 0 \<and> w > 2 ^ 63 then Err (durErr ''time: invalid duration %s'' orig)
                            else Ok (w, s3)))"

lemma leadingInt_rest: "leadingInt x s = Some (v, r) \<Longrightarrow> length r \<le> length s"
  by (induction x s rule: leadingInt.induct) (auto simp: Let_def split: if_splits)

lemma leadingFraction_rest: "leadingFraction x k o1 s = (f, k', r) \<Longrightarrow> length r \<le> length s"
  by (induction x k o1 s rule: leadingFraction.induct) (auto simp: Let_def split: if_splits)

lemma durFraction_rest: "durFraction s = (f, k, r, p) \<Longrightarrow> length r \<le> length s"
  by (cases s) (auto simp: durFraction_def dest: leadingFraction_rest split: if_splits prod.splits)

lemma durComponent_shorter: "durComponent orig s = Ok (v, r) \<Longrightarrow> length r < length s"
proof -
  assume *: "durComponent orig s = Ok (v, r)"
  from * obtain v1 s1 where s1: "leadingInt 0 s = Some (v1, s1)"
    by (auto simp: durComponent_def split: if_splits option.splits)
  obtain f k s2 p where f: "durFraction s1 = (f, k, s2, p)" by (cases "durFraction s1") auto
  from * s1 f have "r = dropWhile isUnitChar s2" "takeWhile isUnitChar s2 \<noteq> []"
    by (auto simp: durComponent_def Let_def split: if_splits option.splits)
  moreover from this(2) have "length (dropWhile isUnitChar s2) < length s2"
    by (metis length_append less_add_same_cancel2 length_greater_0_conv takeWhile_dropWhile_id)
  ultimately show ?thesis using leadingInt_rest[OF s1] durFraction_rest[OF f] by simp
qed

function durLoop :: "string \<Rightarrow> nat \<Rightarrow> string \<Rightarrow> nat result" where
  "durLoop orig d s =
     (if s = [] then Ok d
      else case durComponent orig s of
        Ok (v, r) \<Rightarrow> if d + v > 2 ^ 63 then Err (durErr ''time: invalid duration %s'' orig) else durLoop orig (d + v) r
      | Err e \<Rightarrow> Err e
      | Panic p \<Rightarrow> Panic p)"
  by pat_completeness auto
termination
  by (relation "measure (\<lambda>(_, _, s). length s)") (auto dest: durComponent_shorter)

declare durLoop.simps [simp del]

definition ParseDuration :: "string \<Rightarrow> int64 result" where
  "ParseDuration orig =
     (let neg = (orig \<noteq> [] \<and> hd orig = CHR ''-'');
          s = (if orig \<noteq> [] \<and> (hd orig = CHR ''-'' \<or> hd orig = CHR ''+'') then tl orig else orig)
      in if s = ''0'' then Ok 0
         else if s = [] then Err (durErr ''time: invalid duration %s'' orig)
         else bindR (durLoop orig 0 s) (\<lambda>d.
           if neg then Ok (- word_of_int (int d))
           else if d > 2 ^ 63 - 1 then Err (durErr ''time: invalid duration %s'' orig)
           else Ok (word_of_int (int d))))"

lemma durLoop_bound: "durLoop orig d s = Ok n \<Longrightarrow> d \<le> 2 ^ 63 \<Longrightarrow> n \<le> 2 ^ 63"
proof (induction orig d s rule: durLoop.induct)
  case (1 orig d s)
  then show ?case
    by (subst (asm) (2) durLoop.simps) (auto split: if_splits result.splits prod.splits)
qed

lemma durComponent_noPanic: "noPanic (durComponent orig s)"
  by (simp add: durComponent_def Let_def split: option.split prod.split)

lemma durLoop_noPanic: "noPanic (durLoop orig d s)"
proof (induction orig d s rule: durLoop.induct)
  case (1 orig d s)
  then show ?case
    using durComponent_noPanic[of orig s]
    by (subst durLoop.simps) (auto split: result.splits prod.splits)
qed

lemma ParseDuration_noPanic: "noPanic (ParseDuration s)"
  by (simp add: ParseDuration_def Let_def durLoop_noPanic)

text \<open>An unsigned duration is never negative: the conversion does not wrap.\<close>

lemma ParseDuration_nonneg:
  assumes "ParseDuration s = Ok d" and "s = [] \<or> hd s \<noteq> CHR ''-''"
  shows "0 \<le> sint d"
proof -
  have "sint (word_of_int (int n) :: int64) = int n" if "n \<le> 2 ^ 63 - 1" for n
  proof -
    have "- (2 ^ 63) \<le> int n" "int n < 2 ^ 63" using that by simp_all
    then show ?thesis by (simp add: signed_of_int signed_of_nat signed_take_bit_int_eq_self)
  qed
  with assms show ?thesis
    by (auto simp: ParseDuration_def Let_def split: if_splits)
qed

end
