(* ===== verification/BuildBudget.thy ===== *)
theory BuildBudget
  imports GoTime Registry
begin

text \<open>
  Budget overrides (\<^verbatim>\<open>build/budget.go\<close>) on 64-bit signed integers. Overrides may
  only tighten a profile's ceilings: \<open>tighter\<close> is that contract for one dimension, and
  the locale \<open>ceiling\<close> states it for a dimension of the whole configuration; all five
  dimensions interpret it.
\<close>

section \<open>budget.go\<close>

definition tightenInt64 :: "string \<Rightarrow> int64 \<Rightarrow> int64 \<Rightarrow> int64 \<Rightarrow> int64 result" where
  "tightenInt64 field override dflt dst =
     (if override = 0 then Ok dst
      else if int64_gt dflt 0 \<and> int64_gt override dflt
      then Err (Errorf ''%w: %s %d > default %d'' [AWrap (Sentinel ErrBudgetLoosening), AStr field,
             AInt (sint override), AInt (sint dflt)])
      else Ok override)"

definition wallClock :: "BudgetConfig \<Rightarrow> BudgetOverrides \<Rightarrow> BudgetConfig \<Rightarrow> BudgetConfig result" where
  "wallClock defaults ov out =
     (if bo_MaxWallClock ov = [] then Ok out
      else bindR (wrapErr (\<lambda>err. Errorf ''budget.overrides.maxWallClock: %w'' [AWrap err])
             (ParseDuration (bo_MaxWallClock ov)))
        (\<lambda>nanos.
          if int64_gt (bc_MaxWallClock defaults) 0 \<and> int64_gt nanos (bc_MaxWallClock defaults)
          then Err (Errorf ''%w: maxWallClock %v > default %v'' [AWrap (Sentinel ErrBudgetLoosening),
                 AInt (sint nanos), AInt (sint (bc_MaxWallClock defaults))])
          else Ok (out\<lparr>bc_MaxWallClock := nanos\<rparr>)))"

definition applyBudgetOverrides :: "BudgetConfig \<Rightarrow> BudgetOverrides \<Rightarrow> BudgetConfig result" where
  "applyBudgetOverrides defaults ov =
     bindR (wallClock defaults ov defaults) (\<lambda>out.
     bindR (tightenInt64 ''maxInputTokens'' (bo_MaxInputTokens ov)
              (bc_MaxInputTokens defaults) (bc_MaxInputTokens out)) (\<lambda>v.
     let out = out\<lparr>bc_MaxInputTokens := v\<rparr> in
     bindR (tightenInt64 ''maxOutputTokens'' (bo_MaxOutputTokens ov)
              (bc_MaxOutputTokens defaults) (bc_MaxOutputTokens out)) (\<lambda>v.
     let out = out\<lparr>bc_MaxOutputTokens := v\<rparr> in
     bindR (tightenInt64 ''maxToolCalls'' (bo_MaxToolCalls ov)
              (bc_MaxToolCalls defaults) (bc_MaxToolCalls out)) (\<lambda>v.
     let out = out\<lparr>bc_MaxToolCalls := v\<rparr> in
     bindR (tightenInt64 ''maxCostMicrodollars'' (bo_MaxCostMicrodollars ov)
              (bc_MaxCostMicrodollars defaults) (bc_MaxCostMicrodollars out)) (\<lambda>v.
     Ok (out\<lparr>bc_MaxCostMicrodollars := v\<rparr>))))))"

section \<open>Contracts\<close>

text \<open>A ceiling that is set (positive) is never raised.\<close>

definition tighter :: "int64 \<Rightarrow> int64 \<Rightarrow> bool" where
  "tighter dflt v \<longleftrightarrow> (0 < sint dflt \<longrightarrow> sint v \<le> sint dflt)"

definition loosens :: "int64 \<Rightarrow> int64 \<Rightarrow> bool" where
  "loosens dflt ov \<longleftrightarrow> 0 < sint dflt \<and> sint dflt < sint ov"

lemma tightenInt64_Ok:
  "tightenInt64 f ov d d = Ok v \<longleftrightarrow> \<not> (ov \<noteq> 0 \<and> loosens d ov) \<and> v = (if ov = 0 then d else ov)"
  by (auto simp: tightenInt64_def loosens_def)

lemma tightenInt64_tighter: "tightenInt64 f ov d d = Ok v \<Longrightarrow> tighter d v"
  by (auto simp: tightenInt64_Ok tighter_def loosens_def)

lemma tightenInt64_Err: "tightenInt64 f ov d c = Err e \<Longrightarrow> errors_is e ErrBudgetLoosening \<and> loosens d ov"
  by (auto simp: tightenInt64_def loosens_def split: if_splits)

lemma tightenInt64_noPanic [simp]: "noPanic (tightenInt64 f ov d c)"
  by (simp add: tightenInt64_def)

text \<open>The value an override asks for: \<open>None\<close> keeps the default.\<close>

definition askWall :: "BudgetOverrides \<Rightarrow> int64 option" where
  "askWall ov = (if bo_MaxWallClock ov = [] then None
     else (case ParseDuration (bo_MaxWallClock ov) of Ok d \<Rightarrow> Some d | _ \<Rightarrow> None))"

definition askInt :: "int64 \<Rightarrow> int64 option" where
  "askInt v = (if v = 0 then None else Some v)"

definition wallParses :: "BudgetOverrides \<Rightarrow> bool" where
  "wallParses ov \<longleftrightarrow> bo_MaxWallClock ov = [] \<or> isOk (ParseDuration (bo_MaxWallClock ov))"

definition effective :: "int64 \<Rightarrow> int64 option \<Rightarrow> int64" where
  "effective dflt ask = (case ask of None \<Rightarrow> dflt | Some v \<Rightarrow> v)"

definition allowed :: "int64 \<Rightarrow> int64 option \<Rightarrow> bool" where
  "allowed dflt ask \<longleftrightarrow> (case ask of None \<Rightarrow> True | Some v \<Rightarrow> \<not> loosens dflt v)"

lemma wallClock_Ok:
  "wallClock d ov d = Ok c \<longleftrightarrow> wallParses ov \<and> allowed (bc_MaxWallClock d) (askWall ov) \<and>
     c = d\<lparr>bc_MaxWallClock := effective (bc_MaxWallClock d) (askWall ov)\<rparr>"
  by (cases "ParseDuration (bo_MaxWallClock ov)")
    (auto simp: wallClock_def wallParses_def allowed_def askWall_def effective_def loosens_def isOk_def)

lemma tighten_allowed:
  "tightenInt64 f ov d d = Ok v \<longleftrightarrow> allowed d (askInt ov) \<and> v = effective d (askInt ov)"
  by (auto simp: tightenInt64_Ok allowed_def askInt_def effective_def)

text \<open>
  The whole function: it succeeds exactly when the duration parses and no dimension is
  loosened, and then every dimension is the override where one is given.
\<close>

lemma applyBudgetOverrides_Ok:
  "applyBudgetOverrides d ov = Ok c \<longleftrightarrow> wallParses ov \<and>
     allowed (bc_MaxWallClock d) (askWall ov) \<and>
     allowed (bc_MaxInputTokens d) (askInt (bo_MaxInputTokens ov)) \<and>
     allowed (bc_MaxOutputTokens d) (askInt (bo_MaxOutputTokens ov)) \<and>
     allowed (bc_MaxToolCalls d) (askInt (bo_MaxToolCalls ov)) \<and>
     allowed (bc_MaxCostMicrodollars d) (askInt (bo_MaxCostMicrodollars ov)) \<and>
     c = \<lparr>bc_MaxWallClock = effective (bc_MaxWallClock d) (askWall ov),
          bc_MaxInputTokens = effective (bc_MaxInputTokens d) (askInt (bo_MaxInputTokens ov)),
          bc_MaxOutputTokens = effective (bc_MaxOutputTokens d) (askInt (bo_MaxOutputTokens ov)),
          bc_MaxToolCalls = effective (bc_MaxToolCalls d) (askInt (bo_MaxToolCalls ov)),
          bc_MaxCostMicrodollars = effective (bc_MaxCostMicrodollars d) (askInt (bo_MaxCostMicrodollars ov))\<rparr>"
  by (cases d) (auto simp: applyBudgetOverrides_def Let_def wallClock_Ok tighten_allowed)

lemma effective_tighter: "allowed d ask \<Longrightarrow> tighter d (effective d ask)"
  by (auto simp: allowed_def tighter_def effective_def loosens_def split: option.splits)

lemma applyBudgetOverrides_noPanic: "noPanic (applyBudgetOverrides d ov)"
  by (auto simp: applyBudgetOverrides_def Let_def wallClock_def ParseDuration_noPanic intro!: noPanic_bindR)

lemma applyBudgetOverrides_Err:
  "applyBudgetOverrides d ov = Err e \<Longrightarrow> wallParses ov \<Longrightarrow> errors_is e ErrBudgetLoosening"
  by (cases "ParseDuration (bo_MaxWallClock ov)")
    (auto simp: applyBudgetOverrides_def Let_def bindR_eq_Err wallClock_def wallParses_def
      dest: tightenInt64_Err split: if_splits)

text \<open>One dimension of the configuration.\<close>

locale ceiling =
  fixes dim :: "BudgetConfig \<Rightarrow> int64" and ask :: "BudgetOverrides \<Rightarrow> int64 option"
  assumes result_dim: "applyBudgetOverrides d ov = Ok c \<Longrightarrow> dim c = effective (dim d) (ask ov)"
    and result_allowed: "applyBudgetOverrides d ov = Ok c \<Longrightarrow> allowed (dim d) (ask ov)"
begin

lemma never_loosened: "applyBudgetOverrides d ov = Ok c \<Longrightarrow> tighter (dim d) (dim c)"
  using result_dim result_allowed effective_tighter by fastforce

lemma loosening_rejected:
  "ask ov = Some v \<Longrightarrow> loosens (dim d) v \<Longrightarrow> \<not> isOk (applyBudgetOverrides d ov)"
  using result_allowed[of d ov] by (cases "applyBudgetOverrides d ov") (auto simp: allowed_def)

end

interpretation wallCeiling: ceiling bc_MaxWallClock askWall
  by unfold_locales (simp_all add: applyBudgetOverrides_Ok)

interpretation inputCeiling: ceiling bc_MaxInputTokens "\<lambda>ov. askInt (bo_MaxInputTokens ov)"
  by unfold_locales (simp_all add: applyBudgetOverrides_Ok)

interpretation outputCeiling: ceiling bc_MaxOutputTokens "\<lambda>ov. askInt (bo_MaxOutputTokens ov)"
  by unfold_locales (simp_all add: applyBudgetOverrides_Ok)

interpretation toolCeiling: ceiling bc_MaxToolCalls "\<lambda>ov. askInt (bo_MaxToolCalls ov)"
  by unfold_locales (simp_all add: applyBudgetOverrides_Ok)

interpretation costCeiling: ceiling bc_MaxCostMicrodollars "\<lambda>ov. askInt (bo_MaxCostMicrodollars ov)"
  by unfold_locales (simp_all add: applyBudgetOverrides_Ok)

section \<open>Properties\<close>

text \<open>Budget overrides are accepted exactly when the wall-clock text parses and no given
  value exceeds a ceiling the profile sets; the accepted configuration takes every given
  value and keeps the profile's value elsewhere.\<close>

theorem applyBudgetOverrides_decides:
  "applyBudgetOverrides d ov = Ok c \<longleftrightarrow> wallParses ov \<and>
     allowed (bc_MaxWallClock d) (askWall ov) \<and>
     allowed (bc_MaxInputTokens d) (askInt (bo_MaxInputTokens ov)) \<and>
     allowed (bc_MaxOutputTokens d) (askInt (bo_MaxOutputTokens ov)) \<and>
     allowed (bc_MaxToolCalls d) (askInt (bo_MaxToolCalls ov)) \<and>
     allowed (bc_MaxCostMicrodollars d) (askInt (bo_MaxCostMicrodollars ov)) \<and>
     c = \<lparr>bc_MaxWallClock = effective (bc_MaxWallClock d) (askWall ov),
          bc_MaxInputTokens = effective (bc_MaxInputTokens d) (askInt (bo_MaxInputTokens ov)),
          bc_MaxOutputTokens = effective (bc_MaxOutputTokens d) (askInt (bo_MaxOutputTokens ov)),
          bc_MaxToolCalls = effective (bc_MaxToolCalls d) (askInt (bo_MaxToolCalls ov)),
          bc_MaxCostMicrodollars = effective (bc_MaxCostMicrodollars d) (askInt (bo_MaxCostMicrodollars ov))\<rparr>"
  by (rule applyBudgetOverrides_Ok)

text \<open>C21. On signed 64-bit values, accepted overrides never raise a ceiling the profile sets, in
  any of the five dimensions. The bound is numeric: a negative override is accepted as lower, although
  the code reads a ceiling that is not positive as not set.\<close>

theorem budget_never_loosened:
  assumes "applyBudgetOverrides d ov = Ok c"
  shows "tighter (bc_MaxWallClock d) (bc_MaxWallClock c) \<and> tighter (bc_MaxInputTokens d) (bc_MaxInputTokens c) \<and>
      tighter (bc_MaxOutputTokens d) (bc_MaxOutputTokens c) \<and> tighter (bc_MaxToolCalls d) (bc_MaxToolCalls c) \<and>
      tighter (bc_MaxCostMicrodollars d) (bc_MaxCostMicrodollars c)"
  using wallCeiling.never_loosened inputCeiling.never_loosened outputCeiling.never_loosened
    toolCeiling.never_loosened costCeiling.never_loosened assms by blast

definition flatConfig :: "int64 \<Rightarrow> BudgetConfig" where
  "flatConfig n = \<lparr>bc_MaxWallClock = n, bc_MaxInputTokens = n, bc_MaxOutputTokens = n, bc_MaxToolCalls = n,
     bc_MaxCostMicrodollars = n\<rparr>"

definition callOverride :: "int64 \<Rightarrow> BudgetOverrides" where
  "callOverride n = \<lparr>bo_MaxWallClock = [], bo_MaxInputTokens = 0, bo_MaxOutputTokens = 0, bo_MaxToolCalls = n,
     bo_MaxCostMicrodollars = 0\<rparr>"

theorem budget_never_loosened_witness:
  "tighter 100 (bc_MaxToolCalls ((flatConfig 100)\<lparr>bc_MaxToolCalls := 3\<rparr>))"
proof -
  have "applyBudgetOverrides (flatConfig 100) (callOverride 3) = Ok ((flatConfig 100)\<lparr>bc_MaxToolCalls := 3\<rparr>)"
    by (simp add: applyBudgetOverrides_def wallClock_def tightenInt64_def callOverride_def flatConfig_def Let_def)
  from budget_never_loosened[OF this] show ?thesis by (simp add: flatConfig_def)
qed

text \<open>Every rejection of parsable overrides is a loosening error, and the routine always
  returns (it never panics).\<close>

theorem budget_errors_are_loosening:
  assumes "wallParses ov"
  shows "noPanic (applyBudgetOverrides d ov) \<and>
    (applyBudgetOverrides d ov = Err e \<longrightarrow> errors_is e ErrBudgetLoosening)"
  using applyBudgetOverrides_noPanic applyBudgetOverrides_Err[OF _ assms] by blast

theorem budget_errors_are_loosening_witness:
  "noPanic (applyBudgetOverrides (flatConfig 2) (callOverride 3))"
  using budget_errors_are_loosening[of "callOverride 3"] by (simp add: wallParses_def callOverride_def)

end
