(* ===== verification/BuildAgent.thy ===== *)
theory BuildAgent
  imports BuildExpand BuildChains BuildBudget
begin

text \<open>
  The builder (\<^verbatim>\<open>build/resolver.go\<close>, \<^verbatim>\<open>mcp.go\<close>, \<^verbatim>\<open>capabilities.go\<close>,
  \<^verbatim>\<open>build.go\<close>, with the data of \<^verbatim>\<open>manifest/\<close>) and the public facade
  \<^verbatim>\<open>forge.go\<close>: resolution of every component through the registry, composition of the
  orchestrator's options, and the manifest.

  \<open>orchNew\<close> is praxis's \<^verbatim>\<open>orchestrator.New\<close>, \<open>now\<close> the wall clock; both are
  arguments. Freezing the registry is visible in the result, also when the build fails.
\<close>

section \<open>resolver.go\<close>

record 'h resolved =
  re_provider :: 'h
  re_providerID :: string
  re_providerCfg :: gomap
  re_systemPrompt :: string
  re_promptID :: string
  re_toolPacks :: "'h ToolPack list"
  re_toolPackIDs :: "string list"
  re_toolPackCfgs :: "gomap list"
  re_policyHooks :: "'h list"
  re_policyHookIDs :: "string list"
  re_policyHookCfgs :: "gomap list"
  re_preLLMFilters :: "'h list"
  re_preLLMIDs :: "string list"
  re_preLLMCfgs :: "gomap list"
  re_preToolFilters :: "'h list"
  re_preToolIDs :: "string list"
  re_preToolCfgs :: "gomap list"
  re_postToolFilters :: "'h list"
  re_postToolIDs :: "string list"
  re_postToolCfgs :: "gomap list"
  re_budget :: "'h BudgetProfile option"
  re_budgetID :: string
  re_budgetCfg :: gomap
  re_budgetOverrides :: BudgetOverrides
  re_telemetry :: "'h TelemetryProfile option"
  re_telemetryID :: string
  re_telemetryCfg :: gomap
  re_credResolver :: "'h option"
  re_credResolverID :: string
  re_credResolverCfg :: gomap
  re_identity :: "'h option"
  re_identityID :: string
  re_identityCfg :: gomap
  re_skills :: "Skill list"
  re_skillIDs :: "string list"
  re_skillCfgs :: "gomap list"
  re_outputContract :: "OutputContract option"
  re_outputContractID :: string
  re_outputContractCfg :: gomap
  re_mcpBindings :: "MCPBinding list"
  re_mcpBindingIDs :: "string list"
  re_mcpBindingCfgs :: "gomap list"
  re_specSnapshot :: AgentSpec

definition noOverrides :: BudgetOverrides where
  "noOverrides = \<lparr>bo_MaxWallClock = [], bo_MaxInputTokens = 0, bo_MaxOutputTokens = 0,
     bo_MaxToolCalls = 0, bo_MaxCostMicrodollars = 0\<rparr>"

text \<open>
  A lookup followed by \<^verbatim>\<open>Build\<close>, each error wrapped with its own format. The value,
  the factory's id and the configuration are what the slot stores.
\<close>

definition buildRef :: "(string \<Rightarrow> 'v Factory result) \<Rightarrow> ctx \<Rightarrow> (gerror \<Rightarrow> gerror) \<Rightarrow> (gerror \<Rightarrow> gerror) \<Rightarrow>
    string \<Rightarrow> gomap \<Rightarrow> ('v \<times> string \<times> gomap) result" where
  "buildRef lk ctx rErr bErr ref cfg =
     bindR (wrapErr rErr (lk ref)) (\<lambda>f.
     bindR (wrapErr bErr (f_Build f ctx cfg)) (\<lambda>v. Ok (v, f_ID f, cfg)))"

text \<open>The loop over a list of refs; \<open>slot\<close> names it in the error texts.\<close>

definition buildRefs :: "(string \<Rightarrow> 'v Factory result) \<Rightarrow> ctx \<Rightarrow> string \<Rightarrow> ComponentRef list \<Rightarrow>
    ('v \<times> string \<times> gomap) list result" where
  "buildRefs lk ctx slot refs = loopR (\<lambda>i ref. buildRef lk ctx
     (\<lambda>err. Errorf (''resolve '' @ slot @ ''[%d]: %w'') [AInt (int i), AWrap err])
     (\<lambda>err. Errorf (''build '' @ slot @ ''[%d] %s: %w'') [AInt (int i), AStr (cr_Ref ref), AWrap err])
     (cr_Ref ref) (cr_Config ref)) 0 refs"

definition buildOne :: "(string \<Rightarrow> 'v Factory result) \<Rightarrow> ctx \<Rightarrow> string \<Rightarrow> string \<Rightarrow> string \<Rightarrow> gomap \<Rightarrow>
    ('v \<times> string \<times> gomap) result" where
  "buildOne lk ctx slot kind ref cfg = buildRef lk ctx
     (\<lambda>err. Errorf (''resolve '' @ slot @ '': %w'') [AWrap err])
     (\<lambda>err. Errorf (''build '' @ kind @ '' %s: %w'') [AStr ref, AWrap err]) ref cfg"

text \<open>An optional single slot: nil leaves the zero values.\<close>

definition buildOpt :: "(string \<Rightarrow> 'v Factory result) \<Rightarrow> ctx \<Rightarrow> string \<Rightarrow> (string \<times> gomap) option \<Rightarrow>
    ('v \<times> string \<times> gomap) option result" where
  "buildOpt lk ctx slot ref = (case ref of None \<Rightarrow> Ok None
     | Some (r, cfg) \<Rightarrow> bindR (buildOne lk ctx slot slot r cfg) (\<lambda>x. Ok (Some x)))"

definition refCfg :: "ComponentRef option \<Rightarrow> (string \<times> gomap) option" where
  "refCfg = map_option (\<lambda>c. (cr_Ref c, cr_Config c))"

definition optID :: "('v \<times> string \<times> gomap) option \<Rightarrow> string" where
  "optID x = (case x of None \<Rightarrow> [] | Some (_, cid, _) \<Rightarrow> cid)"

definition optCfg :: "('v \<times> string \<times> gomap) option \<Rightarrow> gomap" where
  "optCfg x = (case x of None \<Rightarrow> None | Some (_, _, cfg) \<Rightarrow> cfg)"

definition resolve :: "ctx \<Rightarrow> AgentSpec \<Rightarrow> 'h ComponentRegistry \<Rightarrow> 'h resolved result" where
  "resolve ctx s r =
     bindR (buildOne (LookupProvider r) ctx ''provider'' ''provider'' (cr_Ref (s_Provider s)) (cr_Config (s_Provider s))) (\<lambda>prov.
     case pb_System (s_Prompt s) of None \<Rightarrow> Panic ''nil pointer dereference: s.Prompt.System'' | Some sys \<Rightarrow>
     bindR (buildOne (LookupPromptAsset r) ctx ''prompt.system'' ''prompt'' (cr_Ref sys) (cr_Config sys)) (\<lambda>prompt.
     bindR (buildRefs (LookupToolPack r) ctx ''tools'' (elems (s_Tools s))) (\<lambda>tools.
     bindR (buildRefs (LookupPolicyPack r) ctx ''policies'' (elems (s_Policies s))) (\<lambda>policies.
     bindR (buildRefs (LookupPreLLMFilter r) ctx ''filters.preLLM'' (elems (fb_PreLLM (s_Filters s)))) (\<lambda>preLLM.
     bindR (buildRefs (LookupPreToolFilter r) ctx ''filters.preTool'' (elems (fb_PreTool (s_Filters s)))) (\<lambda>preTool.
     bindR (buildRefs (LookupPostToolFilter r) ctx ''filters.postTool'' (elems (fb_PostTool (s_Filters s)))) (\<lambda>postTool.
     bindR (buildOpt (LookupBudgetProfile r) ctx ''budget'' (map_option (\<lambda>b. (br_Ref b, None)) (s_Budget s))) (\<lambda>budget.
     bindR (buildOpt (LookupTelemetryProfile r) ctx ''telemetry'' (refCfg (s_Telemetry s))) (\<lambda>telemetry.
     bindR (buildOpt (LookupCredentialResolver r) ctx ''credentials'' (map_option (\<lambda>c. (cd_Ref c, None)) (s_Credentials s))) (\<lambda>cred.
     bindR (buildOpt (LookupIdentitySigner r) ctx ''identity'' (refCfg (s_Identity s))) (\<lambda>ident.
     Ok \<lparr>re_provider = fst prov, re_providerID = fst (snd prov), re_providerCfg = snd (snd prov),
         re_systemPrompt = fst prompt, re_promptID = fst (snd prompt),
         re_toolPacks = map fst tools, re_toolPackIDs = map (fst \<circ> snd) tools, re_toolPackCfgs = map (snd \<circ> snd) tools,
         re_policyHooks = map (pp_Hook \<circ> fst) policies, re_policyHookIDs = map (fst \<circ> snd) policies,
         re_policyHookCfgs = map (snd \<circ> snd) policies,
         re_preLLMFilters = map fst preLLM, re_preLLMIDs = map (fst \<circ> snd) preLLM, re_preLLMCfgs = map (snd \<circ> snd) preLLM,
         re_preToolFilters = map fst preTool, re_preToolIDs = map (fst \<circ> snd) preTool, re_preToolCfgs = map (snd \<circ> snd) preTool,
         re_postToolFilters = map fst postTool, re_postToolIDs = map (fst \<circ> snd) postTool, re_postToolCfgs = map (snd \<circ> snd) postTool,
         re_budget = map_option fst budget, re_budgetID = optID budget, re_budgetCfg = None,
         re_budgetOverrides = (case s_Budget s of None \<Rightarrow> noOverrides | Some b \<Rightarrow> br_Overrides b),
         re_telemetry = map_option fst telemetry, re_telemetryID = optID telemetry, re_telemetryCfg = optCfg telemetry,
         re_credResolver = Option.bind cred fst, re_credResolverID = optID cred, re_credResolverCfg = None,
         re_identity = Option.bind ident fst, re_identityID = optID ident, re_identityCfg = optCfg ident,
         re_skills = [], re_skillIDs = [], re_skillCfgs = [],
         re_outputContract = None, re_outputContractID = [], re_outputContractCfg = None,
         re_mcpBindings = [], re_mcpBindingIDs = [], re_mcpBindingCfgs = [], re_specSnapshot = s\<rparr>)))))))))))"

section \<open>mcp.go\<close>

record ResolvedMCPBinding =
  rm_ID :: string
  rm_Config :: gomap
  rm_Value :: MCPBinding

definition mcpErr :: "string \<Rightarrow> string \<Rightarrow> nat \<Rightarrow> string \<Rightarrow> garg list \<Rightarrow> gerror \<Rightarrow> gerror" where
  "mcpErr fmt code i ref extra err = Errorf fmt ([AStr code, AInt (int i), AStr ref] @ extra @ [AWrap err])"

definition resolveMCPBinding :: "ctx \<Rightarrow> 'h ComponentRegistry \<Rightarrow> nat \<Rightarrow> ComponentRef \<Rightarrow> ResolvedMCPBinding result" where
  "resolveMCPBinding ctx r i ref =
     bindR (wrapErr (mcpErr ''%s: mcpImports[%d] %s: %w'' ''mcp_unresolved_factory'' i (cr_Ref ref) [])
              (LookupMCPBinding r (cr_Ref ref))) (\<lambda>fac.
     bindR (wrapErr (\<lambda>err. Errorf ''build mcpImports[%d] %s: %w'' [AInt (int i), AStr (cr_Ref ref), AWrap err])
              (f_Build fac ctx (cr_Config ref))) (\<lambda>val.
     bindR (loopR (\<lambda>j pid. wrapErr (mcpErr ''%s: mcpImports[%d] %s: policies[%d] %s: %w'' ''mcp_unresolved_policy'' i
                (cr_Ref ref) [AInt (int j), AStr pid]) (LookupPolicyPack r pid)) 0 (elems (mb_Policies val))) (\<lambda>_.
     bindR (case mb_Auth val of
          None \<Rightarrow> Ok ()
        | Some auth \<Rightarrow> bindR (wrapErr (mcpErr ''%s: mcpImports[%d] %s: auth.credentialRef %s: %w''
              ''mcp_unresolved_credential'' i (cr_Ref ref) [AStr (ma_CredentialRef auth)])
              (LookupCredentialResolver r (ma_CredentialRef auth))) (\<lambda>_. Ok ())) (\<lambda>_.
     Ok \<lparr>rm_ID = cr_Ref ref, rm_Config = cr_Config ref, rm_Value = val\<rparr>))))"

definition resolveMCPBindings :: "ctx \<Rightarrow> AgentSpec \<Rightarrow> 'h ComponentRegistry \<Rightarrow> ResolvedMCPBinding list result" where
  "resolveMCPBindings ctx s r = loopR (resolveMCPBinding ctx r) 0 (elems (s_MCPImports s))"

section \<open>manifest/\<close>

record CapabilitySkip =
  ck_Kind :: string
  ck_Reason :: string

record Capabilities =
  cap_Present :: "string list"
  cap_Skipped :: "CapabilitySkip list"

datatype descriptors = NoDescriptors | SkillDesc SkillDescriptor | ContractDesc OutputContractDescriptor
  | BindingDesc MCPBindingDescriptor

record ResolvedComponent =
  rcp_Kind :: string
  rcp_ID :: string
  rcp_Config :: gomap
  rcp_Descriptors :: descriptors
  rcp_InjectedBySkill :: string

record Manifest =
  mf_SpecID :: string
  mf_SpecVersion :: string
  mf_BuiltAt :: int
  mf_NormalizedHash :: string
  mf_ExpandedHash :: string
  mf_Capabilities :: Capabilities
  mf_ExtendsChain :: "string list"
  mf_Overlays :: "OverlayAttribution list"
  mf_Resolved :: "ResolvedComponent list"

section \<open>capabilities.go\<close>

definition skip :: "string \<Rightarrow> CapabilitySkip" where
  "skip kind = \<lparr>ck_Kind = kind, ck_Reason = ''not_specified''\<rparr>"

text \<open>Kinds with a list are present when non-empty; optional kinds are present or skipped.\<close>

definition optionalKinds :: "AgentSpec \<Rightarrow> ExpandedSpec \<Rightarrow> (bool \<times> string) list" where
  "optionalKinds s expanded =
     [(s_Budget s \<noteq> None, KindBudgetProfile), (s_Telemetry s \<noteq> None, KindTelemetryProfile),
      (s_Credentials s \<noteq> None, KindCredentialResolver), (s_Identity s \<noteq> None, KindIdentitySigner),
      (elems (s_Skills s) \<noteq> [], KindSkill),
      (s_OutputContract (ex_Spec expanded) \<noteq> None, KindOutputContract),
      (elems (s_MCPImports s) \<noteq> [], KindMCPBinding)]"

definition listKinds :: "'h resolved \<Rightarrow> (bool \<times> string) list" where
  "listKinds res =
     [(re_toolPackIDs res \<noteq> [], KindToolPack), (re_policyHookIDs res \<noteq> [], KindPolicyPack),
      (re_preLLMIDs res \<noteq> [], KindPreLLMFilter), (re_preToolIDs res \<noteq> [], KindPreToolFilter),
      (re_postToolIDs res \<noteq> [], KindPostToolFilter)]"

definition computeCapabilities :: "AgentSpec \<Rightarrow> 'h resolved \<Rightarrow> ExpandedSpec \<Rightarrow> Capabilities" where
  "computeCapabilities s res expanded =
     (let opts = optionalKinds s expanded;
          present = [KindProvider, KindPromptAsset] @ map snd (filter fst (listKinds res)) @ map snd (filter fst opts)
      in \<lparr>cap_Present = sort present, cap_Skipped = map (\<lambda>k. skip (snd k)) (filter (\<lambda>k. \<not> fst k) opts)\<rparr>)"

section \<open>build.go\<close>

fun appendFragments :: "string list \<Rightarrow> string \<Rightarrow> ResolvedSkill list \<Rightarrow> string" where
  "appendFragments seen out [] = out"
| "appendFragments seen out (rs # rest) =
     (let frag = sk_PromptFragment (rs_Value rs) in
      if frag = [] then appendFragments seen out rest
      else if frag \<in> set seen then appendFragments seen out rest
      else appendFragments (frag # seen)
             ((if out \<noteq> [] then out @ [char_of (10::nat), char_of (10::nat)] else out) @ frag) rest)"

definition appendSkillFragments :: "string \<Rightarrow> ResolvedSkill list \<Rightarrow> string" where
  "appendSkillFragments base sks = appendFragments [] base sks"

definition lookupInjector :: "ExpandedSpec \<Rightarrow> string \<Rightarrow> string \<Rightarrow> string" where
  "lookupInjector expanded kindLabel cid =
     (case ex_InjectedBy expanded (injKey kindLabel cid) of None \<Rightarrow> [] | Some sk \<Rightarrow> sk)"

text \<open>Indexing a parallel slice, which panics out of range.\<close>

definition idx :: "'a list \<Rightarrow> nat \<Rightarrow> 'a result" where
  "idx xs i = (if i < length xs then Ok (xs ! i) else Panic ''index out of range'')"

definition entry :: "string \<Rightarrow> string \<Rightarrow> gomap \<Rightarrow> descriptors \<Rightarrow> string \<Rightarrow> ResolvedComponent" where
  "entry kind cid cfg desc by_skill = \<lparr>rcp_Kind = kind, rcp_ID = cid, rcp_Config = cfg, rcp_Descriptors = desc,
     rcp_InjectedBySkill = by_skill\<rparr>"

definition listEntries :: "string \<Rightarrow> string list \<Rightarrow> gomap list \<Rightarrow> (nat \<Rightarrow> descriptors result) \<Rightarrow>
    (string \<Rightarrow> string) \<Rightarrow> ResolvedComponent list result" where
  "listEntries kind ids cfgs desc injector =
     loopR (\<lambda>i cid. bindR (desc i) (\<lambda>d. bindR (idx cfgs i) (\<lambda>cfg. Ok (entry kind cid cfg d (injector cid))))) 0 ids"

definition optEntry :: "bool \<Rightarrow> ResolvedComponent \<Rightarrow> ResolvedComponent list" where
  "optEntry present e = (if present then [e] else [])"

abbreviation noDesc :: "nat \<Rightarrow> descriptors result" where
  "noDesc i \<equiv> Ok NoDescriptors"

definition okOr :: "'a \<Rightarrow> 'a result \<Rightarrow> 'a" where
  "okOr d r = (case r of Ok x \<Rightarrow> x | _ \<Rightarrow> d)"

definition buildManifest :: "mo \<Rightarrow> int \<Rightarrow> AgentSpec \<Rightarrow> 'h resolved \<Rightarrow> NormalizedSpec \<Rightarrow> memos \<Rightarrow> ExpandedSpec \<Rightarrow>
    Manifest result" where
  "buildManifest mo now s res ns m expanded =
     bindR (listEntries KindToolPack (re_toolPackIDs res) (re_toolPackCfgs res) noDesc (lookupInjector expanded ''tool_pack'')) (\<lambda>tools.
     bindR (listEntries KindPolicyPack (re_policyHookIDs res) (re_policyHookCfgs res) noDesc (lookupInjector expanded ''policy_pack'')) (\<lambda>policies.
     bindR (listEntries KindPreLLMFilter (re_preLLMIDs res) (re_preLLMCfgs res) noDesc (\<lambda>_. [])) (\<lambda>preLLM.
     bindR (listEntries KindPreToolFilter (re_preToolIDs res) (re_preToolCfgs res) noDesc (\<lambda>_. [])) (\<lambda>preTool.
     bindR (listEntries KindPostToolFilter (re_postToolIDs res) (re_postToolCfgs res) noDesc (\<lambda>_. [])) (\<lambda>postTool.
     bindR (listEntries KindSkill (re_skillIDs res) (re_skillCfgs res)
              (\<lambda>i. bindR (idx (re_skills res) i) (\<lambda>sk. Ok (SkillDesc (sk_Descriptor sk)))) (\<lambda>_. [])) (\<lambda>skills.
     bindR (listEntries KindMCPBinding (re_mcpBindingIDs res) (re_mcpBindingCfgs res)
              (\<lambda>i. bindR (idx (re_mcpBindings res) i) (\<lambda>b. Ok (BindingDesc (mb_Descriptor b)))) (\<lambda>_. [])) (\<lambda>mcp.
     Ok \<lparr>mf_SpecID = md_ID (s_Metadata s), mf_SpecVersion = md_Version (s_Metadata s), mf_BuiltAt = now,
         mf_NormalizedHash = okOr [] (fst (NormalizedHash mo (ns_Spec ns) m)),
         mf_ExpandedHash = (if elems (s_Skills s) \<noteq> [] then okOr [] (computeExpandedHash mo expanded) else []),
         mf_Capabilities = computeCapabilities s res expanded,
         mf_ExtendsChain = elems (ns_ExtendsChain ns), mf_Overlays = elems (ns_Overlays ns),
         mf_Resolved =
           [entry KindProvider (re_providerID res) (re_providerCfg res) NoDescriptors [],
            entry KindPromptAsset (re_promptID res) None NoDescriptors []] @
           tools @ policies @ preLLM @ preTool @ postTool @
           optEntry (re_budget res \<noteq> None) (entry KindBudgetProfile (re_budgetID res) (re_budgetCfg res) NoDescriptors []) @
           optEntry (re_telemetry res \<noteq> None) (entry KindTelemetryProfile (re_telemetryID res) (re_telemetryCfg res) NoDescriptors []) @
           optEntry (re_credResolver res \<noteq> None) (entry KindCredentialResolver (re_credResolverID res) (re_credResolverCfg res) NoDescriptors []) @
           optEntry (re_identity res \<noteq> None) (entry KindIdentitySigner (re_identityID res) (re_identityCfg res) NoDescriptors []) @
           skills @
           (case re_outputContract res of None \<Rightarrow> [] | Some oc \<Rightarrow>
              [entry KindOutputContract (re_outputContractID res) (re_outputContractCfg res) (ContractDesc (oc_Descriptor oc))
                 (lookupInjector expanded ''output_contract'' (re_outputContractID res))]) @
           mcp\<rparr>)))))))"

text \<open>The options handed to praxis, in the order the builder appends them.\<close>

datatype 'h orchOption =
    WithToolInvoker "'h toolRouter"
  | WithPolicyHook "'h list"
  | WithPreLLMFilter "'h list"
  | WithPreToolFilter "'h list"
  | WithPostToolFilter "'h list"
  | WithBudgetGuard 'h
  | WithLifecycleEmitter 'h
  | WithAttributeEnricher 'h
  | WithCredentialResolver 'h
  | WithIdentitySigner 'h

record 'o BuiltAgent =
  ba_Orchestrator :: 'o
  ba_Manifest :: Manifest
  ba_SystemPrompt :: string
  ba_ToolDefs :: "ToolDefinition list"
  ba_NormalizedSpec :: NormalizedSpec

definition stampExpansion :: "ExpandedSpec \<Rightarrow> 'h resolved \<Rightarrow> 'h resolved" where
  "stampExpansion expanded res =
     (let res = res\<lparr>re_skills := map rs_Value (ex_Skills expanded), re_skillIDs := map rs_ID (ex_Skills expanded),
                    re_skillCfgs := map rs_Config (ex_Skills expanded)\<rparr>
      in case ex_ResolvedOutputContract expanded of None \<Rightarrow> res
         | Some oc \<Rightarrow> res\<lparr>re_outputContract := Some (ro_Value oc), re_outputContractID := ro_ID oc,
                          re_outputContractCfg := ro_Config oc\<rparr>)"

definition stampMCP :: "ResolvedMCPBinding list \<Rightarrow> 'h resolved \<Rightarrow> 'h resolved" where
  "stampMCP binds res = res\<lparr>re_mcpBindings := map rm_Value binds, re_mcpBindingIDs := map rm_ID binds,
     re_mcpBindingCfgs := map rm_Config binds\<rparr>"

text \<open>The tools part: router option and tool definitions, none without tool packs.\<close>

definition toolOptions :: "'h resolved \<Rightarrow> ('h orchOption list \<times> ToolDefinition list) result" where
  "toolOptions res =
     (if re_toolPacks res = [] then Ok ([], [])
      else bindR (wrapErr (\<lambda>err. Errorf ''tool router: %w'' [AWrap err]) (newToolRouter (re_toolPacks res)))
        (\<lambda>(router, defs). Ok ([WithToolInvoker router], defs)))"

definition chainOptions :: "'h resolved \<Rightarrow> 'h orchOption list" where
  "chainOptions res =
     (if re_policyHooks res = [] then [] else [WithPolicyHook (re_policyHooks res)]) @
     (if re_preLLMFilters res = [] then [] else [WithPreLLMFilter (re_preLLMFilters res)]) @
     (if re_preToolFilters res = [] then [] else [WithPreToolFilter (re_preToolFilters res)]) @
     (if re_postToolFilters res = [] then [] else [WithPostToolFilter (re_postToolFilters res)])"

text \<open>The overrides are checked, and the profile's guard is passed on as it was built.\<close>

definition budgetOptions :: "'h resolved \<Rightarrow> 'h orchOption list result" where
  "budgetOptions res = (case re_budget res of None \<Rightarrow> Ok []
     | Some bp \<Rightarrow> bindR (applyBudgetOverrides (bp_DefaultConfig bp) (re_budgetOverrides res))
         (\<lambda>_. Ok [WithBudgetGuard (bp_Guard bp)]))"

definition runtimeOptions :: "'h resolved \<Rightarrow> 'h orchOption list" where
  "runtimeOptions res =
     (case re_telemetry res of None \<Rightarrow> [] | Some tp \<Rightarrow> [WithLifecycleEmitter (te_Emitter tp), WithAttributeEnricher (te_Enricher tp)]) @
     (case re_credResolver res of None \<Rightarrow> [] | Some c \<Rightarrow> [WithCredentialResolver c]) @
     (case re_identity res of None \<Rightarrow> [] | Some i \<Rightarrow> [WithIdentitySigner i])"

text \<open>From the resolved components to the agent: options, orchestrator, manifest.\<close>

definition materialize :: "mo \<Rightarrow> ('h \<Rightarrow> 'h orchOption list \<Rightarrow> 'o result) \<Rightarrow> int \<Rightarrow> NormalizedSpec \<Rightarrow> memos \<Rightarrow>
    ExpandedSpec \<Rightarrow> 'h resolved \<Rightarrow> 'o BuiltAgent result" where
  "materialize mo orchNew now ns m expanded res =
     bindR (toolOptions res) (\<lambda>(toolOpts, toolDefs).
     bindR (budgetOptions res) (\<lambda>budgetOpts.
     let opts = toolOpts @ chainOptions res @ budgetOpts @ runtimeOptions res in
     bindR (wrapErr (\<lambda>err. Errorf ''orchestrator.New: %w'' [AWrap err]) (orchNew (re_provider res) opts)) (\<lambda>orch.
     bindR (buildManifest mo now (ns_Spec ns) res ns m expanded) (\<lambda>manifest.
     Ok \<lparr>ba_Orchestrator = orch, ba_Manifest = manifest, ba_SystemPrompt = re_systemPrompt res,
         ba_ToolDefs = toolDefs, ba_NormalizedSpec = ns\<rparr>))))"

definition buildFrozen :: "mo \<Rightarrow> ('h \<Rightarrow> 'h orchOption list \<Rightarrow> 'o result) \<Rightarrow> int \<Rightarrow> ctx \<Rightarrow> NormalizedSpec \<Rightarrow> memos \<Rightarrow>
    'h ComponentRegistry \<Rightarrow> 'o BuiltAgent result" where
  "buildFrozen mo orchNew now ctx ns m r =
     bindR (expandSkills mo ctx (ns_Spec ns) r) (\<lambda>expanded.
     bindR (resolveOutputContract ctx expanded r) (\<lambda>expanded.
     bindR (resolve ctx (ex_Spec expanded) r) (\<lambda>res.
     bindR (resolveMCPBindings ctx (ex_Spec expanded) r) (\<lambda>binds.
     let res = stampMCP binds (stampExpansion expanded res);
         res = res\<lparr>re_systemPrompt := appendSkillFragments (re_systemPrompt res) (ex_Skills expanded)\<rparr>
     in materialize mo orchNew now ns m expanded res))))"

text \<open>The registry is a pointer; on a nil one \<^verbatim>\<open>Freeze\<close> dereferences nil.\<close>

definition Build :: "mo \<Rightarrow> ('h \<Rightarrow> 'h orchOption list \<Rightarrow> 'o result) \<Rightarrow> int \<Rightarrow> ctx \<Rightarrow> NormalizedSpec \<Rightarrow> memos \<Rightarrow>
    'h ComponentRegistry option \<Rightarrow> 'o BuiltAgent result \<times> 'h ComponentRegistry option" where
  "Build mo orchNew now ctx ns m reg =
     (case reg of None \<Rightarrow> (Panic ''nil pointer dereference: r.mu'', None)
      | Some r \<Rightarrow> let r = Freeze r in (buildFrozen mo orchNew now ctx ns m r, Some r))"

section \<open>forge.go\<close>

record options =
  op_overlays :: "AgentOverlay option list"
  op_store :: "SpecStore option"

definition WithOverlays :: "AgentOverlay option list \<Rightarrow> options \<Rightarrow> options" where
  "WithOverlays overlays o1 = o1\<lparr>op_overlays := op_overlays o1 @ overlays\<rparr>"

definition WithSpecStore :: "SpecStore option \<Rightarrow> options \<Rightarrow> options" where
  "WithSpecStore store o1 = o1\<lparr>op_store := store\<rparr>"

definition noOptions :: options where
  "noOptions = \<lparr>op_overlays = [], op_store = None\<rparr>"

text \<open>Spec and registry are pointers, passed on as they are; the registry after the call is returned.\<close>

definition forge_Build :: "mo \<Rightarrow> ('h \<Rightarrow> 'h orchOption list \<Rightarrow> 'o result) \<Rightarrow> int \<Rightarrow> ctx \<Rightarrow> AgentSpec option \<Rightarrow>
    'h ComponentRegistry option \<Rightarrow> (options \<Rightarrow> options) list \<Rightarrow> 'o BuiltAgent result \<times> 'h ComponentRegistry option" where
  "forge_Build mo orchNew now ctx s r opts =
     (let o1 = fold (\<lambda>opt. opt) opts noOptions in
      case Normalize ctx s (op_overlays o1) (op_store o1) of
        Err e \<Rightarrow> (Err e, r)
      | Panic p \<Rightarrow> (Panic p, r)
      | Ok ns \<Rightarrow> Build mo orchNew now ctx ns freshMemos r)"

end
