(* ===== verification/BuildProps.thy ===== *)
theory BuildProps
  imports BuildAgent
begin

text \<open>
  What the builder guarantees: every component comes from the registry under the id the
  spec names, the parallel slices of \<^verbatim>\<open>resolved\<close> stay aligned (so the manifest's
  indexing is safe), and the capability summary is complete.
\<close>

section \<open>Slots\<close>

text \<open>A lookup that returns factories under their own id, as every reachable registry does.\<close>

definition keyedLookup :: "(string \<Rightarrow> 'v Factory result) \<Rightarrow> bool" where
  "keyedLookup lk \<longleftrightarrow> (\<forall>ref f. lk ref = Ok f \<longrightarrow> f_ID f = ref) \<and> (\<forall>ref. noPanic (lk ref))"

lemma keyed_lookups:
  assumes "registry_wf r"
  shows "keyedLookup (LookupProvider r)" "keyedLookup (LookupPromptAsset r)" "keyedLookup (LookupToolPack r)"
    "keyedLookup (LookupPolicyPack r)" "keyedLookup (LookupPreLLMFilter r)" "keyedLookup (LookupPreToolFilter r)"
    "keyedLookup (LookupPostToolFilter r)" "keyedLookup (LookupBudgetProfile r)"
    "keyedLookup (LookupTelemetryProfile r)" "keyedLookup (LookupCredentialResolver r)"
    "keyedLookup (LookupIdentitySigner r)"
  using assms
  by (auto simp: keyedLookup_def registry_wf_def keyed_def lookup_defs split: option.splits)

lemma buildRef_Ok:
  "buildRef lk ctx rE bE ref cfg = Ok (v, cid, cfg') \<longleftrightarrow>
     (\<exists>f. lk ref = Ok f \<and> f_Build f ctx cfg = Ok v \<and> cid = f_ID f \<and> cfg' = cfg)"
  by (auto simp: buildRef_def)

lemma buildRefs_Ok:
  assumes "buildRefs lk ctx slot refs = Ok xs"
  shows "length xs = length refs" "map (snd \<circ> snd) xs = map cr_Config refs"
    and "keyedLookup lk \<Longrightarrow> map (fst \<circ> snd) xs = map cr_Ref refs"
    and "\<forall>i < length refs. \<exists>f. lk (cr_Ref (refs ! i)) = Ok f \<and> f_Build f ctx (cr_Config (refs ! i)) = Ok (fst (xs ! i))"
proof -
  from assms have l: "length xs = length refs"
    and b: "\<And>i. i < length refs \<Longrightarrow> \<exists>f v. lk (cr_Ref (refs ! i)) = Ok f \<and>
      f_Build f ctx (cr_Config (refs ! i)) = Ok v \<and> (v, f_ID f, cr_Config (refs ! i)) = xs ! i"
    by (fastforce simp: buildRefs_def loopR_Ok_iff buildRef_def)+
  have e: "\<And>i. i < length refs \<Longrightarrow> \<exists>f. lk (cr_Ref (refs ! i)) = Ok f \<and>
      f_Build f ctx (cr_Config (refs ! i)) = Ok (fst (xs ! i)) \<and> xs ! i = (fst (xs ! i), f_ID f, cr_Config (refs ! i))"
    using b by (metis fst_conv)
  show "length xs = length refs" by (rule l)
  show "map (snd \<circ> snd) xs = map cr_Config refs"
    by (rule nth_equalityI) (use l e in \<open>auto, metis snd_conv\<close>)
  show "map (fst \<circ> snd) xs = map cr_Ref refs" if k: "keyedLookup lk"
  proof (rule nth_equalityI)
    fix i
    assume "i < length (map (fst \<circ> snd) xs)"
    then have "i < length refs" using l by simp
    from e[OF this] obtain f where "lk (cr_Ref (refs ! i)) = Ok f" "xs ! i = (fst (xs ! i), f_ID f, cr_Config (refs ! i))"
      by blast
    with k \<open>i < length refs\<close> l show "map (fst \<circ> snd) xs ! i = map cr_Ref refs ! i"
      by (auto simp: keyedLookup_def) (metis fst_conv snd_conv)
  qed (simp add: l)
  show "\<forall>i < length refs. \<exists>f. lk (cr_Ref (refs ! i)) = Ok f \<and> f_Build f ctx (cr_Config (refs ! i)) = Ok (fst (xs ! i))"
    using e by blast
qed

lemma buildOne_Ok:
  assumes "buildOne lk ctx slot kind ref cfg = Ok x" "keyedLookup lk"
  shows "fst (snd x) = ref \<and> snd (snd x) = cfg"
  using assms by (cases x) (auto simp: buildOne_def buildRef_Ok keyedLookup_def)

lemma buildOpt_Ok:
  assumes "buildOpt lk ctx slot ref = Ok x" "keyedLookup lk"
  shows "(x = None \<longleftrightarrow> ref = None) \<and> (ref \<noteq> None \<longrightarrow> optID x = fst (the ref) \<and> optCfg x = snd (the ref))"
  using assms by (auto simp: buildOpt_def optID_def optCfg_def buildOne_def buildRef_def keyedLookup_def split: option.splits)

section \<open>resolve\<close>

text \<open>The slots of \<^verbatim>\<open>resolved\<close> mirror the spec.\<close>

definition mirrors :: "AgentSpec \<Rightarrow> 'h resolved \<Rightarrow> bool" where
  "mirrors s res \<longleftrightarrow>
     re_providerID res = cr_Ref (s_Provider s) \<and> re_providerCfg res = cr_Config (s_Provider s) \<and>
     (\<exists>sys. pb_System (s_Prompt s) = Some sys \<and> re_promptID res = cr_Ref sys) \<and>
     re_toolPackIDs res = map cr_Ref (elems (s_Tools s)) \<and> re_toolPackCfgs res = map cr_Config (elems (s_Tools s)) \<and>
     length (re_toolPacks res) = length (elems (s_Tools s)) \<and>
     re_policyHookIDs res = map cr_Ref (elems (s_Policies s)) \<and> re_policyHookCfgs res = map cr_Config (elems (s_Policies s)) \<and>
     length (re_policyHooks res) = length (elems (s_Policies s)) \<and>
     re_preLLMIDs res = map cr_Ref (elems (fb_PreLLM (s_Filters s))) \<and>
     re_preLLMCfgs res = map cr_Config (elems (fb_PreLLM (s_Filters s))) \<and>
     length (re_preLLMFilters res) = length (elems (fb_PreLLM (s_Filters s))) \<and>
     re_preToolIDs res = map cr_Ref (elems (fb_PreTool (s_Filters s))) \<and>
     re_preToolCfgs res = map cr_Config (elems (fb_PreTool (s_Filters s))) \<and>
     length (re_preToolFilters res) = length (elems (fb_PreTool (s_Filters s))) \<and>
     re_postToolIDs res = map cr_Ref (elems (fb_PostTool (s_Filters s))) \<and>
     re_postToolCfgs res = map cr_Config (elems (fb_PostTool (s_Filters s))) \<and>
     length (re_postToolFilters res) = length (elems (fb_PostTool (s_Filters s))) \<and>
     (re_budget res = None \<longleftrightarrow> s_Budget s = None) \<and> (\<forall>b. s_Budget s = Some b \<longrightarrow> re_budgetID res = br_Ref b) \<and>
     (re_telemetry res = None \<longleftrightarrow> s_Telemetry s = None) \<and>
     (\<forall>c. s_Telemetry s = Some c \<longrightarrow> re_telemetryID res = cr_Ref c)"

lemma resolve_mirrors:
  assumes "resolve ctx s r = Ok res" "registry_wf r"
  shows "mirrors s res"
proof -
  note k = keyed_lookups[OF assms(2)]
  from assms(1) obtain prov sys prompt tools policies preLLM preTool postTool budget telemetry cred ident where
    0: "buildOne (LookupProvider r) ctx ''provider'' ''provider'' (cr_Ref (s_Provider s)) (cr_Config (s_Provider s)) = Ok prov"
    and 1: "pb_System (s_Prompt s) = Some sys"
    and 2: "buildOne (LookupPromptAsset r) ctx ''prompt.system'' ''prompt'' (cr_Ref sys) (cr_Config sys) = Ok prompt"
    and 3: "buildRefs (LookupToolPack r) ctx ''tools'' (elems (s_Tools s)) = Ok tools"
    and 4: "buildRefs (LookupPolicyPack r) ctx ''policies'' (elems (s_Policies s)) = Ok policies"
    and 5: "buildRefs (LookupPreLLMFilter r) ctx ''filters.preLLM'' (elems (fb_PreLLM (s_Filters s))) = Ok preLLM"
    and 6: "buildRefs (LookupPreToolFilter r) ctx ''filters.preTool'' (elems (fb_PreTool (s_Filters s))) = Ok preTool"
    and 7: "buildRefs (LookupPostToolFilter r) ctx ''filters.postTool'' (elems (fb_PostTool (s_Filters s))) = Ok postTool"
    and 8: "buildOpt (LookupBudgetProfile r) ctx ''budget'' (map_option (\<lambda>b. (br_Ref b, None)) (s_Budget s)) = Ok budget"
    and 9: "buildOpt (LookupTelemetryProfile r) ctx ''telemetry'' (refCfg (s_Telemetry s)) = Ok telemetry"
    and res: "re_providerID res = fst (snd prov)" "re_providerCfg res = snd (snd prov)" "re_promptID res = fst (snd prompt)"
      "re_toolPacks res = map fst tools" "re_toolPackIDs res = map (fst \<circ> snd) tools" "re_toolPackCfgs res = map (snd \<circ> snd) tools"
      "re_policyHooks res = map (pp_Hook \<circ> fst) policies" "re_policyHookIDs res = map (fst \<circ> snd) policies"
      "re_policyHookCfgs res = map (snd \<circ> snd) policies"
      "re_preLLMFilters res = map fst preLLM" "re_preLLMIDs res = map (fst \<circ> snd) preLLM" "re_preLLMCfgs res = map (snd \<circ> snd) preLLM"
      "re_preToolFilters res = map fst preTool" "re_preToolIDs res = map (fst \<circ> snd) preTool" "re_preToolCfgs res = map (snd \<circ> snd) preTool"
      "re_postToolFilters res = map fst postTool" "re_postToolIDs res = map (fst \<circ> snd) postTool" "re_postToolCfgs res = map (snd \<circ> snd) postTool"
      "re_budget res = map_option fst budget" "re_budgetID res = optID budget"
      "re_telemetry res = map_option fst telemetry" "re_telemetryID res = optID telemetry"
    by (auto simp: resolve_def split: option.splits)
  note lists = buildRefs_Ok[OF 3] buildRefs_Ok[OF 4] buildRefs_Ok[OF 5] buildRefs_Ok[OF 6] buildRefs_Ok[OF 7]
  show ?thesis
    unfolding mirrors_def
    using buildOne_Ok[OF 0 k(1)] 1 buildOne_Ok[OF 2 k(2)] buildOpt_Ok[OF 8 k(8)] buildOpt_Ok[OF 9 k(9)] lists k
    by (simp add: res refCfg_def)
qed

section \<open>No panics\<close>

text \<open>Registered factories that return a value or an error, never a panic.\<close>

definition safeTable :: "'v table \<Rightarrow> bool" where
  "safeTable t \<longleftrightarrow> (\<forall>cid f ctx cfg. t cid = Some f \<longrightarrow> noPanic (f_Build f ctx cfg))"

definition registry_safe :: "'h ComponentRegistry \<Rightarrow> bool" where
  "registry_safe r \<longleftrightarrow> safeTable (providers r) \<and> safeTable (promptAssets r) \<and> safeTable (toolPacks r) \<and>
     safeTable (policyPacks r) \<and> safeTable (preLLMFilters r) \<and> safeTable (preToolFilters r) \<and>
     safeTable (postToolFilters r) \<and> safeTable (budgetProfiles r) \<and> safeTable (telemetryProfiles r) \<and>
     safeTable (credResolvers r) \<and> safeTable (identitySigners r) \<and> safeTable (skills r) \<and>
     safeTable (outputContracts r) \<and> safeTable (mcpBindings r)"

definition safeLookup :: "(string \<Rightarrow> 'v Factory result) \<Rightarrow> bool" where
  "safeLookup lk \<longleftrightarrow> (\<forall>ref. noPanic (lk ref)) \<and> (\<forall>ref f ctx cfg. lk ref = Ok f \<longrightarrow> noPanic (f_Build f ctx cfg))"

lemma safe_lookups:
  assumes "registry_safe r"
  shows "safeLookup (LookupProvider r)" "safeLookup (LookupPromptAsset r)" "safeLookup (LookupToolPack r)"
    "safeLookup (LookupPolicyPack r)" "safeLookup (LookupPreLLMFilter r)" "safeLookup (LookupPreToolFilter r)"
    "safeLookup (LookupPostToolFilter r)" "safeLookup (LookupBudgetProfile r)"
    "safeLookup (LookupTelemetryProfile r)" "safeLookup (LookupCredentialResolver r)"
    "safeLookup (LookupIdentitySigner r)" "safeLookup (LookupSkill r)" "safeLookup (LookupOutputContract r)"
    "safeLookup (LookupMCPBinding r)"
  using assms
  by (auto simp: safeLookup_def registry_safe_def safeTable_def lookup_defs split: option.splits)

lemma build_noPanic:
  assumes "safeLookup lk"
  shows "noPanic (buildRef lk ctx rE bE ref cfg)" "noPanic (buildOne lk ctx slot kind ref cfg)"
    "noPanic (buildRefs lk ctx slot refs)" "noPanic (buildOpt lk ctx slot o1)"
proof -
  show r: "noPanic (buildRef lk ctx rE bE ref cfg)" for rE bE ref cfg
    using assms by (auto simp: buildRef_def safeLookup_def intro!: noPanic_bindR)
  then show "noPanic (buildOne lk ctx slot kind ref cfg)" by (simp add: buildOne_def)
  show "noPanic (buildRefs lk ctx slot refs)" by (simp add: buildRefs_def loopR_noPanic r)
  show "noPanic (buildOpt lk ctx slot o1)"
    by (auto simp: buildOpt_def buildOne_def r intro!: noPanic_bindR split: option.split)
qed

lemma resolve_safe_noPanic:
  assumes "registry_safe r" "pb_System (s_Prompt s) \<noteq> None"
  shows "noPanic (resolve ctx s r)"
  using assms(2) unfolding resolve_def
  by (auto intro!: noPanic_bindR build_noPanic safe_lookups[OF assms(1)])

lemma CanonicalConfigsEqual_noPanic: "noPanic (CanonicalConfigsEqual mo a b)"
  by (simp add: CanonicalConfigsEqual_def canonicalizeConfig_eq toJSON_noPanic)

lemma findExisting_noPanic: "noPanic (findExisting mo k sk rc want refs)"
  by (induction refs) (auto simp: CanonicalConfigsEqual_noPanic intro!: noPanic_bindR)

lemma injectRequired_noPanic: "noPanic (injectRequired mo k sk rc st)"
  by (auto simp: injectRequired_def findExisting_noPanic intro!: noPanic_bindR)

lemma injectOutputContract_noPanic: "noPanic (injectOutputContract mo sk rc st)"
  by (auto simp: injectOutputContract_def Let_def CanonicalConfigsEqual_noPanic intro!: noPanic_bindR split: option.split)

lemma expandOne_noPanic:
  assumes "registry_safe r"
  shows "noPanic (expandOne mo ctx r i ref st)"
proof -
  have "noPanic (LookupSkill r ref)" "LookupSkill r ref = Ok f \<Longrightarrow> noPanic (f_Build f ctx cfg)" for ref f ctx cfg
    using safe_lookups(12)[OF assms] by (auto simp: safeLookup_def)
  then show ?thesis
    by (auto simp: expandOne_def Let_def injectTools_def injectPolicies_def injectContract_def
        injectRequired_noPanic injectOutputContract_noPanic intro!: noPanic_bindR foldR_noPanic split: option.split)
qed

lemma expandSkills_noPanic: "registry_safe r \<Longrightarrow> noPanic (expandSkills mo ctx s r)"
  by (auto simp: expandSkills_def expandOne_noPanic intro!: noPanic_bindR foldR_noPanic)

lemma resolveOutputContract_noPanic:
  assumes "registry_safe r"
  shows "noPanic (resolveOutputContract ctx es r)"
  using safe_lookups(13)[OF assms]
  by (auto simp: resolveOutputContract_def safeLookup_def intro!: noPanic_bindR split: option.split)

lemma resolveMCPBindings_noPanic:
  assumes "registry_safe r"
  shows "noPanic (resolveMCPBindings ctx s r)"
  using safe_lookups(4,10,14)[OF assms]
  by (auto simp: resolveMCPBindings_def resolveMCPBinding_def safeLookup_def
      intro!: noPanic_bindR loopR_noPanic split: option.split)

lemma listEntries_eq:
  assumes "length cfgs = length ids" "\<And>i. i < length ids \<Longrightarrow> desc i = Ok (ds i)"
  shows "listEntries kind ids cfgs desc ij =
    Ok (map (\<lambda>i. entry kind (ids ! i) (cfgs ! i) (ds i) (ij (ids ! i))) [0..<length ids])"
  unfolding listEntries_def loopR_Ok_iff using assms by (auto simp: idx_def)

text \<open>The slices the manifest indexes are aligned.\<close>

definition aligned :: "'h resolved \<Rightarrow> bool" where
  "aligned res \<longleftrightarrow> length (re_toolPackCfgs res) = length (re_toolPackIDs res) \<and>
     length (re_policyHookCfgs res) = length (re_policyHookIDs res) \<and>
     length (re_preLLMCfgs res) = length (re_preLLMIDs res) \<and>
     length (re_preToolCfgs res) = length (re_preToolIDs res) \<and>
     length (re_postToolCfgs res) = length (re_postToolIDs res) \<and>
     length (re_skillCfgs res) = length (re_skillIDs res) \<and> length (re_skills res) = length (re_skillIDs res) \<and>
     length (re_mcpBindingCfgs res) = length (re_mcpBindingIDs res) \<and>
     length (re_mcpBindings res) = length (re_mcpBindingIDs res)"

lemma resolve_aligned: "resolve ctx s r = Ok res \<Longrightarrow> aligned res"
  by (auto simp: resolve_def aligned_def split: option.splits)

lemma stamps_aligned [forge_inv]:
  "aligned res \<Longrightarrow> aligned (stampExpansion es res)" "aligned res \<Longrightarrow> aligned (stampMCP bs res)"
  "aligned res \<Longrightarrow> aligned (res\<lparr>re_systemPrompt := p\<rparr>)"
  by (auto simp: aligned_def stampExpansion_def stampMCP_def Let_def split: option.splits)

lemma buildManifest_isOk: "aligned res \<Longrightarrow> isOk (buildManifest mo now s res ns m es)"
  by (auto simp: aligned_def buildManifest_def idx_def isOk_iff
      listEntries_eq[where ds = "\<lambda>_. NoDescriptors"]
      listEntries_eq[where ds = "\<lambda>i. SkillDesc (sk_Descriptor (re_skills res ! i))"]
      listEntries_eq[where ds = "\<lambda>i. BindingDesc (mb_Descriptor (re_mcpBindings res ! i))"])

lemma toolOptions_noPanic: "noPanic (toolOptions res)"
  by (auto simp: toolOptions_def newToolRouter_def routePacks_noPanic intro!: noPanic_bindR)

lemma budgetOptions_noPanic: "noPanic (budgetOptions res)"
  by (auto simp: budgetOptions_def applyBudgetOverrides_noPanic intro!: noPanic_bindR split: option.split)

lemma expandSkills_prompt: "expandSkills mo ctx s r = Ok es \<Longrightarrow> s_Prompt (ex_Spec es) = s_Prompt s"
  by (auto simp: expandSkills_def finishExpand_def)

lemma resolveOutputContract_spec: "resolveOutputContract ctx es r = Ok es' \<Longrightarrow> ex_Spec es' = ex_Spec es \<and>
   ex_Skills es' = ex_Skills es \<and> ex_InjectedBy es' = ex_InjectedBy es"
  by (auto simp: resolveOutputContract_def split: option.splits)

lemma isOk_noPanic: "isOk r \<Longrightarrow> noPanic r"
  by (cases r) simp_all

lemma materialize_noPanic:
  assumes "aligned res" "\<And>p opts. noPanic (orchNew p opts)"
  shows "noPanic (materialize mo orchNew now ns m es res)"
  using assms(2) isOk_noPanic[OF buildManifest_isOk[OF assms(1)]]
  by (auto simp: materialize_def Let_def toolOptions_noPanic budgetOptions_noPanic intro!: noPanic_bindR split: prod.split)

lemma stamp_prompt [simp]: "re_systemPrompt (stampMCP binds (stampExpansion es res)) = re_systemPrompt res"
  by (simp add: stampMCP_def stampExpansion_def Let_def split: option.split)

lemma buildFrozen_Ok:
  assumes "buildFrozen mo orchNew now ctx ns m r = Ok ba"
  obtains es es' res binds res' where "expandSkills mo ctx (ns_Spec ns) r = Ok es"
    "resolveOutputContract ctx es r = Ok es'" "resolve ctx (ex_Spec es') r = Ok res"
    "resolveMCPBindings ctx (ex_Spec es') r = Ok binds"
    "res' = (stampMCP binds (stampExpansion es' res))\<lparr>re_systemPrompt :=
        appendSkillFragments (re_systemPrompt res) (ex_Skills es')\<rparr>"
    "materialize mo orchNew now ns m es' res' = Ok ba"
  using assms that by (auto simp: buildFrozen_def Let_def)

lemma buildFrozen_noPanic:
  assumes "registry_safe r" "pb_System (s_Prompt (ns_Spec ns)) \<noteq> None" "\<And>p opts. noPanic (orchNew p opts)"
  shows "noPanic (buildFrozen mo orchNew now ctx ns m r)"
  unfolding buildFrozen_def Let_def
proof (intro noPanic_bindR expandSkills_noPanic[OF assms(1)] resolveOutputContract_noPanic[OF assms(1)]
    resolveMCPBindings_noPanic[OF assms(1)] materialize_noPanic assms(3) stamps_aligned resolve_safe_noPanic[OF assms(1)])
  fix es es'
  assume "expandSkills mo ctx (ns_Spec ns) r = Ok es" "resolveOutputContract ctx es r = Ok es'"
  then show "pb_System (s_Prompt (ex_Spec es')) \<noteq> None"
    using assms(2) by (simp add: expandSkills_prompt resolveOutputContract_spec)
qed (rule resolve_aligned)

section \<open>System prompt\<close>

text \<open>Fragments in order of first occurrence.\<close>

fun firsts :: "string list \<Rightarrow> string list \<Rightarrow> string list" where
  "firsts seen [] = []"
| "firsts seen (x # xs) = (if x \<in> set seen then firsts seen xs else x # firsts (x # seen) xs)"

lemma firsts_set: "set (firsts seen xs) = set xs - set seen"
  by (induction seen xs rule: firsts.induct) auto

lemma firsts_distinct: "distinct (firsts seen xs)"
  by (induction seen xs rule: firsts.induct) (auto simp: firsts_set)

definition fragments :: "ResolvedSkill list \<Rightarrow> string list" where
  "fragments sks = filter (\<lambda>f. f \<noteq> []) (map (\<lambda>rs. sk_PromptFragment (rs_Value rs)) sks)"

definition blankLine :: string where
  "blankLine = [char_of (10::nat), char_of (10::nat)]"

lemma join_Cons2: "x \<noteq> [] \<Longrightarrow> join ([x @ sep @ y] @ ys) sep = join ([x] @ y # ys) sep"
  by (cases ys) simp_all

lemma appendFragments_join:
  "appendFragments seen out sks =
     join ((if out = [] then [] else [out]) @ firsts seen (fragments sks)) blankLine"
proof (induction seen out sks rule: appendFragments.induct)
  case (2 seen out rs rest)
  let ?f = "sk_PromptFragment (rs_Value rs)"
  consider "?f = []" | "?f \<noteq> []" "?f \<in> set seen" | "?f \<noteq> []" "?f \<notin> set seen" by blast
  then show ?case
  proof cases
    case 3
    with 2(3) show ?thesis
      by (cases "firsts (?f # seen) (fragments rest)") (auto simp: fragments_def blankLine_def Let_def)
  qed (use 2 in \<open>auto simp: fragments_def\<close>)
qed (simp add: fragments_def)

section \<open>Manifest\<close>

lemma entry_kind [simp]: "rcp_Kind (entry k cid cfg d ij) = k" "rcp_ID (entry k cid cfg d ij) = cid"
  "rcp_Config (entry k cid cfg d ij) = cfg" "rcp_InjectedBySkill (entry k cid cfg d ij) = ij"
  by (simp_all add: entry_def)

lemma buildManifest_header:
  assumes "buildManifest mo now s res ns m es = Ok mf"
  shows "mf_SpecID mf = md_ID (s_Metadata s)" "mf_SpecVersion mf = md_Version (s_Metadata s)"
    "mf_NormalizedHash mf = okOr [] (fst (NormalizedHash mo (ns_Spec ns) m))"
    "mf_ExpandedHash mf = (if elems (s_Skills s) \<noteq> [] then okOr [] (computeExpandedHash mo es) else [])"
    "mf_Capabilities mf = computeCapabilities s res es"
    "mf_ExtendsChain mf = elems (ns_ExtendsChain ns)" "mf_Overlays mf = elems (ns_Overlays ns)"
  using assms by (auto simp: buildManifest_def)

section \<open>Capabilities\<close>

definition allKinds :: "string list" where
  "allKinds = [KindProvider, KindPromptAsset, KindToolPack, KindPolicyPack, KindPreLLMFilter, KindPreToolFilter,
     KindPostToolFilter, KindBudgetProfile, KindTelemetryProfile, KindCredentialResolver, KindIdentitySigner,
     KindSkill, KindOutputContract, KindMCPBinding]"

lemma allKinds_distinct: "distinct allKinds"
  by (simp add: allKinds_def kind_defs)

lemma distinct_snd_filter: "distinct (map snd zs) \<Longrightarrow> distinct (map snd (filter P zs))"
  by (induction zs) auto

lemma distinct_map_filter2:
  assumes "distinct (a @ map snd xs @ map snd ys)"
  shows "distinct (a @ map snd (filter P xs) @ map snd (filter Q ys))"
  using assms by (auto simp: distinct_snd_filter)

lemma capabilities_present:
  "sorted (cap_Present (computeCapabilities s res es))" "distinct (cap_Present (computeCapabilities s res es))"
proof -
  have "distinct ([KindProvider, KindPromptAsset] @ map snd (listKinds res) @ map snd (optionalKinds s es))"
    using allKinds_distinct by (simp add: allKinds_def listKinds_def optionalKinds_def)
  from distinct_map_filter2[OF this, of fst fst]
  show "distinct (cap_Present (computeCapabilities s res es))"
    unfolding computeCapabilities_def Let_def by (simp only: Capabilities.simps distinct_sort)
qed (simp only: computeCapabilities_def Let_def Capabilities.simps sorted_sort)

lemma capabilities_partition:
  "set (map ck_Kind (cap_Skipped (computeCapabilities s res es))) \<inter> set (cap_Present (computeCapabilities s res es)) = {}"
  "set (map snd (optionalKinds s es)) \<subseteq>
     set (map ck_Kind (cap_Skipped (computeCapabilities s res es))) \<union> set (cap_Present (computeCapabilities s res es))"
proof -
  have "distinct ([KindProvider, KindPromptAsset] @ map snd (listKinds res) @ map snd (optionalKinds s es))"
    using allKinds_distinct by (simp add: allKinds_def listKinds_def optionalKinds_def)
  then have d: "distinct (map snd (optionalKinds s es))"
    "snd k \<notin> set ([KindProvider, KindPromptAsset] @ map snd (listKinds res))" if "k \<in> set (optionalKinds s es)" for k
    using that by (auto, metis imageI, metis imageI)
  then have "k = k'" if "k \<in> set (optionalKinds s es)" "k' \<in> set (optionalKinds s es)" "snd k = snd k'" for k k'
    using that by (metis distinct_map inj_on_def)
  note uniq = this
  have skipped: "\<exists>k \<in> set (optionalKinds s es). \<not> fst k \<and> x = snd k"
    if "x \<in> set (map ck_Kind (cap_Skipped (computeCapabilities s res es)))" for x
    using that by (auto simp: computeCapabilities_def Let_def skip_def)
  have present: "x \<in> set ([KindProvider, KindPromptAsset] @ map snd (listKinds res)) \<or>
      (\<exists>k \<in> set (optionalKinds s es). fst k \<and> x = snd k)"
    if "x \<in> set (cap_Present (computeCapabilities s res es))" for x
    using that by (auto simp: computeCapabilities_def Let_def set_insort_key)
  show "set (map ck_Kind (cap_Skipped (computeCapabilities s res es))) \<inter>
      set (cap_Present (computeCapabilities s res es)) = {}"
    using skipped present d(2) uniq by (metis disjoint_iff)
qed (auto simp: computeCapabilities_def Let_def skip_def image_iff set_insort_key)

section \<open>A build by hand\<close>

definition oneTool :: "string \<Rightarrow> nat \<Rightarrow> nat ToolPack" where
  "oneTool n h = \<lparr>tp_Invoker = h, tp_Definitions = [\<lparr>td_Name = n, td_Description = [], td_InputSchema = []\<rparr>], tp_Descriptors = []\<rparr>"

definition fullRegistry :: "nat ComponentRegistry" where
  "fullRegistry = skillRegistry\<lparr>
     providers := [''provider.fake@1.0.0'' \<mapsto> constFactory ''provider.fake@1.0.0'' 1],
     promptAssets := [''prompt.sys@1.0.0'' \<mapsto> constFactory ''prompt.sys@1.0.0'' ''be kind''],
     toolPacks := [''toolpack.http-get@1.0.0'' \<mapsto> constFactory ''toolpack.http-get@1.0.0'' (oneTool ''get'' 2),
                   ''toolpack.x@1.0.0'' \<mapsto> constFactory ''toolpack.x@1.0.0'' (oneTool ''x'' 3)]\<rparr>"

definition skillNS :: NormalizedSpec where
  "skillNS = sampleNormalized\<lparr>ns_Spec := skillSpec\<rparr>"

definition fakeNew :: "nat \<Rightarrow> nat orchOption list \<Rightarrow> nat result" where
  "fakeNew p opts = Ok (length opts)"

lemma fullRegistry_wf: "registry_wf fullRegistry" "registry_safe fullRegistry"
  by (auto simp: registry_wf_def registry_safe_def safeTable_def fullRegistry_def skillRegistry_def
      NewComponentRegistry_def keyed_def constFactory_def split: if_splits)

lemma fullRegistry_expands: "expandSkills (\<lambda>_. None) background skillSpec fullRegistry = Ok expandedSample"
proof -
  have "LookupSkill fullRegistry = LookupSkill skillRegistry"
    by (simp add: fun_eq_iff LookupSkill_def fullRegistry_def)
  then have "expandOne (\<lambda>_. None) background fullRegistry = expandOne (\<lambda>_. None) background skillRegistry"
    by (simp add: fun_eq_iff expandOne_def)
  then show ?thesis using sample_expands by (simp add: expandSkills_def)
qed

lemma expandedSample_spec:
  "s_OutputContract (ex_Spec expandedSample) = None" "s_MCPImports (ex_Spec expandedSample) = None"
  by (simp_all add: expandedSample_def skillSpec_def sampleSpec_def zeroAgentSpec_def)

lemma fullRegistry_builds:
  assumes "ns_Spec ns = skillSpec"
  shows "\<exists>ba. buildFrozen (\<lambda>_. None) fakeNew now background ns freshMemos fullRegistry = Ok ba"
proof -
  have exp: "resolveOutputContract background expandedSample fullRegistry = Ok expandedSample"
    by (simp add: resolveOutputContract_def expandedSample_spec)
  obtain res where res: "resolve background (ex_Spec expandedSample) fullRegistry = Ok res"
    and packs: "re_toolPacks res = [oneTool ''get'' 2, oneTool ''x'' 3]" "re_budget res = None"
    by (simp add: resolve_def buildOne_def buildRefs_def buildRef_def buildOpt_def refCfg_def expandedSample_def
        skillSpec_def sampleSpec_def zeroAgentSpec_def fullRegistry_def constFactory_def lookup_defs)
  let ?res = "(stampMCP [] (stampExpansion expandedSample res))\<lparr>re_systemPrompt :=
    appendSkillFragments (re_systemPrompt res) (ex_Skills expandedSample)\<rparr>"
  have p: "re_toolPacks ?res = re_toolPacks res" "re_budget ?res = re_budget res"
    by (simp_all add: stampMCP_def stampExpansion_def Let_def split: option.split)
  have "newToolRouter (re_toolPacks ?res) = Ok (\<lparr>byName = map_of (packNames (re_toolPacks ?res))\<rparr>,
      concat (map tp_Definitions (re_toolPacks ?res)))"
    unfolding newToolRouter_Ok p packs by (simp add: packNames_def oneTool_def mcpPrefix_def)
  moreover obtain mf where "buildManifest (\<lambda>_. None) now (ns_Spec ns) ?res ns freshMemos expandedSample = Ok mf"
    using buildManifest_isOk[OF stamps_aligned(3)[OF stamps_aligned(2)[OF stamps_aligned(1)[OF resolve_aligned[OF res]]]]]
    unfolding isOk_iff by blast
  ultimately have "\<exists>ba. materialize (\<lambda>_. None) fakeNew now ns freshMemos expandedSample ?res = Ok ba"
    using p packs by (simp add: materialize_def toolOptions_def budgetOptions_def fakeNew_def)
  moreover have "resolveMCPBindings background (ex_Spec expandedSample) fullRegistry = Ok []"
    by (simp add: resolveMCPBindings_def expandedSample_spec)
  ultimately show ?thesis
    using fullRegistry_expands exp res by (simp add: buildFrozen_def assms Let_def)
qed

section \<open>Properties\<close>

text \<open>Building never panics: with factories and an orchestrator constructor that return
  values or errors, and a normalized spec that names a system prompt (as validation
  requires), \<^verbatim>\<open>Build\<close> returns an agent or an error. In particular the manifest never
  indexes past the end of the resolver's parallel slices.\<close>

theorem Build_never_panics:
  assumes "registry_safe r" and "valid_spec (ns_Spec ns)" and "\<And>p opts. noPanic (orchNew p opts)"
  shows "noPanic (fst (Build mo orchNew now ctx ns m (Some r)))"
proof -
  have "pb_System (s_Prompt (ns_Spec ns)) \<noteq> None"
    using assms(2) by (auto simp: valid_spec_def valid_refs_def prompt_ok_def split: option.splits)
  moreover have "registry_safe (Freeze r)" using assms(1) by (simp add: registry_safe_def Freeze_def)
  ultimately have "noPanic (buildFrozen mo orchNew now ctx ns m (Freeze r))" using assms(3) by (intro buildFrozen_noPanic)
  then show ?thesis by (simp add: Build_def Let_def)
qed

theorem Build_never_panics_witness:
  "noPanic (fst (Build (\<lambda>_. None) fakeNew 0 background sampleNormalized freshMemos (Some fullRegistry)))"
proof (rule Build_never_panics[OF fullRegistry_wf(2)])
  show "valid_spec (ns_Spec sampleNormalized)" using sample_result_valid by (simp only: Validate_None_iff)
qed (simp add: fakeNew_def)

text \<open>The capability summary is complete and free of contradictions: the kinds present are
  sorted without repetition, a skipped kind is never present, and every optional kind is
  either present or skipped.\<close>

theorem capabilities_complete:
  "sorted (cap_Present (computeCapabilities s res es)) \<and> distinct (cap_Present (computeCapabilities s res es)) \<and>
   set (map ck_Kind (cap_Skipped (computeCapabilities s res es))) \<inter> set (cap_Present (computeCapabilities s res es)) = {} \<and>
   {KindBudgetProfile, KindTelemetryProfile, KindCredentialResolver, KindIdentitySigner, KindSkill, KindOutputContract, KindMCPBinding}
     \<subseteq> set (map ck_Kind (cap_Skipped (computeCapabilities s res es))) \<union> set (cap_Present (computeCapabilities s res es))"
proof -
  have "set (map snd (optionalKinds s es)) = {KindBudgetProfile, KindTelemetryProfile, KindCredentialResolver,
      KindIdentitySigner, KindSkill, KindOutputContract, KindMCPBinding}"
    by (simp add: optionalKinds_def)
  with capabilities_partition[where s = s and res = res and es = es]
    capabilities_present[where s = s and res = res and es = es] show ?thesis by metis
qed

text \<open>The system prompt is the base prompt followed by the skills' non-empty fragments in
  order of first occurrence, each once, separated by blank lines.\<close>

theorem system_prompt_fragments:
  "appendSkillFragments base sks = join ((if base = [] then [] else [base]) @ firsts [] (fragments sks)) blankLine \<and>
   distinct (firsts [] (fragments sks)) \<and> set (firsts [] (fragments sks)) = set (fragments sks)"
  by (simp add: appendSkillFragments_def appendFragments_join firsts_distinct firsts_set)

text \<open>Accepted budget overrides have no effect on the orchestrator: whatever they ask for,
  the guard handed over is the one the profile was built with.\<close>

theorem budget_overrides_not_applied:
  assumes "re_budget res = Some bp"
    and "applyBudgetOverrides (bp_DefaultConfig bp) ov = Ok c" and "applyBudgetOverrides (bp_DefaultConfig bp) ov' = Ok c'"
  shows "budgetOptions (res\<lparr>re_budgetOverrides := ov\<rparr>) = budgetOptions (res\<lparr>re_budgetOverrides := ov'\<rparr>)"
  using assms by (simp add: budgetOptions_def)

definition sampleProfile :: "nat BudgetProfile" where
  "sampleProfile = \<lparr>bp_Guard = 9, bp_DefaultConfig = flatConfig 100\<rparr>"

theorem budget_overrides_not_applied_witness:
  "\<exists>res :: nat resolved. budgetOptions (res\<lparr>re_budget := Some sampleProfile, re_budgetOverrides := callOverride 3\<rparr>) =
     budgetOptions (res\<lparr>re_budget := Some sampleProfile, re_budgetOverrides := callOverride 5\<rparr>)"
proof -
  have ok: "\<exists>c. applyBudgetOverrides (bp_DefaultConfig sampleProfile) (callOverride n) = Ok c" if "n = 3 \<or> n = 5" for n
    using that by (auto simp: applyBudgetOverrides_def wallClock_def tightenInt64_def callOverride_def flatConfig_def
        sampleProfile_def Let_def)
  obtain c c' where "applyBudgetOverrides (bp_DefaultConfig sampleProfile) (callOverride 3) = Ok c"
    "applyBudgetOverrides (bp_DefaultConfig sampleProfile) (callOverride 5) = Ok c'" using ok by blast
  from budget_overrides_not_applied[OF _ this, where res = "x\<lparr>re_budget := Some sampleProfile\<rparr>" for x] show ?thesis by simp
qed

definition nanSpec :: AgentSpec where
  "nanSpec = sampleSpec\<lparr>s_Provider := \<lparr>cr_Ref = ''provider.fake@1.0.0'', cr_Config = Some [(''t'', VFloat64 0x7FF8000000000001)]\<rparr>\<rparr>"

text \<open>Validation does not look into configurations, so a valid spec may hold a value JSON
  cannot represent; its hash then fails, and the manifest, which drops that error, records
  the empty string.\<close>

theorem valid_spec_without_hash:
  "Validate nanSpec = None \<and> (\<exists>e. fst (NormalizedHash mo nanSpec freshMemos) = Err e) \<and>
     okOr [] (fst (NormalizedHash mo nanSpec freshMemos)) = []"
proof -
  have "expBits 0x7FF8000000000001 = 2047" by (simp add: expBits_def)
  then have "floatLit 0x7FF8000000000001 = None" by (simp add: floatLit_def)
  then have "\<exists>e. refTree mo (s_Provider nanSpec) = Err e"
    by (simp add: nanSpec_def refTree_def structTree_def strTree_def omit_def)
  then have "\<exists>e. specTree mo nanSpec = Err e"
    by (auto simp: specTree_def structTree_def strTree_def metadataTree_def omit_def nanSpec_def sampleSpec_def
        zeroAgentSpec_def zeroMetadata_def)
  then have "\<exists>e. fst (NormalizedHash mo nanSpec freshMemos) = Err e"
    by (auto simp: NormalizedHash_spec(1)[OF freshMemos_ok] computeCanonicalJSON_def)
  moreover have "Validate nanSpec = None" by code_simp
  ultimately show ?thesis by (auto simp: okOr_def)
qed

end
