(* ===== verification/BuildManifest.thy ===== *)
theory BuildManifest
  imports BuildProps
begin

text \<open>
  The component list of the manifest (\<^verbatim>\<open>build/manifest.go\<close>, \<^verbatim>\<open>manifest/manifest.go\<close>): a reference
  listing read off the expanded spec, one entry per reference in the order of the kinds, and the
  proof that the listing of every built agent's manifest is that one. It goes through the
  resolver's parallel slices: the manifest lists the slots, and the slots mirror the spec.
\<close>

section \<open>The listing\<close>

text \<open>What an entry says of its component: kind, id, configuration and injecting skill.\<close>

type_synonym listing = "string \<times> string \<times> gomap \<times> string"

definition listing :: "ResolvedComponent \<Rightarrow> listing" where
  "listing c = (rcp_Kind c, rcp_ID c, rcp_Config c, rcp_InjectedBySkill c)"

definition refListing :: "string \<Rightarrow> (string \<Rightarrow> string) \<Rightarrow> ComponentRef list \<Rightarrow> listing list" where
  "refListing kind injector refs = map (\<lambda>e. (kind, cr_Ref e, cr_Config e, injector (cr_Ref e))) refs"

definition optListing :: "string \<Rightarrow> bool \<Rightarrow> (string \<times> gomap) option \<Rightarrow> listing list" where
  "optListing kind present ref = (case ref of None \<Rightarrow> [] | Some (cid, cfg) \<Rightarrow> if present then [(kind, cid, cfg, [])] else [])"

text \<open>
  The listing of an expanded spec. The prompt asset, the budget profile and the credential resolver
  are listed without a configuration. \<open>cred\<close> and \<open>ident\<close> say whether the credential resolver and the
  identity signer were built to something else than nil.
\<close>

definition composition :: "ExpandedSpec \<Rightarrow> bool \<Rightarrow> bool \<Rightarrow> listing list" where
  "composition es cred ident = (let s = ex_Spec es in
     [(KindProvider, cr_Ref (s_Provider s), cr_Config (s_Provider s), [])] @
     (case pb_System (s_Prompt s) of None \<Rightarrow> [] | Some sys \<Rightarrow> [(KindPromptAsset, cr_Ref sys, None, [])]) @
     refListing KindToolPack (lookupInjector es ''tool_pack'') (elems (s_Tools s)) @
     refListing KindPolicyPack (lookupInjector es ''policy_pack'') (elems (s_Policies s)) @
     refListing KindPreLLMFilter (\<lambda>_. []) (elems (fb_PreLLM (s_Filters s))) @
     refListing KindPreToolFilter (\<lambda>_. []) (elems (fb_PreTool (s_Filters s))) @
     refListing KindPostToolFilter (\<lambda>_. []) (elems (fb_PostTool (s_Filters s))) @
     optListing KindBudgetProfile True (map_option (\<lambda>b. (br_Ref b, None)) (s_Budget s)) @
     optListing KindTelemetryProfile True (refCfg (s_Telemetry s)) @
     optListing KindCredentialResolver cred (map_option (\<lambda>c. (cd_Ref c, None)) (s_Credentials s)) @
     optListing KindIdentitySigner ident (refCfg (s_Identity s)) @
     refListing KindSkill (\<lambda>_. []) (elems (s_Skills s)) @
     (case s_OutputContract s of None \<Rightarrow> []
      | Some oc \<Rightarrow> [(KindOutputContract, cr_Ref oc, cr_Config oc, lookupInjector es ''output_contract'' (cr_Ref oc))]) @
     refListing KindMCPBinding (\<lambda>_. []) (elems (s_MCPImports s)))"

definition builtNonNil :: "(string \<Rightarrow> 'v option Factory result) \<Rightarrow> ctx \<Rightarrow> (string \<times> gomap) option \<Rightarrow> bool" where
  "builtNonNil lk ctx ref = (case ref of None \<Rightarrow> False | Some (cid, cfg) \<Rightarrow>
     (case lk cid of Ok f \<Rightarrow> (case f_Build f ctx cfg of Ok (Some _) \<Rightarrow> True | _ \<Rightarrow> False) | _ \<Rightarrow> False))"

section \<open>From the slots to the entries\<close>

definition slotListing :: "string \<Rightarrow> (string \<Rightarrow> string) \<Rightarrow> string list \<Rightarrow> gomap list \<Rightarrow> listing list" where
  "slotListing kind injector ids cfgs = map2 (\<lambda>cid cfg. (kind, cid, cfg, injector cid)) ids cfgs"

lemma slotListing_refs: "slotListing kind injector (map cr_Ref refs) (map cr_Config refs) = refListing kind injector refs"
  by (induction refs) (simp_all add: slotListing_def refListing_def)

lemma listing_entry [simp]: "listing (entry kind cid cfg d injector) = (kind, cid, cfg, injector)"
  by (simp add: listing_def entry_def)

lemma listEntries_listing:
  assumes "listEntries kind ids cfgs desc injector = Ok es" "length cfgs = length ids"
  shows "map listing es = slotListing kind injector ids cfgs"
proof (rule nth_equalityI)
  have e: "length es = length ids" "\<And>i. i < length ids \<Longrightarrow> \<exists>d. es ! i = entry kind (ids ! i) (cfgs ! i) d (injector (ids ! i))"
    using assms by (auto simp: listEntries_def loopR_Ok_iff idx_def split: if_splits) (metis bindR_eq_Ok result.inject(1))
  show "length (map listing es) = length (slotListing kind injector ids cfgs)" by (simp add: e(1) assms(2) slotListing_def)
  fix i
  assume "i < length (map listing es)"
  then have i: "i < length ids" using e(1) by simp
  from e(2)[OF this] obtain d where "es ! i = entry kind (ids ! i) (cfgs ! i) d (injector (ids ! i))" by blast
  then show "map listing es ! i = slotListing kind injector ids cfgs ! i"
    using i e(1) assms(2) by (simp add: slotListing_def)
qed

lemma buildManifest_listing:
  assumes "aligned res" "buildManifest mo now s res ns m es = Ok mf"
  shows "map listing (mf_Resolved mf) =
     [(KindProvider, re_providerID res, re_providerCfg res, []), (KindPromptAsset, re_promptID res, None, [])] @
     slotListing KindToolPack (lookupInjector es ''tool_pack'') (re_toolPackIDs res) (re_toolPackCfgs res) @
     slotListing KindPolicyPack (lookupInjector es ''policy_pack'') (re_policyHookIDs res) (re_policyHookCfgs res) @
     slotListing KindPreLLMFilter (\<lambda>_. []) (re_preLLMIDs res) (re_preLLMCfgs res) @
     slotListing KindPreToolFilter (\<lambda>_. []) (re_preToolIDs res) (re_preToolCfgs res) @
     slotListing KindPostToolFilter (\<lambda>_. []) (re_postToolIDs res) (re_postToolCfgs res) @
     (if re_budget res \<noteq> None then [(KindBudgetProfile, re_budgetID res, re_budgetCfg res, [])] else []) @
     (if re_telemetry res \<noteq> None then [(KindTelemetryProfile, re_telemetryID res, re_telemetryCfg res, [])] else []) @
     (if re_credResolver res \<noteq> None then [(KindCredentialResolver, re_credResolverID res, re_credResolverCfg res, [])] else []) @
     (if re_identity res \<noteq> None then [(KindIdentitySigner, re_identityID res, re_identityCfg res, [])] else []) @
     slotListing KindSkill (\<lambda>_. []) (re_skillIDs res) (re_skillCfgs res) @
     (if re_outputContract res = None then []
      else [(KindOutputContract, re_outputContractID res, re_outputContractCfg res,
        lookupInjector es ''output_contract'' (re_outputContractID res))]) @
     slotListing KindMCPBinding (\<lambda>_. []) (re_mcpBindingIDs res) (re_mcpBindingCfgs res)"
proof -
  from assms(2) obtain tools policies preLLM preTool postTool sks mcp where
    l: "listEntries KindToolPack (re_toolPackIDs res) (re_toolPackCfgs res) noDesc (lookupInjector es ''tool_pack'') = Ok tools"
      "listEntries KindPolicyPack (re_policyHookIDs res) (re_policyHookCfgs res) noDesc (lookupInjector es ''policy_pack'') = Ok policies"
      "listEntries KindPreLLMFilter (re_preLLMIDs res) (re_preLLMCfgs res) noDesc (\<lambda>_. []) = Ok preLLM"
      "listEntries KindPreToolFilter (re_preToolIDs res) (re_preToolCfgs res) noDesc (\<lambda>_. []) = Ok preTool"
      "listEntries KindPostToolFilter (re_postToolIDs res) (re_postToolCfgs res) noDesc (\<lambda>_. []) = Ok postTool"
      "listEntries KindSkill (re_skillIDs res) (re_skillCfgs res)
         (\<lambda>i. bindR (idx (re_skills res) i) (\<lambda>sk. Ok (SkillDesc (sk_Descriptor sk)))) (\<lambda>_. []) = Ok sks"
      "listEntries KindMCPBinding (re_mcpBindingIDs res) (re_mcpBindingCfgs res)
         (\<lambda>i. bindR (idx (re_mcpBindings res) i) (\<lambda>b. Ok (BindingDesc (mb_Descriptor b)))) (\<lambda>_. []) = Ok mcp"
    and mf: "mf_Resolved mf =
           [entry KindProvider (re_providerID res) (re_providerCfg res) NoDescriptors [],
            entry KindPromptAsset (re_promptID res) None NoDescriptors []] @
           tools @ policies @ preLLM @ preTool @ postTool @
           optEntry (re_budget res \<noteq> None) (entry KindBudgetProfile (re_budgetID res) (re_budgetCfg res) NoDescriptors []) @
           optEntry (re_telemetry res \<noteq> None) (entry KindTelemetryProfile (re_telemetryID res) (re_telemetryCfg res) NoDescriptors []) @
           optEntry (re_credResolver res \<noteq> None) (entry KindCredentialResolver (re_credResolverID res) (re_credResolverCfg res) NoDescriptors []) @
           optEntry (re_identity res \<noteq> None) (entry KindIdentitySigner (re_identityID res) (re_identityCfg res) NoDescriptors []) @
           sks @
           (case re_outputContract res of None \<Rightarrow> [] | Some oc \<Rightarrow>
              [entry KindOutputContract (re_outputContractID res) (re_outputContractCfg res) (ContractDesc (oc_Descriptor oc))
                 (lookupInjector es ''output_contract'' (re_outputContractID res))]) @ mcp"
    by (auto simp: buildManifest_def)
  show ?thesis
    using l[THEN listEntries_listing] assms(1)
    by (simp add: mf aligned_def optEntry_def split: option.split)
qed

section \<open>From the spec to the slots\<close>

lemma resolve_optional:
  assumes "resolve ctx s r = Ok res" "registry_wf r"
  shows "(if re_budget res \<noteq> None then [(KindBudgetProfile, re_budgetID res, re_budgetCfg res, [])] else []) =
      optListing KindBudgetProfile True (map_option (\<lambda>b. (br_Ref b, None)) (s_Budget s))"
    "(if re_telemetry res \<noteq> None then [(KindTelemetryProfile, re_telemetryID res, re_telemetryCfg res, [])] else []) =
      optListing KindTelemetryProfile True (refCfg (s_Telemetry s))"
    "(if re_credResolver res \<noteq> None then [(KindCredentialResolver, re_credResolverID res, re_credResolverCfg res, [])] else []) =
      optListing KindCredentialResolver (builtNonNil (LookupCredentialResolver r) ctx (map_option (\<lambda>c. (cd_Ref c, None)) (s_Credentials s)))
        (map_option (\<lambda>c. (cd_Ref c, None)) (s_Credentials s))"
    "(if re_identity res \<noteq> None then [(KindIdentitySigner, re_identityID res, re_identityCfg res, [])] else []) =
      optListing KindIdentitySigner (builtNonNil (LookupIdentitySigner r) ctx (refCfg (s_Identity s))) (refCfg (s_Identity s))"
    "re_skillIDs res = []" "re_outputContract res = None" "re_mcpBindingIDs res = []"
proof -
  note k = keyed_lookups[OF assms(2)]
  from assms(1) obtain budget telemetry cred ident where
    b: "buildOpt (LookupBudgetProfile r) ctx ''budget'' (map_option (\<lambda>b. (br_Ref b, None)) (s_Budget s)) = Ok budget"
      "buildOpt (LookupTelemetryProfile r) ctx ''telemetry'' (refCfg (s_Telemetry s)) = Ok telemetry"
      "buildOpt (LookupCredentialResolver r) ctx ''credentials'' (map_option (\<lambda>c. (cd_Ref c, None)) (s_Credentials s)) = Ok cred"
      "buildOpt (LookupIdentitySigner r) ctx ''identity'' (refCfg (s_Identity s)) = Ok ident"
    and res: "re_budget res = map_option fst budget" "re_budgetID res = optID budget" "re_budgetCfg res = None"
      "re_telemetry res = map_option fst telemetry" "re_telemetryID res = optID telemetry" "re_telemetryCfg res = optCfg telemetry"
      "re_credResolver res = Option.bind cred fst" "re_credResolverID res = optID cred" "re_credResolverCfg res = None"
      "re_identity res = Option.bind ident fst" "re_identityID res = optID ident" "re_identityCfg res = optCfg ident"
      "re_skillIDs res = []" "re_outputContract res = None" "re_mcpBindingIDs res = []"
    by (auto simp: resolve_def split: option.splits)
  have nonnil: "builtNonNil lk ctx ref \<longleftrightarrow> Option.bind x fst \<noteq> None" if "buildOpt lk ctx slot ref = Ok x"
    for x :: "('z option \<times> string \<times> gomap) option" and lk slot ref
    using that by (auto simp: buildOpt_def buildOne_def buildRef_def builtNonNil_def split: option.splits result.splits)
  have opt: "optID x = fst (the ref) \<and> optCfg x = snd (the ref)" if "buildOpt lk ctx slot ref = Ok x" "keyedLookup lk" "ref \<noteq> None"
    for x :: "('z \<times> string \<times> gomap) option" and lk slot ref
    using buildOpt_Ok[OF that(1,2)] that(3) by simp
  show "re_skillIDs res = []" "re_outputContract res = None" "re_mcpBindingIDs res = []" by (rule res)+
  show "(if re_budget res \<noteq> None then [(KindBudgetProfile, re_budgetID res, re_budgetCfg res, [])] else []) =
      optListing KindBudgetProfile True (map_option (\<lambda>b. (br_Ref b, None)) (s_Budget s))"
    using buildOpt_Ok[OF b(1) k(8)] by (auto simp: res optListing_def split: option.split)
  show "(if re_telemetry res \<noteq> None then [(KindTelemetryProfile, re_telemetryID res, re_telemetryCfg res, [])] else []) =
      optListing KindTelemetryProfile True (refCfg (s_Telemetry s))"
    using buildOpt_Ok[OF b(2) k(9)] by (auto simp: res optListing_def refCfg_def split: option.split)
  show "(if re_credResolver res \<noteq> None then [(KindCredentialResolver, re_credResolverID res, re_credResolverCfg res, [])] else []) =
      optListing KindCredentialResolver (builtNonNil (LookupCredentialResolver r) ctx (map_option (\<lambda>c. (cd_Ref c, None)) (s_Credentials s)))
        (map_option (\<lambda>c. (cd_Ref c, None)) (s_Credentials s))"
    using buildOpt_Ok[OF b(3) k(10)] nonnil[OF b(3)] by (auto simp: res optListing_def split: option.split)
  show "(if re_identity res \<noteq> None then [(KindIdentitySigner, re_identityID res, re_identityCfg res, [])] else []) =
      optListing KindIdentitySigner (builtNonNil (LookupIdentitySigner r) ctx (refCfg (s_Identity s))) (refCfg (s_Identity s))"
    using buildOpt_Ok[OF b(4) k(11)] nonnil[OF b(4)] by (auto simp: res optListing_def refCfg_def split: option.split)
qed

lemma expandSkills_listed:
  assumes "expandSkills mo ctx s r = Ok es"
  shows "map rs_ID (ex_Skills es) = map cr_Ref (elems (s_Skills (ex_Spec es)))"
    "map rs_Config (ex_Skills es) = map cr_Config (elems (s_Skills (ex_Spec es)))" "ex_ResolvedOutputContract es = None"
proof -
  from assms obtain st where st: "foldR (expandOne mo ctx r) 0 (elems (s_Skills s)) (initExpand s) = Ok st"
    and es: "es = finishExpand s st" by (auto simp: expandSkills_def)
  have "map rs_Config (es_Skills st') = map rs_Config (es_Skills a) @ [cr_Config ref]" if "expandOne mo ctx r i ref a = Ok st'" for i ref a st'
    using that by (auto simp: expandOne_def Let_def split: if_splits dest!: injectTools_Ok injectPolicies_Ok injectContract_Ok)
  then have "foldR (expandOne mo ctx r) i refs a = Ok b \<Longrightarrow>
      map rs_Config (es_Skills b) = map rs_Config (es_Skills a) @ map cr_Config refs" for i refs a b
    by (induction refs arbitrary: i a) auto
  from this[OF st] foldR_skills[OF st]
  show "map rs_ID (ex_Skills es) = map cr_Ref (elems (s_Skills (ex_Spec es)))"
    "map rs_Config (ex_Skills es) = map cr_Config (elems (s_Skills (ex_Spec es)))" "ex_ResolvedOutputContract es = None"
    by (simp_all add: es finishExpand_def)
qed

lemma resolveOutputContract_listed:
  assumes "resolveOutputContract ctx es r = Ok es'" "ex_ResolvedOutputContract es = None"
  shows "map_option (\<lambda>oc. (ro_ID oc, ro_Config oc)) (ex_ResolvedOutputContract es') = refCfg (s_OutputContract (ex_Spec es'))"
  using assms by (auto simp: resolveOutputContract_def refCfg_def split: option.splits)

lemma resolveMCPBindings_listed:
  assumes "resolveMCPBindings ctx s r = Ok binds"
  shows "map rm_ID binds = map cr_Ref (elems (s_MCPImports s)) \<and> map rm_Config binds = map cr_Config (elems (s_MCPImports s))"
proof -
  have b: "rm_ID b = cr_Ref ref \<and> rm_Config b = cr_Config ref" if "resolveMCPBinding ctx r i ref = Ok b" for i ref b
    using that by (auto simp: resolveMCPBinding_def)
  have "length binds = length (elems (s_MCPImports s))"
    "\<And>j. j < length (elems (s_MCPImports s)) \<Longrightarrow> resolveMCPBinding ctx r j (elems (s_MCPImports s) ! j) = Ok (binds ! j)"
    using assms by (auto simp: resolveMCPBindings_def loopR_Ok_iff)
  then have l: "length binds = length (elems (s_MCPImports s))"
    and n: "\<And>j. j < length (elems (s_MCPImports s)) \<Longrightarrow> rm_ID (binds ! j) = cr_Ref (elems (s_MCPImports s) ! j) \<and>
      rm_Config (binds ! j) = cr_Config (elems (s_MCPImports s) ! j)" using b by blast+
  then show ?thesis by (simp add: list_eq_iff_nth_eq)
qed

lemma manifest_listing:
  assumes "buildFrozen mo orchNew now ctx ns m r = Ok ba" and "registry_wf r"
  shows "\<exists>es. expandSkills mo ctx (ns_Spec ns) r = Ok es \<and> map listing (mf_Resolved (ba_Manifest ba)) =
    composition es
      (builtNonNil (LookupCredentialResolver r) ctx (map_option (\<lambda>c. (cd_Ref c, None)) (s_Credentials (ex_Spec es))))
      (builtNonNil (LookupIdentitySigner r) ctx (refCfg (s_Identity (ex_Spec es))))"
proof -
  from assms(1) obtain es es' res binds res' where e: "expandSkills mo ctx (ns_Spec ns) r = Ok es"
    "resolveOutputContract ctx es r = Ok es'" "resolve ctx (ex_Spec es') r = Ok res" "resolveMCPBindings ctx (ex_Spec es') r = Ok binds"
    and res': "res' = (stampMCP binds (stampExpansion es' res))\<lparr>re_systemPrompt :=
        appendSkillFragments (re_systemPrompt res) (ex_Skills es')\<rparr>"
    and m: "materialize mo orchNew now ns m es' res' = Ok ba" by (rule buildFrozen_Ok)
  from m have mf: "buildManifest mo now (ns_Spec ns) res' ns m es' = Ok (ba_Manifest ba)"
    by (auto simp: materialize_def Let_def)
  have al: "aligned res'" unfolding res' by (intro stamps_aligned resolve_aligned[OF e(3)])
  have same: "ex_Spec es' = ex_Spec es" "ex_Skills es' = ex_Skills es" "lookupInjector es' = lookupInjector es"
    using resolveOutputContract_spec[OF e(2)] by (simp_all add: fun_eq_iff lookupInjector_def)
  have oc: "map_option (\<lambda>oc. (ro_ID oc, ro_Config oc)) (ex_ResolvedOutputContract es') = refCfg (s_OutputContract (ex_Spec es))"
    using resolveOutputContract_listed[OF e(2) expandSkills_listed(3)[OF e(1)]] by (simp add: same)
  have mirror: "mirrors (ex_Spec es) res" using resolve_mirrors[OF e(3) assms(2)] by (simp add: same)
  note opt = resolve_optional[OF e(3)[unfolded same] assms(2)]
  note mcp = resolveMCPBindings_listed[OF e(4)[unfolded same]]
  have slots: "re_mcpBindingIDs res' = map rm_ID binds" "re_mcpBindingCfgs res' = map rm_Config binds"
    "re_skillIDs res' = map rs_ID (ex_Skills es)" "re_skillCfgs res' = map rs_Config (ex_Skills es)"
    "re_outputContract res' = map_option ro_Value (ex_ResolvedOutputContract es')"
    "\<And>x. ex_ResolvedOutputContract es' = Some x \<Longrightarrow> re_outputContractID res' = ro_ID x \<and> re_outputContractCfg res' = ro_Config x"
    "re_providerID res' = re_providerID res" "re_providerCfg res' = re_providerCfg res" "re_promptID res' = re_promptID res"
    "re_toolPackIDs res' = re_toolPackIDs res" "re_toolPackCfgs res' = re_toolPackCfgs res"
    "re_policyHookIDs res' = re_policyHookIDs res" "re_policyHookCfgs res' = re_policyHookCfgs res"
    "re_preLLMIDs res' = re_preLLMIDs res" "re_preLLMCfgs res' = re_preLLMCfgs res"
    "re_preToolIDs res' = re_preToolIDs res" "re_preToolCfgs res' = re_preToolCfgs res"
    "re_postToolIDs res' = re_postToolIDs res" "re_postToolCfgs res' = re_postToolCfgs res"
    "re_budget res' = re_budget res" "re_budgetID res' = re_budgetID res" "re_budgetCfg res' = re_budgetCfg res"
    "re_telemetry res' = re_telemetry res" "re_telemetryID res' = re_telemetryID res" "re_telemetryCfg res' = re_telemetryCfg res"
    "re_credResolver res' = re_credResolver res" "re_credResolverID res' = re_credResolverID res" "re_credResolverCfg res' = re_credResolverCfg res"
    "re_identity res' = re_identity res" "re_identityID res' = re_identityID res" "re_identityCfg res' = re_identityCfg res"
    by (auto simp: res' same stampMCP_def stampExpansion_def Let_def opt(6) split: option.splits)
  have contract: "(if re_outputContract res' = None then []
      else [(KindOutputContract, re_outputContractID res', re_outputContractCfg res',
        lookupInjector es ''output_contract'' (re_outputContractID res'))]) =
    (case s_OutputContract (ex_Spec es) of None \<Rightarrow> []
      | Some oc \<Rightarrow> [(KindOutputContract, cr_Ref oc, cr_Config oc, lookupInjector es ''output_contract'' (cr_Ref oc))])"
    using oc slots(6) by (auto simp: slots(5) refCfg_def split: option.splits)
  have "map listing (mf_Resolved (ba_Manifest ba)) = composition es
      (builtNonNil (LookupCredentialResolver r) ctx (map_option (\<lambda>c. (cd_Ref c, None)) (s_Credentials (ex_Spec es))))
      (builtNonNil (LookupIdentitySigner r) ctx (refCfg (s_Identity (ex_Spec es))))"
    unfolding buildManifest_listing[OF al mf] same contract
    using mirror by (simp only: slots(1-4,7-) opt(1-4) mcp expandSkills_listed(1,2)[OF e(1)])
      (auto simp: composition_def Let_def mirrors_def slotListing_refs)
  with e(1) show ?thesis by blast
qed

section \<open>Property\<close>

text \<open>The sample spec uses a skill and neither credentials nor an identity.\<close>

lemma expandedSample_optional: "s_Credentials (ex_Spec expandedSample) = None" "s_Identity (ex_Spec expandedSample) = None"
  by (simp_all add: expandedSample_def skillSpec_def sampleSpec_def zeroAgentSpec_def)

text \<open>C17. The manifest lists exactly the references of the expanded spec that the builder resolves, in
  order: kind by kind, each under the id the spec names, with the skill that injected it (empty for the
  user's own) and the configuration the spec gives it, except that the prompt asset is listed without
  the configuration it was built with (budget and credentials have none). \<^verbatim>\<open>prompt.user\<close> is never
  resolved and so not listed, and a credential resolver or an identity signer that a factory built to nil is left out.\<close>

theorem Build_manifest_components:
  assumes "buildFrozen mo orchNew now ctx ns m r = Ok ba" and "registry_wf r"
  shows "\<exists>es. expandSkills mo ctx (ns_Spec ns) r = Ok es \<and> map listing (mf_Resolved (ba_Manifest ba)) =
    composition es
      (builtNonNil (LookupCredentialResolver r) ctx (map_option (\<lambda>c. (cd_Ref c, None)) (s_Credentials (ex_Spec es))))
      (builtNonNil (LookupIdentitySigner r) ctx (refCfg (s_Identity (ex_Spec es))))"
  using assms by (rule manifest_listing)

theorem Build_manifest_components_witness:
  "\<exists>ba. buildFrozen (\<lambda>_. None) fakeNew 0 background skillNS freshMemos fullRegistry = Ok ba \<and>
     map listing (mf_Resolved (ba_Manifest (ba :: nat BuiltAgent))) = composition expandedSample False False"
proof -
  have ns: "ns_Spec skillNS = skillSpec" by (simp add: skillNS_def)
  from fullRegistry_builds[OF ns] obtain ba
    where ba: "buildFrozen (\<lambda>_. None) fakeNew 0 background skillNS freshMemos fullRegistry = Ok ba" by blast
  from Build_manifest_components[OF ba fullRegistry_wf(1)] ba show ?thesis
    by (simp add: ns fullRegistry_expands expandedSample_optional builtNonNil_def refCfg_def)
qed

end
