(* ===== verification/SpecOverlayYaml.thy ===== *)
theory SpecOverlayYaml
  imports SpecMerge
begin

text \<open>
  The YAML hooks of \<^verbatim>\<open>overlay.go\<close>: how an overlay document's nodes become
  \<^verbatim>\<open>RefList\<close>, \<^verbatim>\<open>OverlayMetadata\<close>, \<^verbatim>\<open>FilterOverlay\<close> and
  \<^verbatim>\<open>AgentOverlayBody\<close> values, with absent, null and present lists kept apart.

  A \<^verbatim>\<open>yaml.Node\<close> is its kind, tag, value, line and children (a mapping's children
  alternate keys and values). The calls of \<^verbatim>\<open>node.Decode\<close>, which run the decoder of
  \<^verbatim>\<open>gopkg.in/yaml.v3\<close>, are the fields of the argument \<open>yd\<close>, one per target type.
  The hooks write through their receiver, which is passed and returned.
\<close>

datatype nodeKind = DocumentNode | SequenceNode | MappingNode | ScalarNode | AliasNode | OtherKind int

datatype yamlNode = YNode (yn_Kind: nodeKind) (yn_Tag: string) (yn_Value: string) (yn_Line: int)
  (yn_Content: "yamlNode list")

text \<open>The struct \<^verbatim>\<open>rawBody\<close>: the body without its two reference lists.\<close>

record rawBody =
  rb_Metadata :: "OverlayMetadata option"
  rb_Provider :: "ComponentRef option"
  rb_Prompt :: "PromptBlock option"
  rb_Filters :: "FilterOverlay option"
  rb_Budget :: "BudgetRef option"
  rb_Telemetry :: "ComponentRef option"
  rb_Credentials :: "CredRef option"
  rb_Identity :: "ComponentRef option"

record yamlDecoder =
  yd_items :: "yamlNode \<Rightarrow> ComponentRef slice result"
  yd_refList :: "yamlNode \<Rightarrow> RefList \<Rightarrow> RefList result"
  yd_rawMetadata :: "yamlNode \<Rightarrow> OverlayMetadata result"
  yd_rawBody :: "yamlNode \<Rightarrow> rawBody result"

definition yamlNullTag :: string where
  "yamlNullTag = ''!!null''"

fun nodeKindName :: "nodeKind \<Rightarrow> garg" where
  "nodeKindName DocumentNode = AStr ''document''"
| "nodeKindName SequenceNode = AStr ''sequence''"
| "nodeKindName MappingNode = AStr ''mapping''"
| "nodeKindName ScalarNode = AStr ''scalar''"
| "nodeKindName AliasNode = AStr ''alias''"
| "nodeKindName (OtherKind k) = AFmt ''kind(%d)'' [AInt k]"


text \<open>\<^verbatim>\<open>for i := 0; i < len(node.Content); i += 2\<close> over the keys, and over keys with values.\<close>

fun checkKeys :: "string list \<Rightarrow> string \<Rightarrow> yamlNode list \<Rightarrow> unit result" where
  "checkKeys allowed ty [] = Ok ()"
| "checkKeys allowed ty (k # rest) =
     (if yn_Value k \<notin> set allowed then Err (Errorf (''field %q not found in type spec.'' @ ty) [AStr (yn_Value k)])
      else checkKeys allowed ty (tl rest))"

fun overEntries :: "(string \<Rightarrow> yamlNode \<Rightarrow> 's \<Rightarrow> 's result) \<Rightarrow> yamlNode list \<Rightarrow> 's \<Rightarrow> 's result" where
  "overEntries f [] s = Ok s"
| "overEntries f [k] s = Panic ''index out of range: node.Content[i+1]''"
| "overEntries f (k # v # rest) s = bindR (f (yn_Value k) v s) (overEntries f rest)"

definition wantMapping :: "string \<Rightarrow> yamlNode \<Rightarrow> 'a result \<Rightarrow> 'a result" where
  "wantMapping ty node k =
     (if yn_Kind node \<noteq> MappingNode
      then Err (Errorf (ty @ '': expected mapping, got %s'') [nodeKindName (yn_Kind node)]) else k)"

definition metadataFields :: "string list" where
  "metadataFields = [''id'', ''version'', ''displayName'', ''description'', ''owners'', ''labels'']"

definition OverlayMetadata_UnmarshalYAML :: "yamlDecoder \<Rightarrow> yamlNode \<Rightarrow> OverlayMetadata \<Rightarrow> OverlayMetadata result" where
  "OverlayMetadata_UnmarshalYAML yd node m =
     wantMapping ''OverlayMetadata'' node
       (bindR (checkKeys metadataFields ''OverlayMetadata'' (yn_Content node)) (\<lambda>_.
        bindR (yd_rawMetadata yd node) (\<lambda>raw.
        Ok (m\<lparr>om_ID := om_ID raw, om_Version := om_Version raw, om_DisplayName := om_DisplayName raw,
              om_Description := om_Description raw, om_Owners := om_Owners raw, om_Labels := om_Labels raw\<rparr>))))"

definition decodeRefList :: "yamlDecoder \<Rightarrow> yamlNode \<Rightarrow> RefList result" where
  "decodeRefList yd node =
     (if yn_Kind node = ScalarNode \<and> yn_Tag node = yamlNullTag
      then Ok (unsetRefList\<lparr>rl_Set := True, rl_Items := None, rl_Line := yn_Line node\<rparr>)
      else yd_refList yd node unsetRefList)"




definition decodeFilterRefList :: "yamlDecoder \<Rightarrow> yamlNode \<Rightarrow> RefList result" where
  "decodeFilterRefList yd node = decodeRefList yd node"

definition filterFields :: "string list" where
  "filterFields = [''preLLM'', ''preTool'', ''postTool'']"

definition filterEntry :: "yamlDecoder \<Rightarrow> string \<Rightarrow> yamlNode \<Rightarrow> FilterOverlay \<Rightarrow> FilterOverlay result" where
  "filterEntry yd key v f =
     (if key = ''preLLM'' then bindR (decodeFilterRefList yd v) (\<lambda>r. Ok (f\<lparr>fo_PreLLM := r\<rparr>))
      else if key = ''preTool'' then bindR (decodeFilterRefList yd v) (\<lambda>r. Ok (f\<lparr>fo_PreTool := r\<rparr>))
      else if key = ''postTool'' then bindR (decodeFilterRefList yd v) (\<lambda>r. Ok (f\<lparr>fo_PostTool := r\<rparr>))
      else Ok f)"

definition FilterOverlay_UnmarshalYAML :: "yamlDecoder \<Rightarrow> yamlNode \<Rightarrow> FilterOverlay \<Rightarrow> FilterOverlay result" where
  "FilterOverlay_UnmarshalYAML yd node f =
     wantMapping ''FilterOverlay'' node
       (bindR (checkKeys filterFields ''FilterOverlay'' (yn_Content node)) (\<lambda>_.
        overEntries (filterEntry yd) (yn_Content node) f))"

section \<open>Entries of a mapping\<close>

fun entriesOf :: "yamlNode list \<Rightarrow> (string \<times> yamlNode) list" where
  "entriesOf (k # v # rest) = (yn_Value k, v) # entriesOf rest"
| "entriesOf _ = []"

text \<open>The value of the last entry with a key, the one that stays in effect.\<close>

definition lastEntry :: "yamlNode list \<Rightarrow> string \<Rightarrow> yamlNode option" where
  "lastEntry c k = map_of (rev (entriesOf c)) k"


lemma overEntries_noPanic:
  "even (length c) \<Longrightarrow> (\<And>k v s. noPanic (f k v s)) \<Longrightarrow> noPanic (overEntries f c s)"
  by (induction f c s rule: overEntries.induct) auto

text \<open>
  A field of the state that only entries with key \<open>k\<close> write, each by the value of
  \<open>dec\<close>: afterwards it holds what \<open>dec\<close> makes of the last such entry.
\<close>

lemma overEntries_field:
  assumes "overEntries f c s = Ok t"
    and hit: "\<And>v s t. f k v s = Ok t \<Longrightarrow> dec v = Ok (get t)"
    and frame: "\<And>k' v s t. k' \<noteq> k \<Longrightarrow> f k' v s = Ok t \<Longrightarrow> get t = get s"
  shows "case lastEntry c k of None \<Rightarrow> get t = get s | Some v \<Rightarrow> dec v = Ok (get t)"
  using assms(1)
proof (induction c arbitrary: s t rule: entriesOf.induct)
  case (1 k' v rest)
  from "1.prems" obtain u where u: "f (yn_Value k') v s = Ok u" "overEntries f rest u = Ok t" by auto
  from "1.IH"[OF u(2)] show ?case
    using hit[of v s u] frame[of "yn_Value k'" v s u] u(1)
    by (auto simp: lastEntry_def map_add_def split: option.splits)
qed (auto simp: lastEntry_def)



section \<open>Reference lists\<close>













lemma filter_stages:
  assumes "overEntries (filterEntry yd) c f = Ok f'"
  shows "case lastEntry c ''preLLM'' of None \<Rightarrow> fo_PreLLM f' = fo_PreLLM f | Some v \<Rightarrow> decodeRefList yd v = Ok (fo_PreLLM f')"
    "case lastEntry c ''preTool'' of None \<Rightarrow> fo_PreTool f' = fo_PreTool f | Some v \<Rightarrow> decodeRefList yd v = Ok (fo_PreTool f')"
    "case lastEntry c ''postTool'' of None \<Rightarrow> fo_PostTool f' = fo_PostTool f | Some v \<Rightarrow> decodeRefList yd v = Ok (fo_PostTool f')"
  by (rule overEntries_field[OF assms]; auto simp: filterEntry_def decodeFilterRefList_def split: if_splits)+



section \<open>Properties\<close>







end
