(* ===== verification/GoPath.thy ===== *)
theory GoPath
  imports ForgePrelude
begin

text \<open>
  The functions of Go's \<^verbatim>\<open>path/filepath\<close> the file-backed spec store calls, on a Unix
  system (separator slash, no volume names): \<^verbatim>\<open>IsAbs\<close>, \<^verbatim>\<open>Clean\<close>,
  \<^verbatim>\<open>Join\<close>, \<^verbatim>\<open>Abs\<close> and \<^verbatim>\<open>Rel\<close>. Paths are cleaned element by element on a
  stack, which is kept with its top in front.

  The lemmas describe the lexical meaning: \<open>descend\<close> walks the elements of a path from a
  directory, and cleaning a path never changes where it leads.
\<close>

fun splitOn :: "char \<Rightarrow> string \<Rightarrow> string list" where
  "splitOn c [] = [[]]"
| "splitOn c (x # xs) = (if x = c then [] # splitOn c xs
     else (case splitOn c xs of [] \<Rightarrow> [[x]] | w # ws \<Rightarrow> (x # w) # ws))"

definition sep :: char where
  "sep = CHR ''/''"

definition IsAbs :: "string \<Rightarrow> bool" where
  "IsAbs p = hasPrefix p [sep]"

text \<open>One element: empty and dot are dropped, dot-dot backtracks where it can.\<close>

definition cleanStep :: "bool \<Rightarrow> string \<Rightarrow> string list \<Rightarrow> string list" where
  "cleanStep rooted e st =
     (if e = [] \<or> e = ''.'' then st
      else if e = ''..'' then
        (case st of
           [] \<Rightarrow> if rooted then [] else [''..'']
         | t # ts \<Rightarrow> if t = ''..'' then e # st else ts)
      else e # st)"

definition cleanElems :: "bool \<Rightarrow> string \<Rightarrow> string list" where
  "cleanElems rooted p = rev (fold (cleanStep rooted) (splitOn sep p) [])"

definition absPath :: "string list \<Rightarrow> string" where
  "absPath es = sep # join es [sep]"

definition Clean :: "string \<Rightarrow> string" where
  "Clean p =
     (if p = [] then ''.''
      else if IsAbs p then absPath (cleanElems True p)
      else if cleanElems False p = [] then ''.'' else join (cleanElems False p) [sep])"

fun Join :: "string list \<Rightarrow> string" where
  "Join [] = []"
| "Join (e # es) = (if e = [] then Join es else Clean (join (e # es) [sep]))"

text \<open>\<open>getwd\<close> is the outcome of \<^verbatim>\<open>os.Getwd\<close>.\<close>

definition Abs :: "string result \<Rightarrow> string \<Rightarrow> string result" where
  "Abs getwd p = (if IsAbs p then Ok (Clean p) else bindR getwd (\<lambda>wd. Ok (Join [wd, p])))"

fun stripCommon :: "string list \<Rightarrow> string list \<Rightarrow> string list \<times> string list" where
  "stripCommon (b # bs) (t # ts) = (if b = t then stripCommon bs ts else (b # bs, t # ts))"
| "stripCommon bs ts = (bs, ts)"

definition relErr :: "string \<Rightarrow> string \<Rightarrow> gerror" where
  "relErr base targ = Errorf ''Rel: can't make %s relative to %s'' [AStr targ, AStr base]"

definition pathElems :: "string \<Rightarrow> string list" where
  "pathElems p = filter (\<lambda>e. e \<noteq> []) (splitOn sep p)"

text \<open>
  Elements of the base left over are left by as many dot-dots; a leftover that itself
  begins with dot-dot where the paths differ cannot be left.
\<close>

definition Rel :: "string \<Rightarrow> string \<Rightarrow> string result" where
  "Rel basepath targpath =
     (let base = Clean basepath; targ = Clean targpath in
      if targ = base then Ok ''.''
      else
        let base = (if base = ''.'' then [] else base) in
        if IsAbs base \<noteq> IsAbs targ then Err (relErr basepath targpath)
        else
          let (bs, ts) = stripCommon (pathElems base) (pathElems targ) in
          if bs \<noteq> [] \<and> ts \<noteq> [] \<and> hd bs = ''..'' then Err (relErr basepath targpath)
          else Ok (join (replicate (length bs) ''..'' @ ts) [sep]))"

section \<open>Elements\<close>

definition plain :: "string \<Rightarrow> bool" where
  "plain e \<longleftrightarrow> e \<noteq> [] \<and> e \<noteq> ''.'' \<and> e \<noteq> ''..'' \<and> sep \<notin> set e"

lemma plain_no_sep: "list_all plain es \<Longrightarrow> list_all (\<lambda>e. sep \<notin> set e) es"
  by (erule list.pred_mono_strong) (simp add: plain_def)

lemma splitOn_nonempty [simp]: "splitOn c s \<noteq> []"
  by (cases s) (auto split: list.split)

lemma splitOn_no_sep: "e \<in> set (splitOn c s) \<Longrightarrow> c \<notin> set e"
  by (induction s arbitrary: e) (auto split: if_splits list.splits)

lemma splitOn_plain: "c \<notin> set e \<Longrightarrow> splitOn c e = [e]"
  by (induction e) auto

lemma splitOn_append: "splitOn c (a @ c # b) = splitOn c a @ splitOn c b"
  by (induction a) (auto split: list.splits)

lemma splitOn_join: "es \<noteq> [] \<Longrightarrow> list_all (\<lambda>e. c \<notin> set e) es \<Longrightarrow> splitOn c (join es [c]) = es"
proof (induction es rule: induct_list012)
  case (3 x y zs)
  then show ?case by (simp add: splitOn_append splitOn_plain)
qed (simp_all add: splitOn_plain)

lemma cleanStep_skip [simp]: "cleanStep r [] st = st" "cleanStep r ''.'' st = st"
  by (simp_all add: cleanStep_def)

lemma cleanStep_plain [simp]: "plain e \<Longrightarrow> cleanStep r e st = e # st"
  by (auto simp: cleanStep_def plain_def)

lemma fold_plain: "list_all plain es \<Longrightarrow> fold (cleanStep r) es st = rev es @ st"
  by (induction es arbitrary: st) simp_all

lemma cleanStep_rooted_plain:
  "list_all plain st \<Longrightarrow> sep \<notin> set e \<Longrightarrow> list_all plain (cleanStep True e st)"
  by (auto simp: cleanStep_def plain_def split: list.split)

lemma fold_rooted_plain:
  "list_all plain st \<Longrightarrow> list_all (\<lambda>e. sep \<notin> set e) es \<Longrightarrow> list_all plain (fold (cleanStep True) es st)"
  by (induction es arbitrary: st) (simp_all add: cleanStep_rooted_plain)

lemma splitOn_list_all: "list_all (\<lambda>e. sep \<notin> set e) (splitOn sep p)"
  by (auto simp: list_all_iff dest: splitOn_no_sep)

lemma cleanElems_rooted_plain: "list_all plain (cleanElems True p)"
  unfolding cleanElems_def by (simp add: fold_rooted_plain splitOn_list_all)

section \<open>Where a path leads\<close>

text \<open>The directory reached from \<open>dir\<close> by walking the elements of \<open>p\<close> one by one.\<close>

definition descend :: "string list \<Rightarrow> string \<Rightarrow> string list" where
  "descend dir p = rev (fold (cleanStep True) (splitOn sep p) (rev dir))"

lemma descend_plain: "list_all plain dir \<Longrightarrow> list_all plain (descend dir p)"
  unfolding descend_def by (simp add: fold_rooted_plain splitOn_list_all)

lemma descend_elems:
  assumes "list_all plain dir" "list_all plain es" "es \<noteq> []"
  shows "descend dir (join es [sep]) = dir @ es"
proof -
  have "splitOn sep (join es [sep]) = es"
    using assms by (intro splitOn_join plain_no_sep)
  then show ?thesis using assms by (simp add: descend_def fold_plain)
qed

text \<open>The stack of a relative path holds only plain elements and dot-dots.\<close>

definition relStack :: "string list \<Rightarrow> bool" where
  "relStack st \<longleftrightarrow> list_all (\<lambda>e. e = ''..'' \<or> plain e) st"

lemma cleanStep_relStack:
  "relStack st \<Longrightarrow> sep \<notin> set e \<Longrightarrow> relStack (cleanStep r e st)"
  by (auto simp: cleanStep_def relStack_def plain_def split: list.split)

text \<open>Replaying a cleaned stack from a directory is walking the original elements.\<close>

lemma replay_step:
  assumes "relStack st"
  shows "fold (cleanStep True) (rev (cleanStep False e st)) dir =
    cleanStep True e (fold (cleanStep True) (rev st) dir)"
proof (cases "e = ''..''")
  case True
  show ?thesis
  proof (cases st)
    case Nil
    with True show ?thesis by (simp add: cleanStep_def)
  next
    case (Cons t ts)
    with assms have "t = ''..'' \<or> plain t" by (simp add: relStack_def)
    then show ?thesis
    proof
      assume "t = ''..''"
      with True Cons show ?thesis by (simp add: cleanStep_def)
    next
      assume t: "plain t"
      then have "t \<noteq> ''..''" by (simp add: plain_def)
      with t show ?thesis unfolding True Cons by (simp add: cleanStep_def[of False] cleanStep_def[of True "''..''"])
    qed
  qed
next
  case False
  then show ?thesis by (auto simp: cleanStep_def[of False])
qed

lemma replay:
  "relStack st \<Longrightarrow> list_all (\<lambda>e. sep \<notin> set e) es \<Longrightarrow>
     fold (cleanStep True) (rev (fold (cleanStep False) es st)) dir =
     fold (cleanStep True) es (fold (cleanStep True) (rev st) dir)"
proof (induction es arbitrary: st)
  case (Cons e es)
  then show ?case by (simp add: cleanStep_relStack replay_step)
qed simp

lemma cleanElems_relative: "relStack (rev (cleanElems False p))"
proof -
  have "relStack (fold (cleanStep False) es st)"
    if "relStack st" "list_all (\<lambda>e. sep \<notin> set e) es" for es st
    using that by (induction es arbitrary: st) (simp_all add: cleanStep_relStack)
  from this[OF _ splitOn_list_all, of "[]"] show ?thesis
    unfolding cleanElems_def by (simp add: relStack_def)
qed

lemma descend_Clean:
  assumes "\<not> IsAbs p"
  shows "descend dir (Clean p) = descend dir p"
proof (cases "cleanElems False p = []")
  case True
  have "fold (cleanStep True) (rev (rev (cleanElems False p))) (rev dir) =
      fold (cleanStep True) (splitOn sep p) (rev dir)"
    using replay[of "[]", OF _ splitOn_list_all[of p]] by (simp add: cleanElems_def relStack_def)
  moreover have "Clean p = ''.''" using assms True by (simp add: Clean_def)
  moreover have "splitOn sep ''.'' = [''.'']" by (simp add: sep_def)
  ultimately show ?thesis using True by (simp add: descend_def)
next
  case False
  then have "p \<noteq> []" by (auto simp: cleanElems_def)
  have "list_all (\<lambda>e. sep \<notin> set e) (cleanElems False p)"
    using cleanElems_relative[of p] unfolding relStack_def list_all_rev
    by (rule list.pred_mono_strong) (auto simp: plain_def sep_def)
  then have "splitOn sep (join (cleanElems False p) [sep]) = cleanElems False p"
    using False by (intro splitOn_join)
  moreover have "Clean p = join (cleanElems False p) [sep]" using assms False \<open>p \<noteq> []\<close> by (simp add: Clean_def)
  moreover have "fold (cleanStep True) (cleanElems False p) (rev dir) = fold (cleanStep True) (splitOn sep p) (rev dir)"
    using replay[of "[]", OF _ splitOn_list_all[of p]] by (simp add: cleanElems_def relStack_def)
  ultimately show ?thesis by (simp add: descend_def)
qed

section \<open>Absolute paths\<close>

lemma IsAbs_absPath [simp]: "IsAbs (absPath es)"
  by (simp add: IsAbs_def absPath_def)

lemma splitOn_absPath: "splitOn sep (absPath es) = [] # splitOn sep (join es [sep])"
  by (simp add: absPath_def)

lemma splitOn_join_plain:
  "list_all plain es \<Longrightarrow> splitOn sep (join es [sep]) = (if es = [] then [[]] else es)"
  by (cases "es = []") (simp_all add: splitOn_join plain_no_sep)

lemma pathElems_absPath: "list_all plain es \<Longrightarrow> pathElems (absPath es) = es"
  by (cases "es = []")
    (auto simp: pathElems_def splitOn_absPath splitOn_join_plain list_all_iff plain_def filter_id_conv)

lemma absPath_inj: "list_all plain es \<Longrightarrow> list_all plain fs \<Longrightarrow> absPath es = absPath fs \<longleftrightarrow> es = fs"
  by (metis pathElems_absPath)

lemma Clean_absPath: "list_all plain es \<Longrightarrow> Clean (absPath es) = absPath es"
  by (simp add: Clean_def cleanElems_def splitOn_absPath splitOn_join_plain fold_plain) (simp add: absPath_def)

lemma Clean_IsAbs: "IsAbs p \<Longrightarrow> Clean p = absPath (cleanElems True p)"
  by (auto simp: Clean_def IsAbs_def)

lemma Join_absPath:
  assumes "list_all plain es"
  shows "Join [absPath es, p] = absPath (descend es p)"
proof -
  have "IsAbs (absPath es @ sep # p)" by (simp add: IsAbs_def absPath_def)
  moreover have "cleanElems True (absPath es @ sep # p) = descend es p"
    by (simp add: cleanElems_def descend_def splitOn_append splitOn_absPath splitOn_join_plain assms fold_plain)
  moreover have "absPath es \<noteq> []" by (simp add: absPath_def)
  ultimately show ?thesis by (simp add: Clean_IsAbs)
qed

lemma Abs_rooted:
  assumes "Abs getwd root = Ok p" and "\<And>wd. getwd = Ok wd \<Longrightarrow> IsAbs wd"
  obtains es where "p = absPath es" "list_all plain es"
proof (cases "IsAbs root")
  case True
  with assms(1) that show ?thesis by (auto simp: Abs_def Clean_IsAbs cleanElems_rooted_plain)
next
  case False
  with assms obtain wd where wd: "IsAbs wd" "p = Join [wd, root]" by (auto simp: Abs_def)
  then have "wd \<noteq> []" "IsAbs (wd @ sep # root)" by (auto simp: IsAbs_def hasPrefix_iff)
  with wd have "p = absPath (cleanElems True (wd @ sep # root))" by (simp add: Clean_IsAbs)
  with that cleanElems_rooted_plain show ?thesis by blast
qed

declare Join.simps [simp del]

lemma stripCommon_prefix: "stripCommon bs ts = ([], us) \<longleftrightarrow> ts = bs @ us"
  by (induction bs ts rule: stripCommon.induct) auto

lemma stripCommon_set:
  "stripCommon bs ts = (cs, us) \<Longrightarrow> set cs \<subseteq> set bs \<and> set us \<subseteq> set ts"
  by (induction bs ts rule: stripCommon.induct) (auto split: if_splits)

end
