(* ===== verification/SpecFileStore.thy ===== *)
theory SpecFileStore
  imports SpecNormalize GoPath
begin

text \<open>
  Specs and overlays from files: \<^verbatim>\<open>FilesystemSpecStore\<close> of \<^verbatim>\<open>store.go\<close>,
  \<^verbatim>\<open>LoadSpec\<close> of \<^verbatim>\<open>load.go\<close>, \<^verbatim>\<open>LoadOverlay\<close> of \<^verbatim>\<open>load_overlay.go\<close> and the
  loop \<^verbatim>\<open>LoadOverlays\<close> of \<^verbatim>\<open>forge.go\<close>.

  The file system and the YAML decoder of \<^verbatim>\<open>gopkg.in/yaml.v3\<close> are arguments:
  \<open>getwd\<close> is \<^verbatim>\<open>os.Getwd\<close>, \<open>openF\<close> maps a path to the bytes of the opened file or
  \<^verbatim>\<open>os.Open\<close>'s error, \<open>notExist\<close> is \<^verbatim>\<open>os.IsNotExist\<close>, and \<open>decode\<close> is the strict
  decoder (\<^verbatim>\<open>KnownFields(true)\<close>) on those bytes.
\<close>

record 'b files =
  fs_getwd :: "string result"
  fs_open :: "string \<Rightarrow> 'b result"
  fs_notExist :: "gerror \<Rightarrow> bool"

section \<open>store.go: FilesystemSpecStore\<close>

text \<open>The path and true, or (as \<open>None\<close>) the empty path and false.\<close>

definition fs_resolve :: "string result \<Rightarrow> string \<Rightarrow> string \<Rightarrow> string option" where
  "fs_resolve getwd root ref =
     (if IsAbs ref then None
      else (case Abs getwd root of
        Ok rootAbs \<Rightarrow>
          let candidate = Join [rootAbs, Clean ref] in
          (case Rel rootAbs candidate of
             Ok rel \<Rightarrow> if rel = ''..'' \<or> (3 \<le> length rel \<and> take 3 rel = ''..'' @ [sep]) then None
               else Some candidate
           | _ \<Rightarrow> None)
      | _ \<Rightarrow> None))"

definition fsNotFound :: "string \<Rightarrow> gerror" where
  "fsNotFound ref = Errorf ''FilesystemSpecStore: %s: %w'' [AStr ref, AWrap (Sentinel ErrSpecNotFound)]"

definition FilesystemSpecStore_Load :: "'b files \<Rightarrow> ('b \<Rightarrow> AgentSpec result) \<Rightarrow> string \<Rightarrow> SpecStore" where
  "FilesystemSpecStore_Load fs decode root ctx n ref =
     (case ctx n of
        Some err \<Rightarrow> Err err
      | None \<Rightarrow>
        (case fs_resolve (fs_getwd fs) root ref of
           None \<Rightarrow> Err (fsNotFound ref)
         | Some clean \<Rightarrow>
             bindR (wrapErr (\<lambda>err. if fs_notExist fs err then fsNotFound ref
                       else Errorf ''FilesystemSpecStore: open %s: %w'' [AStr ref, AWrap err]) (fs_open fs clean))
               (\<lambda>f. bindR (wrapErr (\<lambda>err. Errorf ''FilesystemSpecStore: decode %s: %w'' [AStr ref, AWrap err]) (decode f))
                 (\<lambda>spec. Ok (Some spec)))))"

section \<open>load.go, load_overlay.go and forge.go\<close>

definition LoadSpec :: "'b files \<Rightarrow> ('b \<Rightarrow> AgentSpec result) \<Rightarrow> string \<Rightarrow> AgentSpec result" where
  "LoadSpec fs decode path =
     bindR (wrapErr (\<lambda>err. Errorf ''open spec: %w'' [AWrap err]) (fs_open fs path))
       (\<lambda>f. wrapErr (\<lambda>err. Errorf ''decode spec %s: %w'' [AStr path, AWrap err]) (decode f))"

definition LoadOverlay :: "'b files \<Rightarrow> ('b \<Rightarrow> AgentOverlay result) \<Rightarrow> string \<Rightarrow> AgentOverlay result" where
  "LoadOverlay fs decode path =
     bindR (wrapErr (\<lambda>err. Errorf ''open overlay: %w'' [AWrap err]) (fs_open fs path))
       (\<lambda>f. bindR (wrapErr (\<lambda>err. Errorf ''decode overlay %s: %w'' [AStr path, AWrap err]) (decode f))
         (\<lambda>ov.
           if ov_APIVersion ov \<noteq> expectedAPIVersion
           then Err (Errorf ''overlay %s: apiVersion: want %q, got %q''
                  [AStr path, AStr expectedAPIVersion, AStr (ov_APIVersion ov)])
           else if ov_Kind ov \<noteq> ''AgentOverlay''
           then Err (Errorf ''overlay %s: kind: want %q, got %q''
                  [AStr path, AStr ''AgentOverlay'', AStr (ov_Kind ov)])
           else Ok (ov\<lparr>ov_File := path\<rparr>)))"

definition LoadOverlays :: "'b files \<Rightarrow> ('b \<Rightarrow> AgentOverlay result) \<Rightarrow> string list \<Rightarrow> AgentOverlay list result" where
  "LoadOverlays fs decode paths = loopR (\<lambda>_ path. LoadOverlay fs decode path) 0 paths"

section \<open>Containment\<close>

lemma Rel_absPath:
  assumes "list_all plain rs" "list_all plain ps"
  shows "Rel (absPath rs) (absPath ps) =
    (if ps = rs then Ok ''.''
     else let (bs, ts) = stripCommon rs ps in Ok (join (replicate (length bs) ''..'' @ ts) [sep]))"
proof -
  have "absPath rs \<noteq> ''.''" by (simp add: absPath_def sep_def)
  moreover have "hd bs \<noteq> ''..''" if "stripCommon rs ps = (bs, ts)" "bs \<noteq> []" for bs ts
    using stripCommon_set[OF that(1)] assms(1) that(2) by (cases bs) (auto simp: list_all_iff plain_def)
  ultimately show ?thesis
    using assms by (auto simp: Rel_def Let_def Clean_absPath absPath_inj pathElems_absPath split: prod.split)
qed

text \<open>The test on the relative path says exactly whether something of the root is left over.\<close>

lemma escapes_iff:
  assumes "list_all plain ts" "bs \<noteq> [] \<or> ts \<noteq> []"
  shows "(let rel = join (replicate (length bs) ''..'' @ ts) [sep]
      in rel = ''..'' \<or> (3 \<le> length rel \<and> take 3 rel = ''..'' @ [sep])) \<longleftrightarrow> bs \<noteq> []"
proof (cases bs)
  case Nil
  with assms obtain t us where ts: "ts = t # us" "plain t" by (cases ts) auto
  let ?rel = "join ts [sep]"
  obtain rest where rel: "?rel = t @ rest" "rest = [] \<or> hd rest = sep"
    unfolding ts(1) by (cases us) auto
  from ts(2) have t: "t \<noteq> ''..''" "sep \<notin> set t" "t \<noteq> []" by (auto simp: plain_def)
  have "splitOn sep ?rel = ts"
    using assms(1) ts by (intro splitOn_join plain_no_sep) simp
  moreover have "splitOn sep ''..'' = [''..'']" by (simp add: sep_def)
  ultimately have "?rel \<noteq> ''..''" using ts t by auto
  moreover have "take 3 ?rel \<noteq> ''..'' @ [sep]"
  proof
    assume "take 3 ?rel = ''..'' @ [sep]"
    then have "?rel = ''..'' @ sep # drop 3 ?rel" by (metis append_Cons append_take_drop_id append.simps(1) append_assoc)
    then have "splitOn sep ?rel = splitOn sep ''..'' @ splitOn sep (drop 3 ?rel)" using splitOn_append by metis
    with \<open>splitOn sep ?rel = ts\<close> \<open>splitOn sep ''..'' = [''..'']\<close> ts t show False by simp
  qed
  ultimately show ?thesis using Nil by (simp add: Let_def)
next
  case (Cons b bs')
  then show ?thesis
    by (cases "replicate (length bs') ''..'' @ ts") (auto simp: Let_def)
qed

lemma resolve_rooted:
  assumes "Abs getwd root = Ok (absPath rs)" "list_all plain rs" "\<not> IsAbs ref"
  shows "fs_resolve getwd root ref = (if \<exists>ts. descend rs ref = rs @ ts then Some (absPath (descend rs ref)) else None)"
proof -
  let ?d = "descend rs ref"
  have d: "list_all plain ?d" by (rule descend_plain[OF assms(2)])
  have j: "Join [absPath rs, Clean ref] = absPath ?d" by (simp add: Join_absPath assms descend_Clean)
  obtain bs ts where st: "stripCommon rs ?d = (bs, ts)" by fastforce
  have inside: "(\<exists>us. ?d = rs @ us) \<longleftrightarrow> bs = []" using stripCommon_prefix[of rs ?d] st by auto
  have plain_ts: "list_all plain ts" using stripCommon_set[OF st] d by (auto simp: list_all_iff)
  show ?thesis
  proof (cases "?d = rs")
    case True
    then show ?thesis using assms d by (simp add: fs_resolve_def j Let_def Rel_absPath)
  next
    case False
    then have "bs \<noteq> [] \<or> ts \<noteq> []" using st stripCommon_prefix[of rs ?d "[]"] by auto
    from escapes_iff[OF plain_ts this] show ?thesis
      using assms d False st inside by (auto simp: fs_resolve_def j Let_def Rel_absPath)
  qed
qed


text \<open>The store as the interface \<^verbatim>\<open>SpecStore\<close>: it never panics and never returns a nil spec.\<close>

lemma fsStore_safe:
  assumes "\<And>p. noPanic (fs_open fs p)" "\<And>b. noPanic (decode b)"
  shows "noPanic (FilesystemSpecStore_Load fs decode root ctx n ref) \<and>
    FilesystemSpecStore_Load fs decode root ctx n ref \<noteq> Ok None"
  using assms by (auto simp: FilesystemSpecStore_Load_def split: option.split)

lemma fsStore_Err:
  assumes "FilesystemSpecStore_Load fs decode root background n ref = Err e"
  shows "(e = fsNotFound ref \<and> (fs_resolve (fs_getwd fs) root ref = None \<or>
      (\<exists>p err. fs_resolve (fs_getwd fs) root ref = Some p \<and> fs_open fs p = Err err \<and> fs_notExist fs err))) \<or>
    (\<exists>p err. fs_resolve (fs_getwd fs) root ref = Some p \<and> fs_open fs p = Err err \<and> \<not> fs_notExist fs err) \<or>
    (\<exists>p b err. fs_resolve (fs_getwd fs) root ref = Some p \<and> fs_open fs p = Ok b \<and> decode b = Err err)"
  using assms
  by (auto simp: FilesystemSpecStore_Load_def bindR_eq_Err wrapErr_eq_Err split: option.splits if_splits)

section \<open>Properties\<close>

text \<open>C22. The file-backed store confines references to its root. Under a live context, \<^verbatim>\<open>Load\<close> of a reference
  that is relative and whose elements, walked from the root directory, end at the root or below it opens
  exactly that path: the root's elements followed by plain ones (no empty, dot or dot-dot element). It then
  returns the decoded spec, or the not-found, open or decode error that names the reference. For every other
  reference the result is the not-found error whatever the files hold, so none is opened. The confinement
  is one of paths: a symbolic link below the root is followed.\<close>

theorem FilesystemSpecStore_confined:
  assumes "\<And>wd. fs_getwd fs = Ok wd \<Longrightarrow> IsAbs wd" and "Abs (fs_getwd fs) root = Ok rootAbs" and "ctx n = None"
  shows "\<exists>rs. rootAbs = absPath rs \<and> list_all plain rs \<and>
    (if \<not> IsAbs ref \<and> (\<exists>ts. descend rs ref = rs @ ts \<and> list_all plain ts)
     then FilesystemSpecStore_Load fs decode root ctx n ref = (case fs_open fs (absPath (descend rs ref)) of
         Ok b \<Rightarrow> (case decode b of
             Ok spec \<Rightarrow> Ok (Some spec)
           | Err e \<Rightarrow> Err (Errorf ''FilesystemSpecStore: decode %s: %w'' [AStr ref, AWrap e])
           | Panic p \<Rightarrow> Panic p)
       | Err e \<Rightarrow> if fs_notExist fs e then Err (fsNotFound ref)
           else Err (Errorf ''FilesystemSpecStore: open %s: %w'' [AStr ref, AWrap e])
       | Panic p \<Rightarrow> Panic p)
     else FilesystemSpecStore_Load (fs\<lparr>fs_open := anyFiles\<rparr>) decode root ctx n ref = Err (fsNotFound ref))"
proof -
  obtain rs where rs: "rootAbs = absPath rs" "list_all plain rs" using Abs_rooted[OF assms(2,1)] by blast
  have d: "list_all plain (descend rs ref)" by (rule descend_plain[OF rs(2)])
  have resolve: "fs_resolve (fs_getwd fs) root ref =
      (if \<not> IsAbs ref \<and> (\<exists>ts. descend rs ref = rs @ ts \<and> list_all plain ts) then Some (absPath (descend rs ref)) else None)"
  proof (cases "IsAbs ref")
    case True
    then show ?thesis by (simp add: fs_resolve_def)
  next
    case False
    then show ?thesis using resolve_rooted[of "fs_getwd fs" root rs ref] assms(2) rs d by auto
  qed
  show ?thesis
  proof (cases "\<not> IsAbs ref \<and> (\<exists>ts. descend rs ref = rs @ ts \<and> list_all plain ts)")
    case True
    note r = resolve[unfolded if_P[OF True]]
    show ?thesis unfolding FilesystemSpecStore_Load_def r
      using True rs by (intro exI[of _ rs]) (simp add: assms(3) wrapErr_def split: result.split)
  next
    case False
    note r = resolve[unfolded if_not_P[OF False]]
    have "fs_resolve (fs_getwd (fs\<lparr>fs_open := anyFiles\<rparr>)) root ref = None" using r by simp
    then have "FilesystemSpecStore_Load (fs\<lparr>fs_open := anyFiles\<rparr>) decode root ctx n ref = Err (fsNotFound ref)"
      by (simp only: FilesystemSpecStore_Load_def assms(3) option.case)
    then show ?thesis using rs by (intro exI[of _ rs] conjI) (simp_all only: if_not_P[OF False])
  qed
qed

text \<open>A store with one file below its root; the file beside the root is out of reach.\<close>

definition sampleFiles :: "string files" where
  "sampleFiles = \<lparr>fs_getwd = Ok ''/srv'', fs_open = (\<lambda>p. if p = ''/srv/specs/base.yaml'' then Ok ''base'' else Ok ''secret''),
     fs_notExist = (\<lambda>_. False)\<rparr>"

theorem FilesystemSpecStore_confined_witness:
  "FilesystemSpecStore_Load sampleFiles (\<lambda>b. if b = ''base'' then Ok sampleSpec else Err (Errorf [] [])) ''specs'' background 0
     ''../specs/./base.yaml'' = Ok (Some sampleSpec) \<and>
   FilesystemSpecStore_Load (sampleFiles\<lparr>fs_open := (\<lambda>_. Ok ''base'')\<rparr>) (\<lambda>b. Ok sampleSpec) ''specs'' background 0 ''../secret.yaml'' =
     Err (fsNotFound ''../secret.yaml'')"
proof -
  have wd: "IsAbs wd" if "fs_getwd sampleFiles = Ok wd" for wd using that by (auto simp: sampleFiles_def IsAbs_def sep_def)
  have ab: "Abs (fs_getwd sampleFiles) ''specs'' = Ok ''/srv/specs''" unfolding sampleFiles_def by code_simp
  have bg: "background 0 = None" by (simp add: background_def)
  have root: "rs = [''srv'', ''specs'']" if "''/srv/specs'' = absPath rs" "list_all plain rs" for rs
  proof -
    have "pathElems ''/srv/specs'' = [''srv'', ''specs'']" by code_simp
    with that show ?thesis by (simp add: pathElems_absPath)
  qed
  have d: "descend [''srv'', ''specs''] ''../specs/./base.yaml'' = [''srv'', ''specs'', ''base.yaml'']"
    "descend [''srv'', ''specs''] ''../secret.yaml'' = [''srv'', ''secret.yaml'']"
    "absPath [''srv'', ''specs'', ''base.yaml''] = ''/srv/specs/base.yaml''" "plain ''base.yaml''"
    "\<not> IsAbs ''../specs/./base.yaml''"
    by code_simp+
  let ?dec = "\<lambda>b. if b = ''base'' then Ok sampleSpec else Err (Errorf [] [])"
  have "FilesystemSpecStore_Load sampleFiles ?dec ''specs'' background 0 ''../specs/./base.yaml'' = Ok (Some sampleSpec)"
  proof -
    have o1: "fs_open sampleFiles ''/srv/specs/base.yaml'' = Ok ''base''" by (simp add: sampleFiles_def)
    show ?thesis
      by (rule FilesystemSpecStore_confined[
          where fs = sampleFiles and root = "''specs''" and ctx = background and n = 0
            and ref = "''../specs/./base.yaml''" and decode = ?dec, OF wd ab bg, THEN exE], assumption, elim conjE,
        drule (1) root, hypsubst, simp add: d o1)
  qed
  moreover have "FilesystemSpecStore_Load (sampleFiles\<lparr>fs_open := (\<lambda>_. Ok ''base'')\<rparr>) (\<lambda>b. Ok sampleSpec) ''specs'' background 0 ''../secret.yaml'' =
     Err (fsNotFound ''../secret.yaml'')"
    by (rule FilesystemSpecStore_confined[
        where fs = sampleFiles and root = "''specs''" and ctx = background and n = 0
          and ref = "''../secret.yaml''" and decode = "\<lambda>b. Ok sampleSpec" and anyFiles = "\<lambda>_. Ok ''base''", OF wd ab bg, THEN exE], assumption, elim conjE,
        drule (1) root, simp add: d)
  ultimately show ?thesis ..
qed

end
