(* ===== verification/ForgeFacade.thy ===== *)
theory ForgeFacade
  imports BuildProps SpecFileStore
begin

text \<open>
  The public facade \<^verbatim>\<open>forge.go\<close>: the loaders it forwards to, the accessors of a built agent, and
  the lemmas that take \<^verbatim>\<open>Build\<close> apart into normalization and construction.
\<close>

section \<open>Version\<close>

text \<open>\<^verbatim>\<open>internal/version\<close>: the module version, rewritten on each release.\<close>

definition Version :: string where
  "Version = ''0.7.0''"

section \<open>Loaders and accessors\<close>

definition forge_LoadSpec :: "'b files \<Rightarrow> ('b \<Rightarrow> AgentSpec result) \<Rightarrow> string \<Rightarrow> AgentSpec result" where
  "forge_LoadSpec fs decode path = LoadSpec fs decode path"

definition forge_LoadOverlay :: "'b files \<Rightarrow> ('b \<Rightarrow> AgentOverlay result) \<Rightarrow> string \<Rightarrow> AgentOverlay result" where
  "forge_LoadOverlay fs decode path = LoadOverlay fs decode path"

text \<open>\<open>invoke\<close> is the \<^verbatim>\<open>Invoke\<close> method of praxis' orchestrator.\<close>

definition BuiltAgent_Invoke :: "('o \<Rightarrow> 'rq \<Rightarrow> 'rs) \<Rightarrow> 'o BuiltAgent \<Rightarrow> 'rq \<Rightarrow> 'rs" where
  "BuiltAgent_Invoke invoke b req = invoke (ba_Orchestrator b) req"

definition BuiltAgent_Manifest :: "'o BuiltAgent \<Rightarrow> Manifest" where
  "BuiltAgent_Manifest b = ba_Manifest b"

definition BuiltAgent_SystemPrompt :: "'o BuiltAgent \<Rightarrow> string" where
  "BuiltAgent_SystemPrompt b = ba_SystemPrompt b"

definition BuiltAgent_NormalizedSpec :: "'o BuiltAgent \<Rightarrow> NormalizedSpec" where
  "BuiltAgent_NormalizedSpec b = ba_NormalizedSpec b"

lemmas facade_defs = forge_LoadSpec_def forge_LoadOverlay_def BuiltAgent_Invoke_def BuiltAgent_Manifest_def
  BuiltAgent_SystemPrompt_def BuiltAgent_NormalizedSpec_def

section \<open>Build\<close>

text \<open>What the options of one call add up to.\<close>

definition collected :: "(options \<Rightarrow> options) list \<Rightarrow> options" where
  "collected opts = fold (\<lambda>opt. opt) opts noOptions"

lemma forge_Build_cases:
  "forge_Build mo orchNew now ctx s r opts =
     (case Normalize ctx s (op_overlays (collected opts)) (op_store (collected opts)) of
        Ok ns \<Rightarrow> Build mo orchNew now ctx ns freshMemos r
      | Err e \<Rightarrow> (Err e, r) | Panic p \<Rightarrow> (Panic p, r))"
  by (simp add: forge_Build_def collected_def Let_def)

lemma Build_Some: "Build mo orchNew now ctx ns m (Some r) = (buildFrozen mo orchNew now ctx ns m (Freeze r), Some (Freeze r))"
  by (simp add: Build_def Let_def)

lemma Normalize_nil [simp]: "Normalize ctx None ovs store \<noteq> Ok ns"
  by (simp add: Normalize_def)

lemma forge_Build_Ok:
  assumes "forge_Build mo orchNew now ctx s r opts = (Ok ba, r')"
  obtains s0 r0 ns where "s = Some s0" "r = Some r0"
    "Normalize ctx (Some s0) (op_overlays (collected opts)) (op_store (collected opts)) = Ok ns"
    "buildFrozen mo orchNew now ctx ns freshMemos (Freeze r0) = Ok ba" "r' = Some (Freeze r0)"
proof (cases "Normalize ctx s (op_overlays (collected opts)) (op_store (collected opts))")
  case (Ok ns)
  then obtain s0 where s: "s = Some s0" by (cases s) auto
  have b: "Build mo orchNew now ctx ns freshMemos r = (Ok ba, r')"
    using assms unfolding forge_Build_cases Ok by simp
  then obtain r0 where "r = Some r0" by (cases r) (auto simp: Build_def)
  with b s Ok that show ?thesis by (simp add: Build_Some)
qed (use assms in \<open>simp_all add: forge_Build_cases\<close>)

lemma collected_overlays:
  "op_overlays (fold (\<lambda>opt. opt) (map WithOverlays ovss) o1) = op_overlays o1 @ concat ovss"
  by (induction ovss arbitrary: o1) (simp_all add: WithOverlays_def)

lemma buildFrozen_manifest:
  assumes "buildFrozen mo orchNew now ctx ns m r = Ok ba"
  shows "ba_NormalizedSpec ba = ns" "mf_SpecID (ba_Manifest ba) = md_ID (s_Metadata (ns_Spec ns))"
    "mf_SpecVersion (ba_Manifest ba) = md_Version (s_Metadata (ns_Spec ns))" "mf_BuiltAt (ba_Manifest ba) = now"
    "mf_NormalizedHash (ba_Manifest ba) = okOr [] (fst (NormalizedHash mo (ns_Spec ns) m))"
    "mf_ExtendsChain (ba_Manifest ba) = elems (ns_ExtendsChain ns)" "mf_Overlays (ba_Manifest ba) = elems (ns_Overlays ns)"
  using assms by (auto elim!: buildFrozen_Ok simp: materialize_def buildManifest_def Let_def)

text \<open>Freezing stops registration and is invisible to everything the builder reads.\<close>

lemma lookup_Freeze:
  "LookupProvider (Freeze r) = LookupProvider r" "LookupPromptAsset (Freeze r) = LookupPromptAsset r"
  "LookupToolPack (Freeze r) = LookupToolPack r" "LookupPolicyPack (Freeze r) = LookupPolicyPack r"
  "LookupPreLLMFilter (Freeze r) = LookupPreLLMFilter r" "LookupPreToolFilter (Freeze r) = LookupPreToolFilter r"
  "LookupPostToolFilter (Freeze r) = LookupPostToolFilter r" "LookupBudgetProfile (Freeze r) = LookupBudgetProfile r"
  "LookupTelemetryProfile (Freeze r) = LookupTelemetryProfile r"
  "LookupCredentialResolver (Freeze r) = LookupCredentialResolver r"
  "LookupIdentitySigner (Freeze r) = LookupIdentitySigner r" "LookupSkill (Freeze r) = LookupSkill r"
  "LookupOutputContract (Freeze r) = LookupOutputContract r" "LookupMCPBinding (Freeze r) = LookupMCPBinding r"
  by (simp_all add: lookup_defs Freeze_def fun_eq_iff)

lemma buildFrozen_Freeze: "buildFrozen mo orchNew now ctx ns m (Freeze r) = buildFrozen mo orchNew now ctx ns m r"
proof -
  have "expandOne mo ctx (Freeze r) = expandOne mo ctx r" by (simp add: fun_eq_iff expandOne_def lookup_Freeze)
  moreover have "resolveMCPBinding ctx (Freeze r) = resolveMCPBinding ctx r"
    by (simp add: fun_eq_iff resolveMCPBinding_def lookup_Freeze cong: option.case_cong)
  ultimately show ?thesis
    by (simp add: buildFrozen_def expandSkills_def resolveOutputContract_def resolve_def resolveMCPBindings_def
        lookup_Freeze cong: option.case_cong)
qed

end
