(* ===== verification/ManifestJson.thy ===== *)
theory ManifestJson
  imports BuildManifest
begin

text \<open>
  The JSON text of the manifest: its structs under their tags (\<^verbatim>\<open>manifest/\<close>, the descriptors of
  \<^verbatim>\<open>registry/types.go\<close>) and \<^verbatim>\<open>json.MarshalIndent\<close>, with which the demo prints an entry. Marshalling
  writes the strings and keys of a value as they are, so its tree is kept apart from the one that is
  read back: \<open>marshalled_decodes\<close> says that decoding the first gives the second.
\<close>

section \<open>Marshalling\<close>

fun marshalTree :: "mo \<Rightarrow> goval \<Rightarrow> json result" where
  "marshalTree mo (VString s) = Ok (JStr s)"
| "marshalTree mo (VSlice (Some vs)) = bindR (seqR (map (marshalTree mo) vs)) (\<lambda>js. Ok (JArr js))"
| "marshalTree mo (VStrings (Some ss)) = Ok (JArr (map JStr ss))"
| "marshalTree mo (VMap (Some kvs)) =
     bindR (seqR (map (\<lambda>(k, v). bindR (marshalTree mo v) (\<lambda>j. Ok (k, j))) (sort_key fst kvs))) (\<lambda>kjs. Ok (JObj kjs))"
| "marshalTree mo v = toJSON mo v"

definition structText :: "jfield list \<Rightarrow> json result" where
  "structText fs = bindR (seqR (map (\<lambda>(k, r). bindR r (\<lambda>j. Ok (k, j))) fs)) (\<lambda>kjs. Ok (JObj kjs))"

definition strText :: "string \<Rightarrow> json result" where
  "strText s = Ok (JStr s)"

definition strsText :: "string slice \<Rightarrow> json result" where
  "strsText ss = Ok (case ss of None \<Rightarrow> JNull | Some xs \<Rightarrow> JArr (map JStr xs))"

text \<open>\<^verbatim>\<open>json.MarshalIndent(v, "", "  ")\<close>: the compact text with a line per element and two blanks per level.\<close>

definition lineAt :: "nat \<Rightarrow> string" where
  "lineAt d = char_of (10::nat) # replicate (2 * d) CHR '' ''"

fun indentText :: "nat \<Rightarrow> json \<Rightarrow> string" where
  "indentText d (JObj kvs) = (if kvs = [] then ''{}'' else
     ''{'' @ lineAt (Suc d) @ join (map (\<lambda>(k, v). quote k @ '': '' @ indentText (Suc d) v) kvs) ('','' @ lineAt (Suc d)) @
     lineAt d @ ''}'')"
| "indentText d (JArr vs) = (if vs = [] then ''[]'' else
     ''['' @ lineAt (Suc d) @ join (map (indentText (Suc d)) vs) ('','' @ lineAt (Suc d)) @ lineAt d @ '']'')"
| "indentText d j = printJSON j"

section \<open>The manifest\<close>

definition descriptorsText :: "descriptors \<Rightarrow> json result" where
  "descriptorsText d = (case d of NoDescriptors \<Rightarrow> Ok JNull
     | SkillDesc sd \<Rightarrow> structText [(''Name'', strText (sd_Name sd)), (''Owner'', strText (sd_Owner sd)),
         (''Summary'', strText (sd_Summary sd)), (''Tags'', strsText (sd_Tags sd))]
     | ContractDesc od \<Rightarrow> structText [(''Name'', strText (ocd_Name od)), (''Owner'', strText (ocd_Owner od)),
         (''Summary'', strText (ocd_Summary od))]
     | BindingDesc bd \<Rightarrow> structText [(''Name'', strText (mbd_Name bd)), (''Summary'', strText (mbd_Summary bd)),
         (''Tags'', strsText (mbd_Tags bd))])"

definition componentText :: "mo \<Rightarrow> ResolvedComponent \<Rightarrow> json result" where
  "componentText mo c = structText (
     [(''kind'', strText (rcp_Kind c)), (''id'', strText (rcp_ID c))] @
     omit (elems (rcp_Config c) = []) ''config'' (marshalTree mo (VMap (rcp_Config c))) @
     omit (rcp_Descriptors c = NoDescriptors) ''descriptors'' (descriptorsText (rcp_Descriptors c)) @
     omit (rcp_InjectedBySkill c = []) ''injectedBySkill'' (strText (rcp_InjectedBySkill c)))"

definition capabilitiesText :: "Capabilities \<Rightarrow> json result" where
  "capabilitiesText c = structText ((''present'', strsText (Some (cap_Present c))) #
     omit (cap_Skipped c = []) ''skipped'' (listTree (\<lambda>k. structText
       [(''kind'', strText (ck_Kind k)), (''reason'', strText (ck_Reason k))]) (cap_Skipped c)))"

definition attributionText :: "OverlayAttribution \<Rightarrow> json result" where
  "attributionText a = structText ((''name'', strText (oa_Name a)) # omit (oa_File a = []) ''file'' (strText (oa_File a)))"

text \<open>\<^verbatim>\<open>json.MarshalIndent\<close> of an entry, as the demo calls it.\<close>

definition componentMarshalIndent :: "mo \<Rightarrow> ResolvedComponent \<Rightarrow> string result" where
  "componentMarshalIndent mo c = bindR (componentText mo c) (\<lambda>j. Ok (indentText 0 j))"

text \<open>\<open>stamp\<close> is the JSON of the build time, which fails for a year outside 0 to 9999.\<close>

definition manifestText :: "mo \<Rightarrow> (int \<Rightarrow> json result) \<Rightarrow> Manifest \<Rightarrow> json result" where
  "manifestText mo stamp mf = structText (
     [(''specId'', strText (mf_SpecID mf)), (''specVersion'', strText (mf_SpecVersion mf)),
      (''builtAt'', stamp (mf_BuiltAt mf)), (''normalizedHash'', strText (mf_NormalizedHash mf))] @
     omit (mf_ExpandedHash mf = []) ''expandedHash'' (strText (mf_ExpandedHash mf)) @
     [(''capabilities'', capabilitiesText (mf_Capabilities mf))] @
     omit (mf_ExtendsChain mf = []) ''extendsChain'' (strsText (Some (mf_ExtendsChain mf))) @
     omit (mf_Overlays mf = []) ''overlays'' (listTree attributionText (mf_Overlays mf)) @
     [(''resolved'', listTree (componentText mo) (mf_Resolved mf))])"

section \<open>Reading back what was marshalled\<close>

fun decodeTree :: "json \<Rightarrow> json" where
  "decodeTree (JStr s) = JStr (sanitize s)"
| "decodeTree (JArr js) = JArr (map decodeTree js)"
| "decodeTree (JObj kvs) = decodeObj (map (\<lambda>(k, v). (sanitize k, decodeTree v)) kvs)"
| "decodeTree j = j"

lemma bindR_bindR: "bindR (bindR r f) g = bindR r (\<lambda>x. bindR (f x) g)"
  by (simp add: bindR_def split: result.split)

lemma seqR_map_Ok: "seqR (map (\<lambda>x. bindR (f x) (\<lambda>y. Ok (g y))) xs) = bindR (seqR (map f xs)) (\<lambda>ys. Ok (map g ys))"
  by (induction xs) (auto simp: bindR_def split: result.splits)

theorem marshalled_decodes:
  assumes "\<And>ty j. mo ty = Some j \<Longrightarrow> decodeTree j = j"
  shows "toJSON mo v = bindR (marshalTree mo v) (\<lambda>j. Ok (decodeTree j))"
  using assms
proof (induction mo v rule: toJSON.induct)
  case (8 mo vs)
  then have "map (toJSON mo) vs = map (\<lambda>v. bindR (marshalTree mo v) (\<lambda>j. Ok (decodeTree j))) vs" by simp
  then show ?case by (simp add: seqR_map_Ok bindR_bindR del: map_eq_conv)
next
  case (12 mo kvs)
  let ?entry = "\<lambda>(k, v). bindR (marshalTree mo v) (\<lambda>j. Ok (k, j))"
  have "(\<lambda>(k, v). bindR (toJSON mo v) (\<lambda>j. Ok (sanitize k, j))) x =
      bindR (?entry x) (\<lambda>y. Ok ((\<lambda>(k, v). (sanitize k, decodeTree v)) y))" if x: "x \<in> set (sort_key fst kvs)" for x
  proof -
    obtain k v where kv: "x = (k, v)" by (cases x)
    have "toJSON mo v = bindR (marshalTree mo v) (\<lambda>j. Ok (decodeTree j))"
      using "12.IH"[OF x kv[symmetric] "12.prems"] .
    then show ?thesis by (simp add: kv bindR_bindR)
  qed
  then have e: "map (\<lambda>(k, v). bindR (toJSON mo v) (\<lambda>j. Ok (sanitize k, j))) (sort_key fst kvs) =
      map (\<lambda>x. bindR (?entry x) (\<lambda>y. Ok ((\<lambda>(k, v). (sanitize k, decodeTree v)) y))) (sort_key fst kvs)"
    by (intro map_cong refl)
  show ?case unfolding toJSON.simps marshalTree.simps e seqR_map_Ok by (simp add: bindR_bindR)
qed (auto simp: decodeObj_def split: option.splits)

section \<open>What can be marshalled\<close>

lemma isOk_bindR_Ok [simp]: "isOk (bindR r (\<lambda>x. Ok (f x))) = isOk r"
  by (cases r) simp_all

lemma isOk_seqR: "isOk (seqR rs) \<longleftrightarrow> list_all isOk rs"
  by (induction rs) (auto simp: isOk_iff)

text \<open>Whether a value marshals does not depend on the texts of its strings.\<close>

lemma isOk_marshalTree: "isOk (toJSON mo v) = isOk (marshalTree mo v)"
  by (induction mo v rule: toJSON.induct)
    (fastforce simp: isOk_seqR list_all_iff split: option.splits prod.splits)+

lemma isOk_structText [simp]: "isOk (structText fs) \<longleftrightarrow> list_all (\<lambda>f. isOk (snd f)) fs"
  by (simp add: structText_def isOk_seqR list_all_iff split_def)

lemma isOk_structTree [simp]: "isOk (structTree fs) \<longleftrightarrow> list_all (\<lambda>f. isOk (snd f)) fs"
  by (simp add: structTree_def isOk_seqR list_all_iff split_def)

lemma isOk_listTree [simp]: "isOk (listTree f xs) \<longleftrightarrow> list_all (\<lambda>x. isOk (f x)) xs"
  by (simp add: listTree_def isOk_seqR list_all_iff)

lemma isOk_omit [simp]: "list_all (\<lambda>f. isOk (snd f)) (omit b k r) \<longleftrightarrow> b \<or> isOk r"
  by (simp add: omit_def)

lemma isOk_texts [simp]: "isOk (strText s)" "isOk (strsText ss)" "isOk (descriptorsText d)"
  by (simp_all add: strText_def strsText_def descriptorsText_def split: descriptors.split)

definition configMarshals :: "mo \<Rightarrow> gomap \<Rightarrow> bool" where
  "configMarshals mo cfg \<longleftrightarrow> elems cfg = [] \<or> isOk (toJSON mo (VMap cfg))"

lemma isOk_componentText [simp]: "isOk (componentText mo c) \<longleftrightarrow> configMarshals mo (rcp_Config c)"
  by (simp add: componentText_def configMarshals_def isOk_marshalTree)

lemma isOk_refTree [simp]: "isOk (refTree mo ref) \<longleftrightarrow> configMarshals mo (cr_Config ref)"
  by (simp add: refTree_def configMarshals_def strTree_def)

lemma all_True: "list_all (\<lambda>x. True) xs"
  by (simp add: list_all_iff)

lemma isOk_manifestText:
  "isOk (manifestText mo stamp mf) \<longleftrightarrow>
     isOk (stamp (mf_BuiltAt mf)) \<and> list_all (\<lambda>c. configMarshals mo (rcp_Config c)) (mf_Resolved mf)"
  by (simp add: manifestText_def capabilitiesText_def attributionText_def all_True)

lemma refs_marshal:
  "list_all (\<lambda>f. isOk (snd f)) (refsTree mo k rs) \<longleftrightarrow> list_all (\<lambda>e. configMarshals mo (cr_Config e)) (elems rs)"
  by (cases "elems rs") (simp_all add: refsTree_def)

lemma ptr_marshal:
  "list_all (\<lambda>f. isOk (snd f)) (ptrTree (refTree mo) k ref) \<longleftrightarrow>
     (case ref of None \<Rightarrow> True | Some e \<Rightarrow> configMarshals mo (cr_Config e))"
  by (simp add: ptrTree_def split: option.split)

lemma composition_marshals:
  assumes "isOk (specTree mo (ex_Spec es))"
  shows "list_all (\<lambda>l. configMarshals mo (fst (snd (snd l)))) (composition es cred ident)"
proof -
  have refs: "list_all (\<lambda>l. configMarshals mo (fst (snd (snd l)))) (refListing kind injector refs) \<longleftrightarrow>
      list_all (\<lambda>e. configMarshals mo (cr_Config e)) refs" for kind injector refs
    by (simp add: refListing_def list_all_iff)
  have opt: "list_all (\<lambda>l. configMarshals mo (fst (snd (snd l)))) (optListing kind present ref) \<longleftrightarrow>
      (present \<longrightarrow> (case ref of None \<Rightarrow> True | Some (cid, cfg) \<Rightarrow> configMarshals mo cfg))" for kind present ref
    by (simp add: optListing_def split: option.split)
  have nil: "configMarshals mo None" by (simp add: configMarshals_def)
  show ?thesis using assms
    by (simp add: composition_def Let_def refs opt nil specTree_def refs_marshal ptr_marshal filtersTree_def promptTree_def refCfg_def
        split: option.splits)
qed

text \<open>
  A spec that has a canonical form has a manifest that can be persisted: if the expanded spec
  marshals, and the build time does, so does the manifest of every agent built from it.
\<close>

theorem manifest_marshals:
  assumes "buildFrozen mo orchNew now ctx ns m r = Ok ba" and "registry_wf r"
    and "expandSkills mo ctx (ns_Spec ns) r = Ok es" and "isOk (computeCanonicalJSON mo (ex_Spec es))"
    and "isOk (stamp (mf_BuiltAt (ba_Manifest ba)))"
  shows "isOk (manifestText mo stamp (ba_Manifest ba))"
proof -
  have "isOk (specTree mo (ex_Spec es))" using assms(4) by (auto simp: computeCanonicalJSON_def isOk_iff wrapErr_def split: result.splits)
  from composition_marshals[OF this] have "list_all (\<lambda>l. configMarshals mo (fst (snd (snd l)))) (map listing (mf_Resolved (ba_Manifest ba)))"
    using manifest_listing[OF assms(1,2)] assms(3) by (elim exE conjE) simp
  then show ?thesis using assms(5) by (simp add: isOk_manifestText list_all_iff listing_def)
qed

text \<open>A number without a JSON form anywhere in a configuration makes the manifest unmarshallable.\<close>

lemma nan_not_marshallable:
  "\<not> isOk (componentText mo (entry kind cid (Some [(k, VFloat64 0x7FF8000000000000)]) d by_skill))"
proof -
  have "floatLit 0x7FF8000000000000 = None" by (simp add: floatLit_def expBits_def)
  then show ?thesis by (simp add: configMarshals_def entry_def)
qed

end
