(* ===== verification/FactoryMCP.thy ===== *)
theory FactoryMCP
  imports SpecValidate Registry
begin

text \<open>
  The MCP binding factory (\<^verbatim>\<open>factories/mcpbinding\<close>): a dynamically typed
  configuration decoded into a \<^verbatim>\<open>registry.MCPBinding\<close>. \<open>fid\<close> is the id the factory
  was constructed with, which its errors name. The lemmas say what an accepted binding
  guarantees and how the factory's checks relate to those of \<^verbatim>\<open>validate_mcp.go\<close>.
\<close>

section \<open>Helpers\<close>

definition stringElem :: "nat \<Rightarrow> goval \<Rightarrow> string result" where
  "stringElem i el = (case as_string el of
      Some s \<Rightarrow> Ok s
    | None \<Rightarrow> Err (Errorf ''[%d]: want string, got %T'' [AInt (int i), AVal el]))"

text \<open>Appending no element to a nil slice leaves it nil.\<close>

definition stringList :: "goval \<Rightarrow> string slice result" where
  "stringList raw = (case raw of
      VNil \<Rightarrow> Ok None
    | VSlice v \<Rightarrow> bindR (loopR stringElem 0 (elems v)) (\<lambda>out. Ok (Some out))
    | VStrings v \<Rightarrow> Ok (if elems v = [] then None else Some (elems v))
    | _ \<Rightarrow> Err (Errorf ''want []string or []any, got %T'' [AVal raw]))"

definition stringMapEntry :: "nat \<Rightarrow> string \<times> goval \<Rightarrow> (string \<times> string) result" where
  "stringMapEntry i kv = (case as_string (snd kv) of
      Some s \<Rightarrow> Ok (fst kv, s)
    | None \<Rightarrow> Err (Errorf ''%q: want string, got %T'' [AStr (fst kv), AVal (snd kv)]))"

definition stringMap :: "goval \<Rightarrow> (string \<times> string) list option result" where
  "stringMap raw = (case raw of
      VNil \<Rightarrow> Ok None
    | VMap m \<Rightarrow> bindR (loopR stringMapEntry 0 (elems m)) (\<lambda>out. Ok (Some out))
    | _ \<Rightarrow> Err (Errorf ''want map[string]any, got %T'' [AVal raw]))"

definition stringOr :: "gomap \<Rightarrow> string \<Rightarrow> string \<Rightarrow> string" where
  "stringOr m key fallback = (case map_index m key of
      VString s \<Rightarrow> if s \<noteq> [] then s else fallback
    | _ \<Rightarrow> fallback)"

definition stringListOr :: "gomap \<Rightarrow> string \<Rightarrow> string slice" where
  "stringListOr m key = (case stringList (map_index m key) of Ok l \<Rightarrow> l | _ \<Rightarrow> None)"

section \<open>Decoding\<close>

definition decodeConnection :: "string \<Rightarrow> goval \<Rightarrow> MCPConnection result" where
  "decodeConnection fid raw = (case raw of
      VMap (Some kvs) \<Rightarrow>
        (let m = Some kvs; transport = string_or_empty (map_index m ''transport'') in
         if transport = ''stdio'' then
           (case stringList (map_index m ''command'') of
              Ok cmd \<Rightarrow>
                if length (elems cmd) = 0
                then Err (Errorf ''%s: connection.command: stdio transport requires non-empty command'' [AStr fid])
                else if string_or_empty (map_index m ''url'') \<noteq> []
                then Err (Errorf ''%s: connection.url: stdio transport must not set url'' [AStr fid])
                else bindR (wrapErr (\<lambda>err. Errorf ''%s: connection.env: %w'' [AStr fid, AWrap err]) (stringMap (map_index m ''env'')))
                  (\<lambda>env. Ok \<lparr>mc_Transport = MCPTransportStdio, mc_Command = cmd, mc_Env = env, mc_URL = [], mc_Headers = None\<rparr>)
            | _ \<Rightarrow> Err (Errorf ''%s: connection.command: stdio transport requires non-empty command'' [AStr fid]))
         else if transport = ''http'' then
           (let url = string_or_empty (map_index m ''url'') in
            if url = [] then Err (Errorf ''%s: connection.url: http transport requires url'' [AStr fid])
            else if length (elems (stringListOr m ''command'')) > 0
            then Err (Errorf ''%s: connection.command: http transport must not set command'' [AStr fid])
            else bindR (wrapErr (\<lambda>err. Errorf ''%s: connection.headers: %w'' [AStr fid, AWrap err]) (stringMap (map_index m ''headers'')))
              (\<lambda>headers. Ok \<lparr>mc_Transport = MCPTransportHTTP, mc_Command = None, mc_Env = None, mc_URL = url, mc_Headers = headers\<rparr>))
         else Err (Errorf ''%s: connection.transport %q: want stdio|http'' [AStr fid, AStr transport]))
    | _ \<Rightarrow> Err (Errorf ''%s: connection: required'' [AStr fid]))"

definition decodeAuth :: "string \<Rightarrow> goval \<Rightarrow> MCPAuth option result" where
  "decodeAuth fid raw = (case raw of
      VNil \<Rightarrow> Ok None
    | VMap m \<Rightarrow>
        (let credRef = string_or_empty (map_index m ''credentialRef'');
             scheme = string_or_empty (map_index m ''scheme'');
             headerName = string_or_empty (map_index m ''headerName'') in
         if credRef = [] then Err (Errorf ''%s: auth.credentialRef: required'' [AStr fid])
         else if scheme = [] then Err (Errorf ''%s: auth.scheme: required'' [AStr fid])
         else if scheme = ''api-key'' \<and> headerName = []
         then Err (Errorf ''%s: auth.headerName: required when scheme == api-key'' [AStr fid])
         else bindR (wrapErr (\<lambda>err. Errorf ''%s: auth.credentialRef: %w'' [AStr fid, AWrap err]) (RegistryParseID credRef))
           (\<lambda>parsed. Ok (Some \<lparr>ma_CredentialRef = parsed, ma_Scheme = scheme, ma_HeaderName = headerName\<rparr>)))
    | _ \<Rightarrow> Err (Errorf ''%s: auth: want map, got %T'' [AStr fid, AVal raw]))"

definition checkGlob :: "string \<Rightarrow> string \<Rightarrow> nat \<Rightarrow> string \<Rightarrow> unit result" where
  "checkGlob fid field i p = (case Match_empty p of
      Some err \<Rightarrow> Err (Errorf ''%s: %s[%d] %q: %w'' [AStr fid, AStr field, AInt (int i), AStr p, AWrap err])
    | None \<Rightarrow> Ok ())"

definition decodeGlobList :: "string \<Rightarrow> string \<Rightarrow> goval \<Rightarrow> string slice result" where
  "decodeGlobList fid field raw =
     (if raw = VNil then Ok None
      else bindR (wrapErr (\<lambda>err. Errorf ''%s: %s: %w'' [AStr fid, AStr field, AWrap err]) (stringList raw)) (\<lambda>list.
        bindR (loopR (checkGlob fid field) 0 (elems list)) (\<lambda>_. Ok list)))"

definition decodePolicyIDs :: "string \<Rightarrow> goval \<Rightarrow> string slice result" where
  "decodePolicyIDs fid raw =
     (if raw = VNil then Ok None
      else bindR (wrapErr (\<lambda>err. Errorf ''%s: policies: %w'' [AStr fid, AWrap err]) (stringList raw)) (\<lambda>list.
        bindR (loopR (\<lambda>i s. wrapErr (\<lambda>err. Errorf ''%s: policies[%d] %q: %w'' [AStr fid, AInt (int i), AStr s, AWrap err])
                 (RegistryParseID s)) 0 (elems list)) (\<lambda>out. Ok (Some out))))"

definition decodeTrust :: "string \<Rightarrow> goval \<Rightarrow> MCPTrust result" where
  "decodeTrust fid raw = (case raw of
      VMap (Some kvs) \<Rightarrow>
        (let m = Some kvs; tier = string_or_empty (map_index m ''tier''); owner = string_or_empty (map_index m ''owner'') in
         if tier = [] \<or> owner = [] then Err (Errorf ''%s: trust.tier and trust.owner: required'' [AStr fid])
         else bindR (wrapErr (\<lambda>err. Errorf ''%s: trust.tags: %w'' [AStr fid, AWrap err]) (stringList (map_index m ''tags'')))
           (\<lambda>tags. Ok \<lparr>mt_Tier = tier, mt_Owner = owner, mt_Tags = tags\<rparr>))
    | _ \<Rightarrow> Err (Errorf ''%s: trust: required'' [AStr fid]))"

definition decodeOnNewTool :: "string \<Rightarrow> goval \<Rightarrow> string result" where
  "decodeOnNewTool fid raw = (case raw of
      VString s \<Rightarrow>
        if s = [] then Ok OnNewToolBlock
        else if s = ''block'' then Ok OnNewToolBlock
        else if s = ''allow-if-match-allowlist'' then Ok OnNewToolAllowIfMatch
        else if s = ''require-reapproval'' then Ok OnNewToolRequireReapprove
        else Err (Errorf ''%s: onNewTool %q: want block|allow-if-match-allowlist|require-reapproval'' [AStr fid, AStr s])
    | _ \<Rightarrow> Ok OnNewToolBlock)"

definition mcp_Build :: "string \<Rightarrow> gomap \<Rightarrow> MCPBinding result" where
  "mcp_Build fid cfg =
     (if cfg = None then Err (Errorf ''%s: config required'' [AStr fid])
      else
        let bid = string_or_empty (map_index cfg ''id'') in
        if bid = [] then Err (Errorf ''%s: id: required'' [AStr fid])
        else
          bindR (decodeConnection fid (map_index cfg ''connection'')) (\<lambda>conn.
          bindR (decodeAuth fid (map_index cfg ''auth'')) (\<lambda>auth.
          bindR (decodeGlobList fid ''allow'' (map_index cfg ''allow'')) (\<lambda>allow.
          bindR (decodeGlobList fid ''deny'' (map_index cfg ''deny'')) (\<lambda>deny.
          bindR (decodePolicyIDs fid (map_index cfg ''policies'')) (\<lambda>policies.
          bindR (decodeTrust fid (map_index cfg ''trust'')) (\<lambda>trust.
          bindR (decodeOnNewTool fid (map_index cfg ''onNewTool'')) (\<lambda>onNewTool.
          Ok \<lparr>mb_ID = bid, mb_Connection = conn, mb_Auth = auth, mb_Allow = allow, mb_Deny = deny,
              mb_Policies = policies, mb_Trust = trust, mb_OnNewTool = onNewTool,
              mb_Descriptor = \<lparr>mbd_Name = stringOr cfg ''name'' ''generic-mcp-binding'',
                mbd_Summary = stringOr cfg ''summary'' ''generic MCP binding contract'',
                mbd_Tags = stringListOr cfg ''tags''\<rparr>\<rparr>))))))))"

definition mcpFactory :: "string \<Rightarrow> MCPBinding Factory" where
  "mcpFactory fid = \<lparr>f_ID = fid, f_Description = ''generic MCP binding contract (stdio or streamable-HTTP)'',
     f_Build = (\<lambda>_. mcp_Build fid)\<rparr>"


section \<open>What decoding accepts\<close>

lemma stringElem_Ok [simp]: "stringElem i v = Ok s \<longleftrightarrow> v = VString s"
  by (cases v) (auto simp: stringElem_def as_string_def)

lemma stringElems_Ok: "loopR stringElem i vs = Ok out \<longleftrightarrow> vs = map VString out"
  by (induction vs arbitrary: i out) (auto simp: Cons_eq_map_conv)

text \<open>The factory reads a list of strings the way the validator reads a list of anything.\<close>

lemma stringList_anyList:
  "stringList (map_index m k) = Ok l \<Longrightarrow> elems (anyListAt m k) = map VString (elems l)"
  by (cases "map_index m k") (auto simp: stringList_def anyListAt_def stringElems_Ok)

lemma stringList_noPanic: "noPanic (stringList v)"
  by (cases v) (auto simp: stringList_def stringElem_def intro!: loopR_noPanic split: option.split)

lemma stringMap_noPanic: "noPanic (stringMap v)"
  by (cases v) (auto simp: stringMap_def stringMapEntry_def intro!: loopR_noPanic split: option.split)

lemma loopR_unit_Ok:
  "loopR f i xs = Ok us \<Longrightarrow> x \<in> set xs \<Longrightarrow> \<exists>j u. f j x = Ok u"
  by (induction xs arbitrary: i us) auto

lemma decodeGlobList_Ok:
  assumes "decodeGlobList fid field (map_index m k) = Ok l"
  shows "list_all (\<lambda>p. Match_empty p = None) (elems l)" "list_all valid_glob (elems (anyListAt m k))"
proof -
  show g: "list_all (\<lambda>p. Match_empty p = None) (elems l)"
    using assms
    by (auto simp: decodeGlobList_def list_all_iff checkGlob_def split: if_splits option.splits dest: loopR_unit_Ok)
  have "elems (anyListAt m k) = map VString (elems l)"
  proof (cases "map_index m k = VNil")
    case True
    with assms show ?thesis by (simp add: decodeGlobList_def anyListAt_def)
  next
    case False
    with assms show ?thesis by (auto simp: decodeGlobList_def dest: stringList_anyList)
  qed
  with g show "list_all valid_glob (elems (anyListAt m k))"
    by (auto simp: list_all_iff valid_glob_def as_string_def)
qed

lemma decodePolicyIDs_Ok: "decodePolicyIDs fid raw = Ok l \<Longrightarrow> list_all valid_id (elems l)"
proof -
  have "list_all valid_id out" if "loopR (\<lambda>i s. wrapErr (g i s) (RegistryParseID s)) j xs = Ok out" for g j xs out
    using that by (induction xs arbitrary: j out) auto
  then show "decodePolicyIDs fid raw = Ok l \<Longrightarrow> list_all valid_id (elems l)"
    by (auto simp: decodePolicyIDs_def split: if_splits)
qed

definition auth_ok :: "MCPAuth option \<Rightarrow> bool" where
  "auth_ok a = (case a of None \<Rightarrow> True | Some au \<Rightarrow> valid_id (ma_CredentialRef au) \<and> ma_Scheme au \<noteq> [] \<and>
     (ma_Scheme au = ''api-key'' \<longrightarrow> ma_HeaderName au \<noteq> []))"

lemma decodeAuth_Ok:
  assumes "decodeAuth fid (map_index cfg ''auth'') = Ok a"
  shows "auth_ok a" "valid_auth (mapAt cfg ''auth'')"
  using assms
  by (auto simp: decodeAuth_def auth_ok_def valid_auth_def mapAt_def stringAt_def Let_def split: goval.splits if_splits)

definition connection_ok :: "MCPConnection \<Rightarrow> bool" where
  "connection_ok c \<longleftrightarrow>
     (mc_Transport c = ''stdio'' \<and> elems (mc_Command c) \<noteq> [] \<and> mc_URL c = [] \<and> mc_Headers c = None) \<or>
     (mc_Transport c = ''http'' \<and> mc_URL c \<noteq> [] \<and> mc_Command c = None \<and> mc_Env c = None)"

text \<open>
  The one place where the factory is laxer than the validator: under http, a command it
  cannot decode counts as no command.
\<close>

definition command_decodes :: "gomap \<Rightarrow> bool" where
  "command_decodes cfg \<longleftrightarrow> isOk (stringList (map_index (mapAt cfg ''connection'') ''command''))"

lemma decodeConnection_Ok:
  assumes "decodeConnection fid (map_index cfg ''connection'') = Ok c"
  shows "connection_ok c" "command_decodes cfg \<Longrightarrow> valid_connection (mapAt cfg ''connection'')"
proof -
  obtain kvs where kvs: "map_index cfg ''connection'' = VMap (Some kvs)"
    using assms by (auto simp: decodeConnection_def split: goval.splits option.splits)
  have cmd: "elems (stringListOr (Some kvs) ''command'') = [] \<Longrightarrow> elems (anyListAt (Some kvs) ''command'') = []"
    if "isOk (stringList (map_index (Some kvs) ''command''))"
    using that stringList_anyList[of "Some kvs" "''command''"] by (auto simp: isOk_iff stringListOr_def)
  show "connection_ok c"
    using assms unfolding kvs
    by (auto simp: decodeConnection_def connection_ok_def Let_def split: if_splits result.splits)
  show "valid_connection (mapAt cfg ''connection'')" if "command_decodes cfg"
  proof (cases "stringAt (Some kvs) ''transport'' = ''stdio''")
    case True
    with assms stringList_anyList[of "Some kvs" "''command''"] show ?thesis unfolding kvs
      by (auto simp: decodeConnection_def valid_connection_def mapAt_def kvs stringAt_def Let_def
          split: if_splits result.splits)
  next
    case False
    with assms cmd that show ?thesis unfolding kvs
      by (auto simp: decodeConnection_def valid_connection_def command_decodes_def mapAt_def kvs stringAt_def Let_def
          split: if_splits)
  qed
qed

lemma decodeTrust_Ok: "decodeTrust fid raw = Ok t \<Longrightarrow> mt_Tier t \<noteq> [] \<and> mt_Owner t \<noteq> []"
  by (auto simp: decodeTrust_def Let_def split: goval.splits option.splits if_splits)

definition onNewToolPolicies :: "string set" where
  "onNewToolPolicies = {OnNewToolBlock, OnNewToolAllowIfMatch, OnNewToolRequireReapprove}"

lemma decodeOnNewTool_Ok:
  assumes "decodeOnNewTool fid (map_index cfg ''onNewTool'') = Ok p"
  shows "p \<in> onNewToolPolicies" "valid_on_new_tool (stringAt cfg ''onNewTool'')"
    "stringAt cfg ''onNewTool'' = [] \<Longrightarrow> p = ''block''"
  using assms
  by (auto simp: decodeOnNewTool_def onNewToolPolicies_def valid_on_new_tool_def stringAt_def string_or_empty_def
      as_string_def split: goval.splits if_splits)

lemma mcp_Build_Ok:
  assumes "mcp_Build fid cfg = Ok b"
  shows "mb_ID b = stringAt cfg ''id''" "mb_ID b \<noteq> []"
    "decodeConnection fid (map_index cfg ''connection'') = Ok (mb_Connection b)"
    "decodeAuth fid (map_index cfg ''auth'') = Ok (mb_Auth b)"
    "decodeGlobList fid ''allow'' (map_index cfg ''allow'') = Ok (mb_Allow b)"
    "decodeGlobList fid ''deny'' (map_index cfg ''deny'') = Ok (mb_Deny b)"
    "decodePolicyIDs fid (map_index cfg ''policies'') = Ok (mb_Policies b)"
    "decodeTrust fid (map_index cfg ''trust'') = Ok (mb_Trust b)"
    "decodeOnNewTool fid (map_index cfg ''onNewTool'') = Ok (mb_OnNewTool b)"
  using assms by (auto simp: mcp_Build_def stringAt_def Let_def split: if_splits)

lemma mcp_Build_noPanic: "noPanic (mcp_Build fid cfg)"
proof -
  have "noPanic (decodeConnection fid v)" for v
    using stringList_noPanic stringMap_noPanic
    by (cases v) (auto simp: decodeConnection_def Let_def split: option.split result.split)
  moreover have "noPanic (RegistryParseID s)" for s by (simp add: RegistryParseID_def noPanic_bindR)
  then have "noPanic (decodeAuth fid v)" "noPanic (decodePolicyIDs fid v)" for v
    using stringList_noPanic
    by (cases v; auto simp: decodeAuth_def decodePolicyIDs_def Let_def intro!: noPanic_bindR loopR_noPanic)+
  moreover have "noPanic (decodeGlobList fid k v)" for k v
    using stringList_noPanic
    by (auto simp: decodeGlobList_def checkGlob_def intro!: noPanic_bindR loopR_noPanic split: option.split)
  moreover have "noPanic (decodeTrust fid v)" "noPanic (decodeOnNewTool fid v)" for v
    using stringList_noPanic
    by (cases v; auto simp: decodeTrust_def decodeOnNewTool_def Let_def split: option.split)+
  ultimately show ?thesis by (auto simp: mcp_Build_def Let_def intro!: noPanic_bindR)
qed

section \<open>Properties\<close>

text \<open>C27. A binding the MCP factory accepts is a complete contract: it names itself, uses exactly
  one transport with that transport's fields, carries only well-formed globs, policy ids and
  credential ids, names a trust tier and owner, and falls back to blocking new tools. Its
  configuration also passes the validator's structural checks, unless http is combined with
  a command that is not a list of strings.\<close>

theorem mcp_binding_contract:
  assumes "mcp_Build fid cfg = Ok b"
  shows "mb_ID b \<noteq> [] \<and> connection_ok (mb_Connection b) \<and> auth_ok (mb_Auth b) \<and>
    list_all (\<lambda>p. Match_empty p = None) (elems (mb_Allow b) @ elems (mb_Deny b)) \<and>
    list_all valid_id (elems (mb_Policies b)) \<and>
    mt_Tier (mb_Trust b) \<noteq> [] \<and> mt_Owner (mb_Trust b) \<noteq> [] \<and>
    mb_OnNewTool b \<in> onNewToolPolicies \<and> (stringAt cfg ''onNewTool'' = [] \<longrightarrow> mb_OnNewTool b = ''block'') \<and>
    (command_decodes cfg \<longrightarrow> valid_mcp_body cfg)"
proof -
  note ok = mcp_Build_Ok[OF assms]
  show ?thesis
    using ok(2) decodeConnection_Ok[OF ok(3)] decodeAuth_Ok[OF ok(4)] decodeGlobList_Ok[OF ok(5)] decodeGlobList_Ok[OF ok(6)]
      decodePolicyIDs_Ok[OF ok(7)] decodeTrust_Ok[OF ok(8)] decodeOnNewTool_Ok[OF ok(9)]
    by (simp add: valid_mcp_body_def)
qed

definition sampleMCP :: gomap where
  "sampleMCP = Some [(''id'', VString ''docs''),
     (''connection'', VMap (Some [(''transport'', VString ''stdio''), (''command'', VSlice (Some [VString ''srv'']))])),
     (''allow'', VSlice (Some [VString ''read_*''])),
     (''trust'', VMap (Some [(''tier'', VString ''internal''), (''owner'', VString ''core'')]))]"

theorem mcp_binding_contract_witness:
  "\<exists>b. mcp_Build ''mcp.binding@1.0.0'' sampleMCP = Ok b \<and> mb_OnNewTool b = ''block'' \<and> valid_mcp_body sampleMCP"
proof -
  have "isOk (mcp_Build ''mcp.binding@1.0.0'' sampleMCP)" by code_simp
  then obtain b where b: "mcp_Build ''mcp.binding@1.0.0'' sampleMCP = Ok b" unfolding isOk_iff by blast
  have "stringAt sampleMCP ''onNewTool'' = []" "command_decodes sampleMCP" by code_simp+
  with mcp_binding_contract[OF b] b show ?thesis by blast
qed

end
