(* ===== verification/GoConv.thy ===== *)
theory GoConv
  imports GoJson
begin

text \<open>
  Conversion of a dynamically typed number to Go's \<^verbatim>\<open>int\<close>, which has 64 bits on the
  platforms forge targets. A \<^verbatim>\<open>float64\<close> is truncated toward zero; the language leaves
  the result of a conversion out of range (and of NaN and the infinities) to the
  implementation, which is the argument \<open>oor\<close>.
\<close>

definition negative :: "64 word \<Rightarrow> bool" where
  "negative w \<longleftrightarrow> 2 ^ 63 \<le> unat w"

definition truncated :: "64 word \<Rightarrow> int" where
  "truncated w = (let (n, d) = scaled (mantissa w) (binExp w); t = int (n div d) in if negative w then - t else t)"

definition floatToInt :: "(64 word \<Rightarrow> int64) \<Rightarrow> 64 word \<Rightarrow> int64" where
  "floatToInt oor w =
     (if expBits w \<noteq> 2047 \<and> - (2 ^ 63) \<le> truncated w \<and> truncated w < 2 ^ 63
      then word_of_int (truncated w) else oor w)"

definition numberToInt :: "(64 word \<Rightarrow> int64) \<Rightarrow> goval \<Rightarrow> int64 option" where
  "numberToInt oor v = (case v of
      VInt x \<Rightarrow> Some x
    | VInt64 x \<Rightarrow> Some x
    | VFloat64 f \<Rightarrow> Some (floatToInt oor f)
    | _ \<Rightarrow> None)"

lemma sint_word_of_int64: "- (2 ^ 63) \<le> i \<Longrightarrow> i < 2 ^ 63 \<Longrightarrow> sint (word_of_int i :: int64) = i"
  by (simp add: signed_of_int signed_take_bit_int_eq_self)

lemma floatToInt_exact:
  "expBits w \<noteq> 2047 \<Longrightarrow> - (2 ^ 63) \<le> truncated w \<Longrightarrow> truncated w < 2 ^ 63 \<Longrightarrow>
     sint (floatToInt oor w) = truncated w"
  by (simp add: floatToInt_def sint_word_of_int64)

end
