(* ===== verification/FactoryFilters.thy ===== *)
theory FactoryFilters
  imports GoRegexp BuildChains GoConv
begin

text \<open>
  The filters of the vertical slice: \<^verbatim>\<open>filtersecretscrubber\<close> (before the model is
  called), \<^verbatim>\<open>filterpathescape\<close> (before a tool is called) and
  \<^verbatim>\<open>filteroutputtruncate\<close> (after a tool returned). Their output has the shape
  the filter chains of \<^verbatim>\<open>build\<close> consume.

  The roles are the constants of praxis' \<^verbatim>\<open>llm\<close> package, which differ from each other;
  \<open>RoleOther\<close> is any other role. A message part keeps, beside the type and text the filter reads, its other fields as
  one value of type \<open>'x\<close>.
\<close>

section \<open>Messages\<close>

datatype msgRole = RoleSystem | RoleUser | RoleAssistant | RoleOther string

datatype partType = PartTypeText | PartTypeOther string

record 'x MessagePart =
  mp_Type :: partType
  mp_Text :: string
  mp_other :: 'x

record 'x Message =
  msg_Role :: msgRole
  msg_Parts :: "'x MessagePart slice"

section \<open>filtersecretscrubber\<close>

definition is_alnum :: "char \<Rightarrow> bool" where
  "is_alnum c \<longleftrightarrow> is_upper c \<or> is_lower c \<or> is_digit c"

definition is_upnum :: "char \<Rightarrow> bool" where
  "is_upnum c \<longleftrightarrow> is_digit c \<or> is_upper c"

definition patterns :: "regex list" where
  "patterns =
     [Seq (lits ''sk-'') (Seq (rep 16 (Cls is_alnum)) (Star (Cls is_alnum))),
      Seq (lits ''ghp_'') (Seq (rep 20 (Cls is_alnum)) (Star (Cls is_alnum))),
      Seq (lits ''AKIA'') (rep 16 (Cls is_upnum))]"

text \<open>
  \<^verbatim>\<open>ReplaceAllString\<close> together with the number of matches
  \<^verbatim>\<open>FindAllStringIndex(s, -1)\<close> reports, for a pattern without empty matches and a
  replacement without \<^verbatim>\<open>$\<close>: the leftmost match is taken at its highest-priority end,
  and the search resumes there.
\<close>

function replaceAll :: "regex \<Rightarrow> string \<Rightarrow> pos \<Rightarrow> string \<times> nat" where
  "replaceAll r repl x =
     (case snd x of
        [] \<Rightarrow> ([], 0)
      | c # cs \<Rightarrow>
          (case mt r x of
             y # _ \<Rightarrow>
               if length (snd y) < length (snd x)
               then (let (out, n) = replaceAll r repl y in (repl @ out, Suc n))
               else (let (out, n) = replaceAll r repl (Some c, cs) in (c # out, n))
           | [] \<Rightarrow> (let (out, n) = replaceAll r repl (Some c, cs) in (c # out, n))))"
  by pat_completeness auto
termination
  by (relation "measure (\<lambda>(_, _, x). length (snd x))") auto

declare replaceAll.simps [simp del]

definition redacted :: string where
  "redacted = ''[REDACTED]''"

fun scrubLoop :: "regex list \<Rightarrow> string \<times> nat \<Rightarrow> string \<times> nat" where
  "scrubLoop [] st = st"
| "scrubLoop (p # ps) (out, hits) =
     (let (out', n) = replaceAll p redacted (None, out)
      in scrubLoop ps (if n > 0 then (out', hits + n) else (out, hits)))"

definition scrub :: "string \<Rightarrow> string \<times> nat" where
  "scrub s = scrubLoop patterns (s, 0)"

definition scrubPart :: "'x MessagePart \<Rightarrow> 'x MessagePart \<times> nat" where
  "scrubPart p = (if mp_Type p = PartTypeText then (let (t, hits) = scrub (mp_Text p) in (p\<lparr>mp_Text := t\<rparr>, hits)) else (p, 0))"

definition scrubMessage :: "'x Message \<Rightarrow> 'x Message \<times> FilterDecision list" where
  "scrubMessage m =
     (let ps = map scrubPart (elems (msg_Parts m)); msgHits = sum_list (map snd ps)
      in (\<lparr>msg_Role = msg_Role m, msg_Parts = Some (map fst ps)\<rparr>,
          if msgHits > 0 then [\<lparr>fd_Action = FilterActionRedact, fd_Field = [], fd_Reason = ''secret pattern redacted''\<rparr>] else []))"

definition secretScrubber_Filter :: "('c, 'x Message slice) Filter" where
  "secretScrubber_Filter ctx msgs =
     (let ms = map scrubMessage (elems msgs) in (Some (map fst ms), concat (map snd ms), None))"

section \<open>filterpathescape\<close>

text \<open>\<^verbatim>\<open>bytes.Contains\<close>.\<close>

fun containsSub :: "string \<Rightarrow> string \<Rightarrow> bool" where
  "containsSub s sub = (hasPrefix s sub \<or> (case s of [] \<Rightarrow> False | _ # cs \<Rightarrow> containsSub cs sub))"

definition needle :: string where
  "needle = ''../''"

definition pathEscape_Filter :: "('c, ToolCall) Filter" where
  "pathEscape_Filter ctx call =
     (if containsSub (tc_ArgumentsJSON call) needle
      then (call, [\<lparr>fd_Action = FilterActionBlock, fd_Field = [],
                    fd_Reason = ''path traversal '' @ [CHR 0x27] @ ''../'' @ [CHR 0x27] @ '' in tool arguments''\<rparr>], None)
      else (call, [], None))"


section \<open>filteroutputtruncate\<close>

definition requireInt :: "(64 word \<Rightarrow> int64) \<Rightarrow> gomap \<Rightarrow> string \<Rightarrow> int64 result" where
  "requireInt oor cfg key =
     (case map_lookup cfg key of
        None \<Rightarrow> Err (Errorf ''%s: required'' [AStr key])
      | Some raw \<Rightarrow> (case numberToInt oor raw of
            Some n \<Rightarrow> Ok n
          | None \<Rightarrow> Err (Errorf ''%s: want int, got %T'' [AStr key, AVal raw])))"

definition outputTruncate_Build :: "(64 word \<Rightarrow> int64) \<Rightarrow> string \<Rightarrow> gomap \<Rightarrow> int64 result" where
  "outputTruncate_Build oor fid cfg =
     bindR (wrapErr (\<lambda>err. Errorf ''%s: %w'' [AStr fid, AWrap err]) (requireInt oor cfg ''maxBytes''))
       (\<lambda>n. if \<not> int64_gt n 0 then Err (Errorf ''%s: maxBytes must be > 0'' [AStr fid]) else Ok n)"

text \<open>The reason is formatted; \<open>decInt\<close> renders its two numbers.\<close>

definition truncateReason :: "nat \<Rightarrow> int64 \<Rightarrow> string" where
  "truncateReason orig maxBytes =
     ''truncated tool output from '' @ decInt (int orig) @ '' to '' @ decInt (sint maxBytes) @ '' bytes''"

definition outputTruncate_Filter :: "int64 \<Rightarrow> ('c, ToolResult) Filter" where
  "outputTruncate_Filter maxBytes ctx r =
     (if int (length (tr_Content r)) \<le> sint maxBytes then (r, [], None)
      else (r\<lparr>tr_Content := take (nat (sint maxBytes)) (tr_Content r)\<rparr>,
            [\<lparr>fd_Action = FilterActionLog, fd_Field = [], fd_Reason = truncateReason (length (tr_Content r)) maxBytes\<rparr>], None))"

section \<open>Scrubbing\<close>

text \<open>
  A word is opaque to redaction when it shares no character with the brackets and does not
  occur inside them: then it cannot be created by a replacement.
\<close>

definition opaque :: "string \<Rightarrow> bool" where
  "opaque u \<longleftrightarrow> CHR ''['' \<notin> set u \<and> CHR '']'' \<notin> set u \<and> \<not> (\<exists>a b. ''REDACTED'' = a @ u @ b)"

lemma replaceAll_end: "replaceAll r repl (p, []) = ([], 0)"
  by (subst replaceAll.simps) simp

lemma replaceAll_hit:
  assumes "mt r x = y # ys" "length (snd y) < length (snd x)"
  shows "replaceAll r repl x = (repl @ fst (replaceAll r repl y), Suc (snd (replaceAll r repl y)))"
  using assms by (subst replaceAll.simps) (auto split: list.split prod.split)

definition missed :: "regex \<Rightarrow> pos \<Rightarrow> bool" where
  "missed r x \<longleftrightarrow> (case mt r x of [] \<Rightarrow> True | y # _ \<Rightarrow> \<not> length (snd y) < length (snd x))"

lemma replaceAll_miss:
  assumes "missed r (p, c # cs)"
  shows "replaceAll r repl (p, c # cs) = (c # fst (replaceAll r repl (Some c, cs)), snd (replaceAll r repl (Some c, cs)))"
  using assms by (subst replaceAll.simps) (auto simp: missed_def split: list.splits prod.split)

lemma replaceAll_cases:
  obtains (finished) p where "x = (p, [])"
    | (hit) y ys where "mt r x = y # ys" "length (snd y) < length (snd x)"
    | (miss) p c cs where "x = (p, c # cs)" "missed r x"
proof (cases x)
  case (Pair p s)
  show ?thesis
  proof (cases s)
    case Nil
    with Pair finished show ?thesis by blast
  next
    case (Cons c cs)
    show ?thesis
    proof (cases "missed r x")
      case True
      with Pair Cons miss show ?thesis by blast
    next
      case False
      then show ?thesis using hit by (auto simp: missed_def split: list.splits)
    qed
  qed
qed

text \<open>A bracket-free prefix of the output is a prefix of the input.\<close>

lemma replaceAll_prefix:
  "fst (replaceAll r redacted x) = u @ b \<Longrightarrow> CHR ''['' \<notin> set u \<Longrightarrow> \<exists>b'. snd x = u @ b'"
proof (induction x arbitrary: u b rule: measure_induct_rule[where f = "\<lambda>x. length (snd x)"])
  case (less x)
  show ?case
  proof (cases rule: replaceAll_cases[where x = x and r = r])
    case finished
    with less.prems show ?thesis by (simp add: replaceAll_end)
  next
    case hit
    with less.prems show ?thesis by (cases u) (auto simp: replaceAll_hit redacted_def)
  next
    case (miss p c cs)
    show ?thesis
    proof (cases u)
      case (Cons d u')
      with less.prems miss have "fst (replaceAll r redacted (Some c, cs)) = u' @ b" "d = c" "CHR ''['' \<notin> set u'"
        by (auto simp: replaceAll_miss)
      with less.IH[of "(Some c, cs)"] miss Cons show ?thesis by auto
    qed simp
  qed
qed

text \<open>Where a bracket-free word would start inside a replacement.\<close>

lemma redacted_split:
  assumes "redacted @ o1 = a @ u @ b" "u \<noteq> []" "opaque u"
  shows "\<exists>a'. o1 = a' @ u @ b"
proof (cases "length a < length redacted")
  case True
  from assms(1) consider c where "redacted = a @ c" "c @ o1 = u @ b" | c where "redacted @ c = a" "o1 = c @ u @ b"
    by (auto simp: append_eq_append_conv2)
  then show ?thesis
  proof cases
    case 1
    then consider d where "c = u @ d" "d @ o1 = b" | d where "c @ d = u" "o1 = d @ b"
      by (auto simp: append_eq_append_conv2)
    then show ?thesis
    proof cases
      case 1
      have r: "CHR ''['' # ''REDACTED'' @ [CHR '']''] = a @ u @ d"
        using 1 \<open>redacted = a @ c\<close> by (simp add: redacted_def)
      with assms(2,3) obtain a1 where a1: "a = CHR ''['' # a1" by (cases a; cases u) (auto simp: opaque_def)
      have "d \<noteq> []"
      proof
        assume "d = []"
        with r have "last (CHR ''['' # ''REDACTED'' @ [CHR '']'']) = last u" using assms(2) by (simp add: last_append)
        with assms(2,3) show False by (auto simp: opaque_def dest: last_in_set)
      qed
      then obtain d1 e where d1: "d = d1 @ [e]" by (cases d rule: rev_cases) auto
      from r have "''REDACTED'' @ [CHR '']''] = (a1 @ u @ d1) @ [e]" unfolding a1 d1 by simp
      then have "''REDACTED'' = a1 @ u @ d1" by (simp only: append1_eq_conv)
      with assms(3) show ?thesis by (auto simp: opaque_def)
    next
      case 2
      with True \<open>redacted = a @ c\<close> have "c \<noteq> []" by auto
      then have "last c = last redacted" using \<open>redacted = a @ c\<close> by (metis last_appendR)
      then have "CHR '']'' \<in> set u" using 2 \<open>c \<noteq> []\<close> last_in_set[of c] by (auto simp: redacted_def)
      with assms(3) show ?thesis by (simp add: opaque_def)
    qed
  next
    case 2
    then show ?thesis by blast
  qed
next
  case False
  then have "length redacted \<le> length a" by simp
  with assms(1) have "drop (length redacted) (redacted @ o1) = drop (length redacted) a @ u @ b" by simp
  then show ?thesis by auto
qed

text \<open>An opaque word of the output was in the input, at a place the search passed over.\<close>

lemma replaceAll_source:
  "fst (replaceAll r redacted x) = a @ u @ b \<Longrightarrow> u \<noteq> [] \<Longrightarrow> opaque u \<Longrightarrow>
     \<exists>a' b' p. snd x = a' @ u @ b' \<and> missed r (p, u @ b')"
proof (induction x arbitrary: a rule: measure_induct_rule[where f = "\<lambda>x. length (snd x)"])
  case (less x)
  show ?case
  proof (cases rule: replaceAll_cases[where x = x and r = r])
    case finished
    with less.prems show ?thesis by (simp add: replaceAll_end)
  next
    case (hit y ys)
    from less.prems(1) hit have "redacted @ fst (replaceAll r redacted y) = a @ u @ b" by (simp add: replaceAll_hit)
    from redacted_split[OF this less.prems(2,3)] obtain a' where "fst (replaceAll r redacted y) = a' @ u @ b" by blast
    from less.IH[OF hit(2) this less.prems(2,3)] obtain a'' b' p where "snd y = a'' @ u @ b'" "missed r (p, u @ b')" by blast
    moreover obtain w where "snd x = w @ snd y" using mt_suffix[of y r x] hit(1) by auto
    ultimately show ?thesis by (metis append_assoc)
  next
    case (miss p c cs)
    show ?thesis
    proof (cases a)
      case Nil
      have "CHR ''['' \<notin> set u" using less.prems(3) by (simp add: opaque_def)
      with replaceAll_prefix[of r x u b] less.prems(1) Nil obtain b' where "snd x = u @ b'" by auto
      with miss show ?thesis by (metis append_Nil snd_conv)
    next
      case (Cons d a')
      with less.prems(1) miss have "fst (replaceAll r redacted (Some c, cs)) = a' @ u @ b" by (auto simp: replaceAll_miss)
      from less.IH[OF _ this less.prems(2,3)] miss obtain a'' b' p' where "cs = a'' @ u @ b'" "missed r (p', u @ b')" by auto
      with miss show ?thesis by (metis append_Cons snd_conv)
    qed
  qed
qed

text \<open>\<open>occurs r s\<close>: some part of \<open>s\<close> is in the language of \<open>r\<close>.\<close>

definition occurs :: "regex \<Rightarrow> string \<Rightarrow> bool" where
  "occurs r s \<longleftrightarrow> (\<exists>a u b. s = a @ u @ b \<and> u \<in> lang r)"

definition opaqueRegex :: "regex \<Rightarrow> bool" where
  "opaqueRegex r \<longleftrightarrow> boundary_free r \<and> (\<forall>u \<in> lang r. u \<noteq> [] \<and> opaque u)"

lemma replaceAll_occurs:
  assumes "opaqueRegex q" "occurs q (fst (replaceAll r redacted (p, s)))"
  shows "occurs q s"
  using assms replaceAll_source[of r "(p, s)"] unfolding occurs_def opaqueRegex_def by (metis snd_conv)

lemma opaque_not_missed:
  assumes "opaqueRegex r" "u \<in> lang r"
  shows "\<not> missed r (p, u @ b)"
proof -
  obtain q where "(q, b) \<in> set (mt r (p, u @ b))" using mt_complete[OF assms(2)] by blast
  then obtain y ys where y: "mt r (p, u @ b) = y # ys" by (cases "mt r (p, u @ b)") auto
  have "\<exists>w \<in> lang r. u @ b = w @ snd y" using mt_sound[of r y "(p, u @ b)"] assms(1) y by (auto simp: opaqueRegex_def)
  then show ?thesis using assms(1) y by (auto simp: missed_def opaqueRegex_def dest!: bspec) (metis length_append length_greater_0_conv less_add_same_cancel2)
qed

lemma replaceAll_removes:
  assumes "opaqueRegex r"
  shows "\<not> occurs r (fst (replaceAll r redacted (p, s)))"
proof
  assume "occurs r (fst (replaceAll r redacted (p, s)))"
  then obtain a u b where u: "fst (replaceAll r redacted (p, s)) = a @ u @ b" "u \<in> lang r" by (auto simp: occurs_def)
  with assms have "u \<noteq> []" "opaque u" by (auto simp: opaqueRegex_def)
  from replaceAll_source[OF u(1) this] obtain b' p' where "missed r (p', u @ b')" by blast
  with opaque_not_missed[OF assms u(2)] show False by blast
qed

text \<open>No match, no change; and a match changes the text.\<close>

lemma replaceAll_none: "snd (replaceAll r redacted x) = 0 \<Longrightarrow> fst (replaceAll r redacted x) = snd x"
proof (induction x rule: measure_induct_rule[where f = "\<lambda>x. length (snd x)"])
  case (less x)
  show ?case
  proof (cases rule: replaceAll_cases[where x = x and r = r])
    case (miss p c cs)
    with less show ?thesis by (simp add: replaceAll_miss)
  qed (use less.prems in \<open>simp_all add: replaceAll_end replaceAll_hit\<close>)
qed


section \<open>The three patterns\<close>

lemma lang_secret:
  "lang (Seq (lits w) (Seq (rep n (Cls P)) (Star (Cls P)))) = {w @ v |v. n \<le> length v \<and> list_all P v}"
proof -
  have "{u @ v |u v. (length u = n \<and> list_all P u) \<and> list_all P v} = {v. n \<le> length v \<and> list_all P v}"
  proof (intro set_eqI iffI)
    fix v assume "v \<in> {v. n \<le> length v \<and> list_all P v}"
    then have "v = take n v @ drop n v" "length (take n v) = n" "list_all P (take n v)" "list_all P (drop n v)"
      by (auto simp: list_all_iff dest: in_set_takeD in_set_dropD)
    then show "v \<in> {u @ v |u v. (length u = n \<and> list_all P u) \<and> list_all P v}" by blast
  qed (auto simp: list_all_iff)
  then show ?thesis by (simp add: lang_rep_Cls star_class)
qed

lemma class_no_brackets:
  "list_all is_alnum v \<Longrightarrow> CHR ''['' \<notin> set v \<and> CHR '']'' \<notin> set v"
  "list_all is_upnum v \<Longrightarrow> CHR ''['' \<notin> set v \<and> CHR '']'' \<notin> set v"
  by (auto simp: list_all_iff is_alnum_def is_upnum_def is_digit_def is_lower_def is_upper_def in_range_def)

lemma long_opaque:
  assumes "CHR ''['' \<notin> set u" "CHR '']'' \<notin> set u" "8 < length u"
  shows "opaque u"
proof -
  have "''REDACTED'' \<noteq> a @ u @ b" for a b
  proof
    assume "''REDACTED'' = a @ u @ b"
    from arg_cong[OF this, of length] assms(3) show False by simp
  qed
  with assms show ?thesis by (simp add: opaque_def)
qed

lemma patterns_opaque: "r \<in> set patterns \<Longrightarrow> opaqueRegex r"
proof -
  have sk: "opaque (''sk-'' @ v)" "opaque (''ghp_'' @ v)" if "16 \<le> length v" "list_all is_alnum v" for v
    using that class_no_brackets(1)[OF that(2)] by (auto intro!: long_opaque)
  moreover have "opaque (''AKIA'' @ v)" if "length v = 16" "list_all is_upnum v" for v
    using that class_no_brackets(2)[OF that(2)] by (auto intro!: long_opaque)
  ultimately have "opaqueRegex (Seq (lits ''sk-'') (Seq (rep 16 (Cls is_alnum)) (Star (Cls is_alnum))))"
    "opaqueRegex (Seq (lits ''ghp_'') (Seq (rep 20 (Cls is_alnum)) (Star (Cls is_alnum))))"
    "opaqueRegex (Seq (lits ''AKIA'') (rep 16 (Cls is_upnum)))"
    unfolding opaqueRegex_def lang_secret by (auto simp: lang_rep_Cls)
  then show "r \<in> set patterns \<Longrightarrow> opaqueRegex r" by (auto simp only: patterns_def list.set insert_iff empty_iff)
qed

lemma scrubLoop_clean:
  assumes "\<And>r. r \<in> set rs \<Longrightarrow> opaqueRegex r" "opaqueRegex q" "q \<in> set rs \<or> \<not> occurs q s"
  shows "\<not> occurs q (fst (scrubLoop rs (s, n)))"
  using assms
proof (induction rs arbitrary: s n)
  case (Cons r rs)
  let ?o = "replaceAll r redacted (None, s)"
  have same: "fst ?o = s" if "snd ?o = 0" using replaceAll_none[OF that] by simp
  have "\<not> occurs r (fst ?o)" using Cons.prems(1) by (intro replaceAll_removes) simp
  moreover have "\<not> occurs q (fst ?o)" if "\<not> occurs q s" using that replaceAll_occurs[OF Cons.prems(2)] by blast
  ultimately have "q \<in> set rs \<or> \<not> occurs q (fst ?o)" using Cons.prems(3) by auto
  then show ?case using Cons.IH[of "fst ?o"] Cons.prems(1,2) same
    by (cases "snd ?o = 0") (auto split: prod.split)
qed simp

lemma scrubLoop_mono: "n \<le> snd (scrubLoop rs (s, n))"
proof (induction rs arbitrary: s n)
  case (Cons r rs)
  obtain t k where "replaceAll r redacted (None, s) = (t, k)" by fastforce
  then show ?case using Cons[of n s] Cons[of "n + k" t] by (auto intro: le_trans[of n "n + k"])
qed simp

lemma scrubLoop_hits: "snd (scrubLoop rs (s, n)) = n \<Longrightarrow> fst (scrubLoop rs (s, n)) = s"
proof (induction rs arbitrary: s n)
  case (Cons r rs)
  obtain t k where o: "replaceAll r redacted (None, s) = (t, k)" by fastforce
  have "k = 0" using scrubLoop_mono[of "n + k" rs t] Cons.prems by (cases "k = 0") (auto simp: o)
  with Cons show ?case by (simp add: o)
qed simp


lemma scrub_clean: "r \<in> set patterns \<Longrightarrow> \<not> occurs r (fst (scrub s))"
  unfolding scrub_def by (rule scrubLoop_clean) (auto intro: patterns_opaque)

lemma scrub_unchanged: "snd (scrub s) = 0 \<Longrightarrow> fst (scrub s) = s"
  unfolding scrub_def by (rule scrubLoop_hits)

lemma scrubPart_simps:
  "mp_Type (fst (scrubPart p)) = mp_Type p" "mp_other (fst (scrubPart p)) = mp_other p"
  "mp_Text (fst (scrubPart p)) = (if mp_Type p = PartTypeText then fst (scrub (mp_Text p)) else mp_Text p)"
  by (simp_all add: scrubPart_def split: prod.split)

lemma scrubPart_unchanged: "snd (scrubPart p) = 0 \<Longrightarrow> fst (scrubPart p) = p"
  using scrub_unchanged[of "mp_Text p"] by (auto simp: scrubPart_def split: prod.splits if_splits)

lemma scrubMessage_fst:
  "fst (scrubMessage m) = \<lparr>msg_Role = msg_Role m, msg_Parts = Some (map (\<lambda>p. fst (scrubPart p)) (elems (msg_Parts m)))\<rparr>"
  by (simp add: scrubMessage_def Let_def)

lemma scrubMessage_unchanged:
  "snd (scrubMessage m) = [] \<Longrightarrow> map (\<lambda>p. fst (scrubPart p)) (elems (msg_Parts m)) = elems (msg_Parts m)"
  by (auto simp: scrubMessage_def Let_def scrubPart_unchanged intro: map_idI split: if_splits)

lemma scrubMessage_decs: "d \<in> set (snd (scrubMessage m)) \<Longrightarrow> fd_Action d = FilterActionRedact"
  by (auto simp: scrubMessage_def Let_def split: if_splits)

lemma containsSub_iff: "containsSub s w \<longleftrightarrow> (\<exists>a b. s = a @ w @ b)"
proof (induction s)
  case Nil
  show ?case by (cases w) (auto simp: hasPrefix_iff)
next
  case (Cons c s)
  have "(\<exists>a b. c # s = a @ w @ b) \<longleftrightarrow> hasPrefix (c # s) w \<or> (\<exists>a b. s = a @ w @ b)"
  proof
    assume "\<exists>a b. c # s = a @ w @ b"
    then obtain a b where "c # s = a @ w @ b" by blast
    then show "hasPrefix (c # s) w \<or> (\<exists>a b. s = a @ w @ b)" by (cases a) (auto simp: hasPrefix_iff)
  next
    assume "hasPrefix (c # s) w \<or> (\<exists>a b. s = a @ w @ b)"
    then show "\<exists>a b. c # s = a @ w @ b" by (auto simp: hasPrefix_iff) (metis append_Nil, metis append_Cons)
  qed
  with Cons show ?case by simp
qed

declare containsSub.simps [simp del]

section \<open>Properties\<close>

text \<open>C24. After the secret scrubber no text part of any message contains a string of one of the
  three secret forms, not even one created by a replacement; roles, message and part order
  and all other fields are kept, the chain is never blocked, and without a redaction decision
  nothing was changed.\<close>

theorem secret_scrubber_removes_secrets:
  "case secretScrubber_Filter ctx msgs of (out, decs, err) \<Rightarrow>
     err = None \<and> blockingDec decs = None \<and>
     map (\<lambda>m. (msg_Role m, map (\<lambda>p. (mp_Type p, mp_other p)) (elems (msg_Parts m)))) (elems out) =
       map (\<lambda>m. (msg_Role m, map (\<lambda>p. (mp_Type p, mp_other p)) (elems (msg_Parts m)))) (elems msgs) \<and>
     (\<forall>m \<in> set (elems out). \<forall>p \<in> set (elems (msg_Parts m)). mp_Type p = PartTypeText \<longrightarrow>
        (\<forall>r \<in> set patterns. \<not> occurs r (mp_Text p))) \<and>
     (decs = [] \<longrightarrow> map (\<lambda>m. elems (msg_Parts m)) (elems out) = map (\<lambda>m. elems (msg_Parts m)) (elems msgs))"
proof -
  have "blockingDec (concat (map (\<lambda>m. snd (scrubMessage m)) ms)) = None" for ms :: "'x Message list"
    using scrubMessage_decs by (fastforce simp: blockingDec_def find_None_iff)
  then show ?thesis
    by (auto simp: secretScrubber_Filter_def Let_def o_def scrubMessage_fst scrubPart_simps scrub_clean scrubMessage_unchanged)
qed

definition leakyMessage :: "unit Message" where
  "leakyMessage = \<lparr>msg_Role = RoleUser, msg_Parts = Some [\<lparr>mp_Type = PartTypeText, mp_Text = ''use sk-abcdefghijklmnop now'', mp_other = ()\<rparr>]\<rparr>"

theorem secret_scrubber_removes_secrets_witness:
  "occurs (patterns ! 0) ''use sk-abcdefghijklmnop now'' \<and>
   (\<exists>m p. elems (fst (secretScrubber_Filter () (Some [leakyMessage]))) = [m] \<and> elems (msg_Parts m) = [p] \<and>
      mp_Type p = PartTypeText \<and> \<not> occurs (patterns ! 0) (mp_Text p))"
proof -
  have "''use sk-abcdefghijklmnop now'' = ''use '' @ (''sk-'' @ ''abcdefghijklmnop'') @ '' now''" by simp
  moreover have "''sk-'' @ ''abcdefghijklmnop'' \<in> lang (patterns ! 0)"
  proof -
    have "list_all is_alnum ''abcdefghijklmnop''" by code_simp
    then show ?thesis unfolding patterns_def nth_Cons_0 lang_secret by simp
  qed
  ultimately have occ: "occurs (patterns ! 0) ''use sk-abcdefghijklmnop now''" unfolding occurs_def by blast
  have pat: "patterns ! 0 \<in> set patterns" by (simp add: patterns_def)
  obtain out decs err where F: "secretScrubber_Filter () (Some [leakyMessage]) = (out, decs, err)" using prod_cases3 by blast
  note S = secret_scrubber_removes_secrets[where ctx = "()" and msgs = "Some [leakyMessage]", unfolded F prod.case]
  obtain m where m: "elems out = [m]" "map (\<lambda>p. (mp_Type p, mp_other p)) (elems (msg_Parts m)) = [(PartTypeText, ())]"
    using S by (auto simp: leakyMessage_def)
  then obtain p where p: "elems (msg_Parts m) = [p]" "mp_Type p = PartTypeText" by (auto simp: map_eq_Cons_conv)
  then have "\<not> occurs (patterns ! 0) (mp_Text p)" using S m(1) pat by (simp del: One_nat_def)
  with occ m(1) p F show ?thesis by simp
qed

text \<open>A chain that starts with the path filter stops every call whose raw arguments contain a
  parent-directory step, with a blocked error, and hands every other call on unchanged.\<close>

theorem path_escape_blocks:
  "preToolFilterChain (pathEscape_Filter # fs) ctx call =
     (if \<exists>a b. tc_ArgumentsJSON call = a @ ''../'' @ b
      then (zeroToolCall, fst (snd (pathEscape_Filter ctx call)),
            Some (blocked (''path traversal '' @ [CHR 0x27] @ ''../'' @ [CHR 0x27] @ '' in tool arguments'')))
      else preToolFilterChain fs ctx call)"
  by (simp add: preToolFilterChain_def pathEscape_Filter_def needle_def containsSub_iff blockingDec_def)

text \<open>The truncating filter a configuration accepts bounds every result: at most the
  configured positive number of bytes of the content are kept, as a prefix, all other fields
  stay, a shorter result passes untouched, and a log decision is issued exactly on truncation.\<close>

theorem output_truncate_bounds:
  assumes "outputTruncate_Build oor fid cfg = Ok n"
  shows "0 < sint n \<and> (case outputTruncate_Filter n ctx r of (out, decs, err) \<Rightarrow>
    err = None \<and> blockingDec decs = None \<and> int (length (tr_Content out)) \<le> sint n \<and>
    tr_Content out = take (nat (sint n)) (tr_Content r) \<and> out\<lparr>tr_Content := tr_Content r\<rparr> = r \<and>
    (decs = [] \<longleftrightarrow> int (length (tr_Content r)) \<le> sint n))"
proof -
  have "0 < sint n" using assms by (auto simp: outputTruncate_Build_def split: if_splits)
  then show ?thesis by (auto simp: outputTruncate_Filter_def blockingDec_def)
qed

theorem output_truncate_bounds_witness:
  "outputTruncate_Build (\<lambda>_. 0) ''filter.output-truncate@1.0.0'' (Some [(''maxBytes'', VInt 3)]) = Ok 3 \<and>
   int (length (tr_Content (fst (outputTruncate_Filter 3 () (zeroToolResult\<lparr>tr_Content := ''abcdef''\<rparr>))))) \<le> 3"
proof -
  have ok: "outputTruncate_Build (\<lambda>_. 0) ''filter.output-truncate@1.0.0'' (Some [(''maxBytes'', VInt 3)]) = Ok 3"
    by (simp add: outputTruncate_Build_def requireInt_def map_lookup_def numberToInt_def)
  from output_truncate_bounds[OF ok, where ctx = "()" and r = "zeroToolResult\<lparr>tr_Content := ''abcdef''\<rparr>"] ok
  show ?thesis by (auto split: prod.splits)
qed

end
