(* ===== verification/FactoryPolicy.thy ===== *)
theory FactoryPolicy
  imports FactoryFilters
begin

text \<open>
  The PII policy pack (\<^verbatim>\<open>factories/policypackpiiredact\<close>): its four detectors as
  regular expressions, the flattening of a policy input to text, and the verdict by
  strictness.
\<close>

definition is_email :: "char \<Rightarrow> bool" where
  "is_email c \<longleftrightarrow> is_alnum c \<or> c \<in> set ''._%+-''"

definition is_host :: "char \<Rightarrow> bool" where
  "is_host c \<longleftrightarrow> is_alnum c \<or> c \<in> set ''.-''"

definition is_letter :: "char \<Rightarrow> bool" where
  "is_letter c \<longleftrightarrow> is_upper c \<or> is_lower c"

text \<open>\<^verbatim>\<open>[-.\s]\<close>, with the ASCII blanks of Go's \<^verbatim>\<open>\s\<close>.\<close>

definition is_phoneSep :: "char \<Rightarrow> bool" where
  "is_phoneSep c \<longleftrightarrow> c \<in> {CHR ''-'', CHR ''.'', CHR 0x09, CHR 0x0A, CHR 0x0C, CHR 0x0D, CHR '' ''}"

definition reEmail :: regex where
  "reEmail = Seq (Plus (Cls is_email)) (Seq (lit CHR ''@'') (Seq (Plus (Cls is_host)) (Seq (lit CHR ''.'')
     (Seq (rep 2 (Cls is_letter)) (Star (Cls is_letter))))))"

definition rePhone :: regex where
  "rePhone = Seq WordB (Seq (rep 3 (Cls is_digit)) (Seq (Cls is_phoneSep) (Seq (rep 3 (Cls is_digit))
     (Seq (Cls is_phoneSep) (Seq (rep 4 (Cls is_digit)) WordB)))))"

definition reSSN :: regex where
  "reSSN = Seq WordB (Seq (rep 3 (Cls is_digit)) (Seq (lit CHR ''-'') (Seq (rep 2 (Cls is_digit))
     (Seq (lit CHR ''-'') (Seq (rep 4 (Cls is_digit)) WordB)))))"

definition ccDigit :: regex where
  "ccDigit = Seq (Cls is_digit) (Opt (Cls (\<lambda>c. c = CHR '' '' \<or> c = CHR ''-'')))"

definition reCC :: regex where
  "reCC = Seq WordB (Seq (rep 13 ccDigit) (Seq (rep_upto 3 ccDigit) WordB))"

definition MatchString :: "regex \<Rightarrow> string \<Rightarrow> bool" where
  "MatchString r s = search r (None, s)"

section \<open>The hook\<close>

record 'x PolicyInput =
  pi_SystemPrompt :: string
  pi_Messages :: "'x Message slice"

definition newline :: string where
  "newline = [CHR 0x0A]"

definition partText :: "'x MessagePart \<Rightarrow> string" where
  "partText p = (if mp_Type p = PartTypeText then mp_Text p @ newline else [])"

definition msgText :: "'x Message \<Rightarrow> string" where
  "msgText m = concat (map partText (elems (msg_Parts m)))"

definition extractText :: "'x PolicyInput \<Rightarrow> string" where
  "extractText inp =
     (if pi_SystemPrompt inp \<noteq> [] then pi_SystemPrompt inp @ newline else []) @
     concat (map msgText (elems (pi_Messages inp)))"

definition piiMatches :: "string \<Rightarrow> string list" where
  "piiMatches text =
     (if MatchString reEmail text then [''email''] else []) @
     (if MatchString rePhone text then [''phone''] else []) @
     (if MatchString reSSN text then [''ssn''] else []) @
     (if MatchString reCC text then [''credit_card''] else [])"

definition piiMeta :: "string list \<Rightarrow> gomap" where
  "piiMeta matches = Some [(''pii.matches'', VStrings (Some matches))]"

definition strictLow :: string where
  "strictLow = ''low''"
definition strictMedium :: string where
  "strictMedium = ''medium''"
definition strictHigh :: string where
  "strictHigh = ''high''"

definition pii_Evaluate :: "string \<Rightarrow> 'x PolicyInput PolicyHook" where
  "pii_Evaluate mode inp =
     (let matches = piiMatches (extractText inp) in
      if matches = [] then Ok \<lparr>dc_Verdict = VerdictAllow, dc_Reason = [], dc_Metadata = None\<rparr>
      else
        (case (if mode = strictHigh then List.find (\<lambda>m. m = ''ssn'' \<or> m = ''credit_card'') matches else None) of
           Some m \<Rightarrow> Ok \<lparr>dc_Verdict = VerdictDeny, dc_Reason = ''high-risk PII detected: '' @ m, dc_Metadata = piiMeta matches\<rparr>
         | None \<Rightarrow> Ok \<lparr>dc_Verdict = VerdictLog, dc_Reason = ''PII detected'', dc_Metadata = piiMeta matches\<rparr>))"

definition pii_Build :: "(string \<Rightarrow> 'h) \<Rightarrow> string \<Rightarrow> gomap \<Rightarrow> 'h PolicyPack result" where
  "pii_Build hook fid cfg =
     (case as_string (map_index cfg ''strictness'') of
        None \<Rightarrow> Err (Errorf ''%s: strictness: required string'' [AStr fid])
      | Some s \<Rightarrow>
          if s = ''low'' \<or> s = ''medium'' \<or> s = ''high''
          then Ok \<lparr>pp_Hook = hook s, pp_Descriptors = [\<lparr>pdc_Name = ''pii-redaction'', pdc_Owner = [],
                 pdc_PolicyTags = Some [''pii'', ''privacy''], pdc_Source = fid\<rparr>]\<rparr>
          else Err (Errorf ''%s: strictness: want low|medium|high, got %q'' [AStr fid, AStr s]))"

section \<open>Detection\<close>

lemma search_append: "mt r (if a = [] then p else Some (last a), s) \<noteq> [] \<Longrightarrow> search r (p, a @ s)"
proof (induction a arbitrary: p)
  case Nil
  then show ?case by (cases s) auto
next
  case (Cons c a)
  then show ?case by (cases a) auto
qed

text \<open>No word character on either side.\<close>

definition delimited :: "string \<Rightarrow> string \<Rightarrow> bool" where
  "delimited a b \<longleftrightarrow> (a = [] \<or> \<not> is_word (last a)) \<and> (b = [] \<or> \<not> is_word (hd b))"

definition ssnForm :: "string \<Rightarrow> bool" where
  "ssnForm u \<longleftrightarrow> (\<exists>a b c d e f g h i. u = [a, b, c, CHR ''-'', d, e, CHR ''-'', f, g, h, i] \<and>
     list_all is_digit [a, b, c, d, e, f, g, h, i])"

lemma digit_word: "is_digit c \<Longrightarrow> is_word c"
  by (simp add: is_word_def)

lemma ssn_mt:
  assumes "ssnForm u" "\<not> word_at p" "\<not> word_at (next_char b)"
  shows "mt reSSN (p, u @ b) \<noteq> []"
  using assms
  by (auto simp: ssnForm_def reSSN_def numeral_eq_Suc lit_def word_at_def[of "Some _"] next_char_def[of "_ # _"] digit_word)

lemma ssn_found:
  assumes "ssnForm u" "delimited a b"
  shows "MatchString reSSN (a @ u @ b)"
  unfolding MatchString_def
proof (rule search_append)
  show "mt reSSN (if a = [] then None else Some (last a), u @ b) \<noteq> []"
    using assms(2) by (intro ssn_mt[OF assms(1)]) (auto simp: delimited_def word_at_def next_char_def split: list.split)
qed

lemma newline_not_word: "\<not> is_word (CHR 0x0A)"
  by (simp add: is_word_def is_digit_def is_lower_def is_upper_def in_range_def)

text \<open>Every text part stands in the extracted text between line breaks.\<close>

lemma partText_end: "partText p = [] \<or> last (partText p) = CHR 0x0A"
  by (simp add: partText_def newline_def)

lemma concat_end:
  assumes "\<And>x. x \<in> set xs \<Longrightarrow> x = [] \<or> last x = e"
  shows "concat xs = [] \<or> last (concat xs) = e"
  using assms by (induction xs) (auto simp: last_append)

lemma msgText_end: "msgText m = [] \<or> last (msgText m) = CHR 0x0A"
  unfolding msgText_def using partText_end by (intro concat_end) auto

lemma extractText_part:
  assumes "m \<in> set (elems (pi_Messages inp))" "p \<in> set (elems (msg_Parts m))" "mp_Type p = PartTypeText"
  shows "\<exists>pre post. extractText inp = pre @ mp_Text p @ newline @ post \<and> (pre = [] \<or> last pre = CHR 0x0A)"
proof -
  obtain ms ms' where ms: "elems (pi_Messages inp) = ms @ m # ms'" using split_list[OF assms(1)] by blast
  obtain ps ps' where ps: "elems (msg_Parts m) = ps @ p # ps'" using split_list[OF assms(2)] by blast
  let ?sys = "if pi_SystemPrompt inp \<noteq> [] then pi_SystemPrompt inp @ newline else []"
  let ?pre = "concat ([?sys] @ map msgText ms @ map partText ps)"
  let ?post = "concat (map partText ps') @ concat (map msgText ms')"
  have "extractText inp = ?pre @ mp_Text p @ newline @ ?post"
    using assms(3) by (simp add: extractText_def ms ps partText_def msgText_def)
  moreover have "?pre = [] \<or> last ?pre = CHR 0x0A"
  proof (rule concat_end)
    fix x assume "x \<in> set ([?sys] @ map msgText ms @ map partText ps)"
    then have "x = ?sys \<or> x \<in> msgText ` set ms \<or> x \<in> partText ` set ps" by auto
    then show "x = [] \<or> last x = CHR 0x0A" using partText_end msgText_end by (cases "pi_SystemPrompt inp") (auto simp: newline_def)
  qed
  ultimately show ?thesis by blast
qed

lemma find_risk:
  "List.find (\<lambda>m. m = ''ssn'' \<or> m = ''credit_card'') (piiMatches t) \<noteq> None \<longleftrightarrow>
     MatchString reSSN t \<or> MatchString reCC t"
  by (simp add: piiMatches_def)

lemma pii_verdict:
  "\<exists>d. pii_Evaluate mode inp = Ok d \<and>
     dc_Verdict d = (if piiMatches (extractText inp) = [] then VerdictAllow
       else if mode = ''high'' \<and> (MatchString reSSN (extractText inp) \<or> MatchString reCC (extractText inp))
       then VerdictDeny else VerdictLog)"
  using find_risk[of "extractText inp"]
  by (auto simp: pii_Evaluate_def strictHigh_def Let_def split: option.split)

section \<open>Properties\<close>

text \<open>C26. The PII policy never errs and never lets a social security number through at high
  strictness: when a text part of any message holds one, delimited by non-word characters or the ends
  of the part, the verdict is deny at high strictness and log at every other. For any input at all, the
  verdict is allow exactly when no detector fires on the extracted text; otherwise it is deny when the
  strictness is high and a number of the two risky kinds was found, and log else. Below high the
  decision does not depend on the strictness, so that low logs a social security number too, against
  the package comment.\<close>

theorem pii_policy_detects_ssn:
  assumes "m \<in> set (elems (pi_Messages inp))" and "p \<in> set (elems (msg_Parts m))" and "mp_Type p = PartTypeText"
    and "mp_Text p = a @ u @ b" and "ssnForm u" and "delimited a b"
  shows "(\<exists>d. pii_Evaluate ''high'' inp = Ok d \<and> dc_Verdict d = VerdictDeny) \<and>
    (mode \<noteq> ''high'' \<longrightarrow> (\<exists>d. pii_Evaluate mode inp = Ok d \<and> dc_Verdict d = VerdictLog)) \<and>
    (\<exists>d. pii_Evaluate mode any = Ok d \<and> dc_Verdict d =
       (if \<forall>r \<in> {reEmail, rePhone, reSSN, reCC}. \<not> MatchString r (extractText any) then VerdictAllow
        else if mode = ''high'' \<and> (MatchString reSSN (extractText any) \<or> MatchString reCC (extractText any)) then VerdictDeny
        else VerdictLog)) \<and>
    (mode \<noteq> ''high'' \<longrightarrow> pii_Evaluate mode any = pii_Evaluate ''low'' any)"
proof -
  obtain pre post where t: "extractText inp = pre @ mp_Text p @ newline @ post" "pre = [] \<or> last pre = CHR 0x0A"
    using extractText_part[OF assms(1-3)] by blast
  have "delimited (pre @ a) (b @ newline @ post)"
    using assms(6) t(2) newline_not_word by (auto simp: delimited_def newline_def last_append hd_append)
  from ssn_found[OF assms(5) this] have ssn: "MatchString reSSN (extractText inp)" by (simp add: t(1) assms(4))
  then have "piiMatches (extractText inp) \<noteq> []" by (simp add: piiMatches_def)
  with ssn pii_verdict[of "''high''" inp] pii_verdict[of mode inp]
  have "(\<exists>d. pii_Evaluate ''high'' inp = Ok d \<and> dc_Verdict d = VerdictDeny) \<and>
      (mode \<noteq> ''high'' \<longrightarrow> (\<exists>d. pii_Evaluate mode inp = Ok d \<and> dc_Verdict d = VerdictLog))" by auto
  moreover have "piiMatches t = [] \<longleftrightarrow> (\<forall>r \<in> {reEmail, rePhone, reSSN, reCC}. \<not> MatchString r t)" for t
    by (auto simp: piiMatches_def)
  moreover have "mode \<noteq> ''high'' \<longrightarrow> pii_Evaluate mode any = pii_Evaluate ''low'' any"
    by (simp add: pii_Evaluate_def strictHigh_def Let_def)
  ultimately show ?thesis using pii_verdict[of mode any] by simp
qed

definition ssnInput :: "unit PolicyInput" where
  "ssnInput = \<lparr>pi_SystemPrompt = [], pi_Messages = Some [\<lparr>msg_Role = RoleUser,
     msg_Parts = Some [\<lparr>mp_Type = PartTypeText, mp_Text = ''ssn 123-45-6789.'', mp_other = ()\<rparr>]\<rparr>]\<rparr>"

theorem pii_policy_detects_ssn_witness:
  "(\<exists>d. pii_Evaluate ''high'' ssnInput = Ok d \<and> dc_Verdict d = VerdictDeny) \<and>
   (\<exists>d. pii_Evaluate ''low'' ssnInput = Ok d \<and> dc_Verdict d = VerdictLog)"
proof -
  have "ssnForm ''123-45-6789''" by (simp add: ssnForm_def is_digit_def in_range_def)
  moreover have "delimited ''ssn '' ''.''"
    by (simp add: delimited_def is_word_def is_digit_def is_lower_def is_upper_def in_range_def)
  moreover let ?m = "hd (elems (pi_Messages ssnInput))"
  have "?m \<in> set (elems (pi_Messages ssnInput))" "hd (elems (msg_Parts ?m)) \<in> set (elems (msg_Parts ?m))"
    "mp_Type (hd (elems (msg_Parts ?m))) = PartTypeText" "mp_Text (hd (elems (msg_Parts ?m))) = ''ssn '' @ ''123-45-6789'' @ ''.''"
    by (simp_all add: ssnInput_def)
  ultimately show ?thesis
    using pii_policy_detects_ssn[where mode = "''low''" and any = ssnInput] by blast
qed

end
