(* ===== verification/FactoryTools.thy ===== *)
theory FactoryTools
  imports BuildChains GoConv
begin

text \<open>
  The http tool pack (\<^verbatim>\<open>factories/toolpackhttpget\<close>): its configuration, the pack it
  builds, and one invocation. The network and the parsers an invocation calls are the
  argument \<open>nt\<close>: \<^verbatim>\<open>json.Unmarshal\<close> of the arguments (giving the url),
  \<^verbatim>\<open>url.Parse\<close> (giving the host), \<^verbatim>\<open>http.NewRequestWithContext\<close>, the exchange of
  one request for one response, the resolution of a \<^verbatim>\<open>Location\<close> header against the URL it came
  from, the rendering of an error, and the two status values of praxis. \<open>clientDo\<close> is
  \<^verbatim>\<open>http.Client.Do\<close> of the standard library for a GET request and a client without a
  \<^verbatim>\<open>CheckRedirect\<close> hook, as the pack makes it: it follows redirects, to any host, up to ten requests.
  An invocation returns its result and the URLs it requested, in order.
\<close>

record cfgShape =
  hg_AllowedHosts :: "string list"
  hg_Timeout :: int64

definition toInt :: "(64 word \<Rightarrow> int64) \<Rightarrow> goval \<Rightarrow> int64 result" where
  "toInt oor v = (case numberToInt oor v of
      Some n \<Rightarrow> Ok n
    | None \<Rightarrow> Err (Errorf ''want int, got %T'' [AVal v]))"

definition hostElem :: "nat \<Rightarrow> goval \<Rightarrow> string result" where
  "hostElem i h = (case as_string h of
      Some s \<Rightarrow> Ok s
    | None \<Rightarrow> Err (Errorf ''allowedHosts[%d]: want string, got %T'' [AInt (int i), AVal h]))"

text \<open>Nanoseconds: five seconds, or the configured milliseconds times a million (wrapping).\<close>

definition timeoutOf :: "(64 word \<Rightarrow> int64) \<Rightarrow> gomap \<Rightarrow> int64 result" where
  "timeoutOf oor cfg = (case map_lookup cfg ''timeoutMs'' of
      None \<Rightarrow> Ok (5 * 1000000000)
    | Some raw \<Rightarrow> bindR (wrapErr (\<lambda>err. Errorf ''timeoutMs: %w'' [AWrap err]) (toInt oor raw)) (\<lambda>n. Ok (n * 1000000)))"

definition httpGet_decode :: "(64 word \<Rightarrow> int64) \<Rightarrow> gomap \<Rightarrow> cfgShape result" where
  "httpGet_decode oor cfg = (case map_lookup cfg ''allowedHosts'' of
      None \<Rightarrow> Err (Errorf ''allowedHosts: required'' [])
    | Some raw \<Rightarrow>
        (case raw of
           VSlice l \<Rightarrow>
             if elems l = [] then Err (Errorf ''allowedHosts: must be non-empty list'' [])
             else bindR (loopR hostElem 0 (elems l)) (\<lambda>hosts.
               bindR (timeoutOf oor cfg) (\<lambda>t. Ok \<lparr>hg_AllowedHosts = hosts, hg_Timeout = t\<rparr>))
         | _ \<Rightarrow> Err (Errorf ''allowedHosts: must be non-empty list'' [])))"

definition httpGetDef :: ToolDefinition where
  "httpGetDef = \<lparr>td_Name = ''http_get'',
     td_Description = ''Fetch the body of a URL via HTTP GET. Only allow-listed hosts are reachable.'',
     td_InputSchema = ''{\"type\":\"object\",\"properties\":{\"url\":{\"type\":\"string\"}},\"required\":[\"url\"]}''\<rparr>"

definition httpGet_Build :: "(64 word \<Rightarrow> int64) \<Rightarrow> (cfgShape \<Rightarrow> 'h) \<Rightarrow> string \<Rightarrow> gomap \<Rightarrow> 'h ToolPack result" where
  "httpGet_Build oor invoker fid cfg =
     bindR (wrapErr (\<lambda>err. Errorf ''%s: %w'' [AStr fid, AWrap err]) (httpGet_decode oor cfg)) (\<lambda>c.
     Ok \<lparr>tp_Invoker = invoker c, tp_Definitions = [httpGetDef],
         tp_Descriptors = [\<lparr>tdc_Name = ''http_get'', tdc_Owner = [], tdc_RiskTier = RiskModerate,
           tdc_PolicyTags = Some [''network'', ''http''], tdc_AuthScopes = None, tdc_TimeoutHint = 0, tdc_Source = fid\<rparr>]\<rparr>)"

text \<open>A response: its status code, its \<^verbatim>\<open>Location\<close> header (empty when absent) and what reading its body gives.\<close>

record reply =
  rp_StatusCode :: int
  rp_Location :: string
  rp_Body :: "string result"

text \<open>An exchange depends on the requests before it; \<open>nt_urlError\<close> is the client's error around a cause.\<close>

record net =
  nt_unmarshal :: "string \<Rightarrow> string result"
  nt_parse :: "string \<Rightarrow> string result"
  nt_newRequest :: "string \<Rightarrow> unit result"
  nt_send :: "string list \<Rightarrow> string \<Rightarrow> reply result"
  nt_resolve :: "string \<Rightarrow> string \<Rightarrow> string result"
  nt_urlError :: "string list \<Rightarrow> gerror \<Rightarrow> gerror"
  nt_errText :: "gerror \<Rightarrow> string"
  nt_success :: string
  nt_error :: string

definition shouldRedirect :: "reply \<Rightarrow> bool" where
  "shouldRedirect resp \<longleftrightarrow> rp_StatusCode resp \<in> {301, 302, 303, 307, 308} \<and> rp_Location resp \<noteq> []"

function clientDo :: "net \<Rightarrow> string list \<Rightarrow> string \<Rightarrow> reply result \<times> string list" where
  "clientDo nt via url =
     (let reqs = via @ [url] in
      case nt_send nt via url of
        Panic p \<Rightarrow> (Panic p, reqs)
      | Err err \<Rightarrow> (Err (nt_urlError nt reqs err), reqs)
      | Ok resp \<Rightarrow>
          if \<not> shouldRedirect resp then (Ok resp, reqs)
          else (case nt_resolve nt url (rp_Location resp) of
              Panic p \<Rightarrow> (Panic p, reqs)
            | Err err \<Rightarrow> (Err (nt_urlError nt reqs
                (Errorf ''failed to parse Location header %q: %v'' [AStr (rp_Location resp), AWrap err])), reqs)
            | Ok next \<Rightarrow>
                if 10 \<le> length reqs then (Err (nt_urlError nt reqs (Errorf ''stopped after 10 redirects'' [])), reqs)
                else clientDo nt reqs next))"
  by pat_completeness auto
termination by (relation "measure (\<lambda>(nt, via, url). 10 - length via)") auto

declare clientDo.simps [simp del]

fun hostAllowed :: "string list \<Rightarrow> string \<Rightarrow> bool" where
  "hostAllowed [] host = False"
| "hostAllowed (h # hs) host = (if host = h then True else hostAllowed hs host)"

definition failed :: "net \<Rightarrow> string \<Rightarrow> ToolResult" where
  "failed nt msg = zeroToolResult\<lparr>tr_Status := nt_error nt, tr_Content := msg\<rparr>"

definition httpGet_Invoke :: "net \<Rightarrow> string list \<Rightarrow> ToolCall \<Rightarrow> (ToolResult \<times> string list) result" where
  "httpGet_Invoke nt allowedHosts call =
     (case nt_unmarshal nt (tc_ArgumentsJSON call) of
        Panic p \<Rightarrow> Panic p
      | Err err \<Rightarrow> Ok (failed nt (''invalid args: '' @ nt_errText nt err), [])
      | Ok url \<Rightarrow>
          (case nt_parse nt url of
             Panic p \<Rightarrow> Panic p
           | Err _ \<Rightarrow> Ok (failed nt ''invalid url'', [])
           | Ok host \<Rightarrow>
               if host = [] then Ok (failed nt ''invalid url'', [])
               else if \<not> hostAllowed allowedHosts host then Ok (failed nt (''host not in allowlist: '' @ host), [])
               else (case nt_newRequest nt url of
                   Panic p \<Rightarrow> Panic p
                 | Err err \<Rightarrow> Ok (failed nt (nt_errText nt err), [])
                 | Ok _ \<Rightarrow>
                     (case clientDo nt [] url of (out, reqs) \<Rightarrow>
                       (case out of
                          Panic p \<Rightarrow> Panic p
                        | Err err \<Rightarrow> Ok (failed nt (nt_errText nt err), reqs)
                        | Ok resp \<Rightarrow>
                            (case rp_Body resp of
                               Panic p \<Rightarrow> Panic p
                             | Err err \<Rightarrow> Ok (failed nt (nt_errText nt err), reqs)
                             | Ok body \<Rightarrow> Ok (zeroToolResult\<lparr>tr_Status := nt_success nt, tr_Content := body\<rparr>, reqs)))))))"

section \<open>Lemmas\<close>

lemma hostAllowed_iff [simp]: "hostAllowed hs host \<longleftrightarrow> host \<in> set hs"
  by (induction hs) auto

lemma hostElem_Ok [simp]: "hostElem i v = Ok s \<longleftrightarrow> v = VString s"
  by (cases v) (auto simp: hostElem_def as_string_def)

lemma hostElems_Ok: "loopR hostElem i vs = Ok out \<longleftrightarrow> vs = map VString out"
  by (induction vs arbitrary: i out) (auto simp: Cons_eq_map_conv)

lemma httpGet_decode_Ok:
  "httpGet_decode oor cfg = Ok c \<Longrightarrow>
     map_lookup cfg ''allowedHosts'' = Some (VSlice (Some (map VString (hg_AllowedHosts c)))) \<and> hg_AllowedHosts c \<noteq> []"
  by (auto simp: httpGet_decode_def hostElems_Ok elems_def split: option.splits goval.splits if_splits)

lemma httpGet_no_error: "httpGet_Invoke nt hs call \<noteq> Err e"
  by (simp add: httpGet_Invoke_def split: result.split prod.split)

text \<open>The request after another is the location the other's response redirects to.\<close>

definition redirectedTo :: "net \<Rightarrow> string list \<Rightarrow> string \<Rightarrow> string \<Rightarrow> bool" where
  "redirectedTo nt via url next \<longleftrightarrow>
     (\<exists>resp. nt_send nt via url = Ok resp \<and> shouldRedirect resp \<and> nt_resolve nt url (rp_Location resp) = Ok next)"

definition redirectChain :: "net \<Rightarrow> string list \<Rightarrow> bool" where
  "redirectChain nt reqs \<longleftrightarrow> (\<forall>i. Suc i < length reqs \<longrightarrow> redirectedTo nt (take i reqs) (reqs ! i) (reqs ! Suc i))"

lemma redirectChain_single [simp]: "redirectChain nt [url]"
  by (simp add: redirectChain_def)

lemma redirectChain_snoc:
  assumes "redirectChain nt (via @ [url])" and "redirectedTo nt via url next"
  shows "redirectChain nt (via @ [url] @ [next])"
  unfolding redirectChain_def
proof (intro allI impI)
  fix i
  assume i: "Suc i < length (via @ [url] @ [next])"
  show "redirectedTo nt (take i (via @ [url] @ [next])) ((via @ [url] @ [next]) ! i) ((via @ [url] @ [next]) ! Suc i)"
  proof (cases "i = length via")
    case True
    with assms(2) show ?thesis by (simp add: nth_append)
  next
    case False
    with i have "Suc i < length (via @ [url])" by simp
    with assms(1) have "redirectedTo nt (take i (via @ [url])) ((via @ [url]) ! i) ((via @ [url]) ! Suc i)"
      unfolding redirectChain_def by blast
    with False i show ?thesis by (simp add: nth_append split: if_splits)
  qed
qed

text \<open>
  What a call of the client requests: a redirect chain, continued as long as the last response
  redirects and fewer than ten requests were made.
\<close>

definition clientPost :: "net \<Rightarrow> string list \<Rightarrow> reply result \<Rightarrow> bool" where
  "clientPost nt reqs out \<longleftrightarrow> reqs \<noteq> [] \<and> redirectChain nt reqs \<and> length reqs \<le> 10 \<and>
     (\<forall>next. redirectedTo nt (butlast reqs) (last reqs) next \<longrightarrow> length reqs = 10 \<and> (\<exists>err. out = Err err)) \<and>
     (\<forall>resp. out = Ok resp \<longrightarrow> nt_send nt (butlast reqs) (last reqs) = Ok resp \<and> \<not> shouldRedirect resp)"

lemma clientDo_post:
  "redirectChain nt (via @ [url]) \<Longrightarrow> length via < 10 \<Longrightarrow>
     (\<exists>rest. snd (clientDo nt via url) = via @ url # rest) \<and>
     clientPost nt (snd (clientDo nt via url)) (fst (clientDo nt via url))"
proof (induction nt via url rule: clientDo.induct)
  case (1 nt via url)
  show ?case
  proof (cases "\<exists>next. redirectedTo nt via url next \<and> length via < 9")
    case True
    then obtain next' resp where n: "nt_send nt via url = Ok resp" "shouldRedirect resp"
        "nt_resolve nt url (rp_Location resp) = Ok next'" "length via < 9"
      by (auto simp: redirectedTo_def)
    then have "redirectChain nt ((via @ [url]) @ [next'])"
      using redirectChain_snoc[OF "1.prems"(1)] by (auto simp: redirectedTo_def)
    with "1.IH"[OF refl n(1) _ n(3)] n(2,4)
    have "(\<exists>rest. snd (clientDo nt (via @ [url]) next') = (via @ [url]) @ next' # rest) \<and>
        clientPost nt (snd (clientDo nt (via @ [url]) next')) (fst (clientDo nt (via @ [url]) next'))" by simp
    moreover have "clientDo nt via url = clientDo nt (via @ [url]) next'"
      using n by (simp add: clientDo.simps[of nt via url])
    ultimately show ?thesis by auto
  next
    case False
    then show ?thesis using "1.prems"
      by (auto simp: clientDo.simps[of nt via url] Let_def clientPost_def redirectedTo_def split: result.split)
  qed
qed

lemma httpGet_requests:
  assumes "httpGet_Invoke nt hs call = Ok (res, reqs)"
  shows "(reqs = [] \<and> tr_Status res = nt_error nt) \<or>
    (\<exists>url host. nt_unmarshal nt (tc_ArgumentsJSON call) = Ok url \<and> nt_parse nt url = Ok host \<and>
       host \<in> set hs \<and> (\<exists>rest. reqs = url # rest) \<and> redirectChain nt reqs \<and> length reqs \<le> 10 \<and>
       (\<forall>next. redirectedTo nt (butlast reqs) (last reqs) next \<longrightarrow> length reqs = 10 \<and> tr_Status res = nt_error nt) \<and>
       ((\<exists>resp. nt_send nt (butlast reqs) (last reqs) = Ok resp \<and> rp_Body resp = Ok (tr_Content res) \<and> tr_Status res = nt_success nt) \<or>
        tr_Status res = nt_error nt))"
proof (cases "\<exists>url host out. nt_unmarshal nt (tc_ArgumentsJSON call) = Ok url \<and> nt_parse nt url = Ok host \<and>
    host \<in> set hs \<and> clientDo nt [] url = (out, reqs)")
  case True
  then obtain url host out where u: "nt_unmarshal nt (tc_ArgumentsJSON call) = Ok url" "nt_parse nt url = Ok host"
      "host \<in> set hs" "clientDo nt [] url = (out, reqs)" by blast
  have "(\<exists>rest. reqs = url # rest) \<and> clientPost nt reqs out"
    using clientDo_post[of nt "[]" url] u(4) by simp
  with u assms show ?thesis
    by (auto simp: httpGet_Invoke_def failed_def clientPost_def split: result.splits if_splits)
next
  case False
  with assms show ?thesis by (auto simp: httpGet_Invoke_def failed_def split: result.splits if_splits prod.splits)
qed

section \<open>Properties\<close>

text \<open>C25. What the http tool's allowlist guarantees. An invocation reports every problem in its result and
  never as an error. It requests nothing, and then its result is an error, or its first request is the
  URL it was asked for, whose host is one of the hosts the configuration lists. Every further request goes to
  the address the response before it redirects to, whatever its host: the allowlist is not asked
  again, and a redirect is left only after ten requests. A success carries the body of the last response.\<close>

theorem http_get_allowlist:
  assumes "httpGet_decode oor cfg = Ok c" and "httpGet_Invoke nt (hg_AllowedHosts c) call = Ok (res, reqs)"
  shows "(\<forall>e. httpGet_Invoke nt hs call' \<noteq> Err e) \<and> ((reqs = [] \<and> tr_Status res = nt_error nt) \<or>
    (\<exists>url host hosts. nt_unmarshal nt (tc_ArgumentsJSON call) = Ok url \<and> nt_parse nt url = Ok host \<and>
       map_lookup cfg ''allowedHosts'' = Some (VSlice (Some (map VString hosts))) \<and> host \<in> set hosts \<and>
       (\<exists>rest. reqs = url # rest) \<and> redirectChain nt reqs \<and> length reqs \<le> 10 \<and>
       (\<forall>next. redirectedTo nt (butlast reqs) (last reqs) next \<longrightarrow> length reqs = 10 \<and> tr_Status res = nt_error nt) \<and>
       ((\<exists>resp. nt_send nt (butlast reqs) (last reqs) = Ok resp \<and> rp_Body resp = Ok (tr_Content res) \<and> tr_Status res = nt_success nt) \<or>
        tr_Status res = nt_error nt)))"
  using httpGet_no_error httpGet_requests[OF assms(2)] httpGet_decode_Ok[OF assms(1)] by blast

text \<open>A network whose listed host redirects to another one.\<close>

definition redirectNet :: net where
  "redirectNet = \<lparr>nt_unmarshal = Ok, nt_parse = (\<lambda>u. Ok (takeWhile (\<lambda>c. c \<noteq> CHR ''/'') u)), nt_newRequest = (\<lambda>_. Ok ()),
     nt_send = (\<lambda>via u. Ok (if u = ''example.com/a'' then \<lparr>rp_StatusCode = 302, rp_Location = ''internal/b'', rp_Body = Ok []\<rparr>
       else \<lparr>rp_StatusCode = 200, rp_Location = [], rp_Body = Ok u\<rparr>)),
     nt_resolve = (\<lambda>_ loc. Ok loc), nt_urlError = (\<lambda>_ e. e),
     nt_errText = (\<lambda>_. ''error''), nt_success = ''success'', nt_error = ''error''\<rparr>"

definition hostsConfig :: gomap where
  "hostsConfig = Some [(''allowedHosts'', VSlice (Some [VString ''example.com'']))]"

theorem http_get_allowlist_witness:
  "\<exists>res. httpGet_Invoke redirectNet [''example.com''] (zeroToolCall\<lparr>tc_ArgumentsJSON := ''example.com/a''\<rparr>) =
       Ok (res, [''example.com/a'', ''internal/b'']) \<and> tr_Status res = ''success'' \<and> tr_Content res = ''internal/b'' \<and>
     redirectChain redirectNet [''example.com/a'', ''internal/b'']"
proof -
  have d: "httpGet_decode (\<lambda>_. 0) hostsConfig = Ok \<lparr>hg_AllowedHosts = [''example.com''], hg_Timeout = 5 * 1000000000\<rparr>"
    by (simp add: httpGet_decode_def hostsConfig_def map_lookup_def hostElem_def as_string_def timeoutOf_def)
  obtain res where r: "httpGet_Invoke redirectNet [''example.com''] (zeroToolCall\<lparr>tc_ArgumentsJSON := ''example.com/a''\<rparr>) =
      Ok (res, [''example.com/a'', ''internal/b''])" "tr_Status res = ''success''"
    by (simp add: httpGet_Invoke_def clientDo.simps redirectNet_def shouldRedirect_def)
  have "httpGet_Invoke redirectNet (hg_AllowedHosts \<lparr>hg_AllowedHosts = [''example.com''], hg_Timeout = 5 * 1000000000\<rparr>)
      (zeroToolCall\<lparr>tc_ArgumentsJSON := ''example.com/a''\<rparr>) = Ok (res, [''example.com/a'', ''internal/b''])"
    using r(1) by simp
  note http_get_allowlist[OF d this, of "[]" zeroToolCall]
  moreover have "nt_error redirectNet = ''error''"
    "nt_send redirectNet [''example.com/a''] ''internal/b'' = Ok \<lparr>rp_StatusCode = 200, rp_Location = [], rp_Body = Ok ''internal/b''\<rparr>"
    by (simp_all add: redirectNet_def)
  ultimately show ?thesis using r by auto
qed

end
