(* ===== verification/FactoryMisc.thy ===== *)
theory FactoryMisc
  imports BuildProps FactoryMCP FactoryPolicy FactoryTools
begin

text \<open>
  The remaining factories: provider, prompt, budget profile, credential resolver, telemetry,
  identity signer, output contract and skill. Constructors of praxis objects they call
  (\<^verbatim>\<open>anthropic.New\<close>, \<^verbatim>\<open>identity.NewEd25519Signer\<close>) are arguments, as are the
  environment and the values a context carries.
\<close>

section \<open>provideranthropic\<close>

datatype anthropicOption = WithModel string | WithMaxTokens int64

record anthropicConfig =
  ac_Model :: string
  ac_MaxOutputTokens :: int64

definition anthropic_decode :: "(64 word \<Rightarrow> int64) \<Rightarrow> gomap \<Rightarrow> anthropicConfig result" where
  "anthropic_decode oor cfg = (case as_string (map_index cfg ''model'') of
      None \<Rightarrow> Err (Errorf ''model: required string'' [])
    | Some model \<Rightarrow>
        if model = [] then Err (Errorf ''model: required string'' [])
        else (case map_lookup cfg ''maxOutputTokens'' of
            None \<Rightarrow> Ok \<lparr>ac_Model = model, ac_MaxOutputTokens = 0\<rparr>
          | Some raw \<Rightarrow> (case numberToInt oor raw of
                Some n \<Rightarrow> Ok \<lparr>ac_Model = model, ac_MaxOutputTokens = n\<rparr>
              | None \<Rightarrow> Err (Errorf ''maxOutputTokens: want int, got %T'' [AVal raw]))))"

definition anthropic_Build :: "(64 word \<Rightarrow> int64) \<Rightarrow> (string \<Rightarrow> anthropicOption list \<Rightarrow> 'h) \<Rightarrow> string \<Rightarrow> string \<Rightarrow> gomap \<Rightarrow>
    'h result" where
  "anthropic_Build oor anthropicNew fid apiKey cfg =
     (if apiKey = [] then Err (Errorf ''%s: api key not set at factory construction'' [AStr fid])
      else bindR (wrapErr (\<lambda>err. Errorf ''%s: %w'' [AStr fid, AWrap err]) (anthropic_decode oor cfg)) (\<lambda>c.
        Ok (anthropicNew apiKey ([WithModel (ac_Model c)] @
          (if int64_gt (ac_MaxOutputTokens c) 0 then [WithMaxTokens (ac_MaxOutputTokens c)] else [])))))"

section \<open>promptassetliteral\<close>

definition promptLiteral_Build :: "string \<Rightarrow> gomap \<Rightarrow> string result" where
  "promptLiteral_Build fid cfg = (case map_lookup cfg ''text'' of
      None \<Rightarrow> Err (Errorf ''%s: config.text: required'' [AStr fid])
    | Some raw \<Rightarrow> (case as_string raw of
          None \<Rightarrow> Err (Errorf ''%s: config.text: want string, got %T'' [AStr fid, AVal raw])
        | Some s \<Rightarrow> if s = [] then Err (Errorf ''%s: config.text: must be non-empty'' [AStr fid]) else Ok s))"

section \<open>budgetprofiledefault\<close>

definition budgetDefault_Build :: "'h \<Rightarrow> 'h BudgetProfile result" where
  "budgetDefault_Build nullGuard = Ok \<lparr>bp_Guard = nullGuard,
     bp_DefaultConfig = \<lparr>bc_MaxWallClock = 30 * 1000000000, bc_MaxInputTokens = 50000, bc_MaxOutputTokens = 10000,
       bc_MaxToolCalls = 24, bc_MaxCostMicrodollars = 500000\<rparr>\<rparr>"

section \<open>credresolverenv\<close>

text \<open>
  \<^verbatim>\<open>strings.ToUpper\<close> maps a pure ASCII string byte by byte; any other string through the
  Unicode tables, which are the argument \<open>uni\<close>.
\<close>

definition upperByte :: "char \<Rightarrow> char" where
  "upperByte c = (if is_lower c then char_of ((of_char c :: nat) - 32) else c)"

definition ToUpper :: "(string \<Rightarrow> string) \<Rightarrow> string \<Rightarrow> string" where
  "ToUpper uni s = (if list_all (\<lambda>c. (of_char c :: nat) < 128) s then map upperByte s else uni s)"

text \<open>\<^verbatim>\<open>strings.ReplaceAll\<close> with single-byte arguments.\<close>

definition replaceByte :: "char \<Rightarrow> char \<Rightarrow> string \<Rightarrow> string" where
  "replaceByte old new s = map (\<lambda>c. if c = old then new else c) s"

definition scopeToEnv :: "(string \<Rightarrow> string) \<Rightarrow> string \<Rightarrow> string" where
  "scopeToEnv uni scope =
     (let s = ToUpper uni scope; s = replaceByte CHR '':'' CHR ''_'' s; s = replaceByte CHR ''-'' CHR ''_'' s
      in ''FORGE_CRED_'' @ s)"

text \<open>\<open>getenv\<close> is \<^verbatim>\<open>os.Getenv\<close>, empty when the variable is not set.\<close>

definition credEnv_Fetch :: "(string \<Rightarrow> string) \<Rightarrow> (string \<Rightarrow> string) \<Rightarrow> string \<Rightarrow> string result" where
  "credEnv_Fetch uni getenv scope =
     (let envName = scopeToEnv uni scope; v = getenv envName in
      if v = [] then Err (Errorf ''credresolver.env: %s not set'' [AStr envName]) else Ok v)"

section \<open>telemetryprofileslog\<close>

definition slog_decode :: "gomap \<Rightarrow> string result" where
  "slog_decode cfg = (case map_lookup cfg ''level'' of
      None \<Rightarrow> Ok ''info''
    | Some raw \<Rightarrow> (case as_string raw of
          None \<Rightarrow> Err (Errorf ''level: want string, got %T'' [AVal raw])
        | Some s \<Rightarrow> if s = ''debug'' \<or> s = ''info'' then Ok s
            else Err (Errorf ''level: want debug|info, got %q'' [AStr s])))"

definition slog_Build :: "(string \<Rightarrow> 'h) \<Rightarrow> 'h \<Rightarrow> string \<Rightarrow> gomap \<Rightarrow> 'h TelemetryProfile result" where
  "slog_Build emitter enricher fid cfg =
     bindR (wrapErr (\<lambda>err. Errorf ''%s: %w'' [AStr fid, AWrap err]) (slog_decode cfg)) (\<lambda>level.
     Ok \<lparr>te_Emitter = emitter level, te_Enricher = enricher\<rparr>)"

datatype slogLevel = LevelInfo | LevelDebug

text \<open>The record an emitter writes: level, message and attributes.\<close>

definition slog_Emit :: "string \<Rightarrow> string \<Rightarrow> slogLevel \<times> string \<times> (string \<times> string) list" where
  "slog_Emit level evType = (if level = ''debug'' then LevelDebug else LevelInfo, ''invocation.event'', [(''type'', evType)])"

definition TenantKey :: string where
  "TenantKey = ''forge.tenant''"
definition UserKey :: string where
  "UserKey = ''forge.user''"

text \<open>\<open>value\<close> is the context's \<^verbatim>\<open>Value\<close> method.\<close>

definition slog_Enrich :: "(string \<Rightarrow> goval) \<Rightarrow> (string \<times> string) list option" where
  "slog_Enrich value =
     (let out = (case value TenantKey of VString v \<Rightarrow> if v \<noteq> [] then [(''tenant'', v)] else [] | _ \<Rightarrow> []) @
            (case value UserKey of VString v \<Rightarrow> if v \<noteq> [] then [(''user'', v)] else [] | _ \<Rightarrow> [])
      in if out = [] then None else Some out)"

section \<open>identitysignered25519\<close>

record identityConfig =
  ic_Issuer :: string
  ic_Lifetime :: int64

definition identity_toInt :: "(64 word \<Rightarrow> int64) \<Rightarrow> goval \<Rightarrow> int64 result" where
  "identity_toInt oor v = (case numberToInt oor v of
      Some n \<Rightarrow> Ok n
    | None \<Rightarrow> Err (Errorf ''want integer, got %T'' [AVal v]))"

definition identity_decode :: "(64 word \<Rightarrow> int64) \<Rightarrow> gomap \<Rightarrow> identityConfig result" where
  "identity_decode oor cfg = (case as_string (map_index cfg ''issuer'') of
      None \<Rightarrow> Err (Errorf ''issuer: required string'' [])
    | Some iss \<Rightarrow>
        if iss = [] then Err (Errorf ''issuer: required string'' [])
        else bindR (wrapErr (\<lambda>err. Errorf ''tokenLifetimeSeconds: %w'' [AWrap err])
               (identity_toInt oor (map_index cfg ''tokenLifetimeSeconds''))) (\<lambda>lifetime.
          if int64_gt 5 lifetime \<or> int64_gt lifetime 300
          then Err (Errorf ''tokenLifetimeSeconds: want 5..300, got %d'' [AInt (sint lifetime)])
          else Ok \<lparr>ic_Issuer = iss, ic_Lifetime = lifetime * 1000000000\<rparr>))"

definition identity_Build :: "(64 word \<Rightarrow> int64) \<Rightarrow> (string \<Rightarrow> int64 \<Rightarrow> 'h result) \<Rightarrow> string \<Rightarrow> gomap \<Rightarrow> 'h result" where
  "identity_Build oor newSigner fid cfg =
     bindR (wrapErr (\<lambda>err. Errorf ''%s: %w'' [AStr fid, AWrap err]) (identity_decode oor cfg)) (\<lambda>c.
     wrapErr (\<lambda>err. Errorf ''%s: %w'' [AStr fid, AWrap err]) (newSigner (ic_Issuer c) (ic_Lifetime c)))"

section \<open>outputcontractjsonschema\<close>

definition allowedRootKeys :: "string list" where
  "allowedRootKeys = [''$schema'', ''type'', ''properties'', ''$ref'']"

definition jsonSchema_Build :: "string \<Rightarrow> gomap \<Rightarrow> OutputContract result" where
  "jsonSchema_Build fid cfg = (case map_lookup cfg ''schema'' of
      None \<Rightarrow> Err (Errorf ''%s: schema: required'' [AStr fid])
    | Some raw \<Rightarrow> (case raw of
          VMap schema \<Rightarrow>
            if length (elems schema) = 0
            then Err (Errorf ''%s: schema: empty; need at least one of %v at the root'' [AStr fid, AStrs allowedRootKeys])
            else if \<not> list_ex (\<lambda>k. map_lookup schema k \<noteq> None) allowedRootKeys
            then Err (Errorf ''%s: schema: must contain at least one of %v at the root'' [AStr fid, AStrs allowedRootKeys])
            else Ok \<lparr>oc_Schema = schema, oc_Descriptor = \<lparr>ocd_Name = ''json-schema'', ocd_Owner = ''core'',
                   ocd_Summary = ''structural JSON Schema; semantic validation deferred''\<rparr>\<rparr>
        | _ \<Rightarrow> Err (Errorf ''%s: schema: want map, got %T'' [AStr fid, AVal raw])))"

definition jsonSchemaFactory :: "string \<Rightarrow> OutputContract Factory" where
  "jsonSchemaFactory fid = \<lparr>f_ID = fid, f_Description = ''JSON Schema output contract (structural validation only)'',
     f_Build = (\<lambda>_. jsonSchema_Build fid)\<rparr>"

section \<open>skillstructuredoutput\<close>

definition structuredOutputSkill :: Skill where
  "structuredOutputSkill = \<lparr>
     sk_PromptFragment = ''Respond with JSON matching the required schema. Do not include prose outside the JSON.'',
     sk_RequiredTools = None,
     sk_RequiredPolicies = Some [\<lparr>rc_ID = ''policypack.pii-redaction@1.0.0'', rc_Config = Some [(''strictness'', VString ''medium'')]\<rparr>],
     sk_RequiredOutputContract = Some \<lparr>rc_ID = ''outputcontract.json-schema@1.0.0'', rc_Config = None\<rparr>,
     sk_Descriptor = \<lparr>sd_Name = ''structured-output'', sd_Owner = ''core'',
       sd_Summary = ''Emit JSON matching a schema; default PII-redaction policy.'',
       sd_Tags = Some [''structured'', ''json'', ''governance'']\<rparr>\<rparr>"

definition structuredOutputFactory :: "string \<Rightarrow> Skill Factory" where
  "structuredOutputFactory fid = \<lparr>f_ID = fid, f_Description = ''forces structured JSON output matching a supplied schema'',
     f_Build = (\<lambda>_ _. Ok structuredOutputSkill)\<rparr>"


section \<open>Lemmas\<close>

lemma sint_scaled:
  fixes w :: int64
  assumes "5 \<le> sint w" "sint w \<le> 300"
  shows "sint (w * 1000000000) = sint w * 1000000000"
proof -
  have "w * 1000000000 = word_of_int (sint w * 1000000000)" by (simp add: of_int_sint)
  also have "sint (word_of_int (sint w * 1000000000) :: int64) = sint w * 1000000000"
    using assms by (intro sint_word_of_int64) auto
  finally show ?thesis .
qed

lemma identity_decode_Ok:
  assumes "identity_decode oor cfg = Ok c"
  obtains n where "numberToInt oor (map_index cfg ''tokenLifetimeSeconds'') = Some n" "5 \<le> sint n" "sint n \<le> 300"
    "ic_Lifetime c = n * 1000000000" "ic_Issuer c \<noteq> []"
proof -
  from assms that show ?thesis
    by (auto simp: identity_decode_def identity_toInt_def split: option.splits if_splits)
qed

text \<open>A contract that meets the skill's requirement has a configuration equal to none.\<close>

lemma canonicalizeConfig_None: "canonicalizeConfig mo None = Ok ''null''"
  by (simp add: canonicalizeConfig_def)

lemma meets_None:
  assumes "meets mo rc e" "rc_Config rc = None"
  shows "cr_Ref e = rc_ID rc" "canonicalizeConfig mo (cr_Config e) = Ok ''null''"
  using assms by (auto simp: meets_def canonicalizeConfig_None CanonicalConfigsEqual_def)

lemma expandOne_values:
  assumes "expandOne mo ctx r i ref st = Ok st'"
  shows "\<exists>fac v. LookupSkill r (cr_Ref ref) = Ok fac \<and> f_Build fac ctx (cr_Config ref) = Ok v \<and>
    es_Skills st' = es_Skills st @ [\<lparr>rs_ID = cr_Ref ref, rs_Config = cr_Config ref, rs_Value = v\<rparr>]"
  using assms
  by (auto simp: expandOne_def Let_def split: if_splits dest!: injectTools_Ok injectPolicies_Ok injectContract_Ok)

lemma foldR_values:
  "foldR (expandOne mo ctx r) i refs st = Ok st' \<Longrightarrow> ref \<in> set refs \<Longrightarrow>
     \<exists>fac v. LookupSkill r (cr_Ref ref) = Ok fac \<and> f_Build fac ctx (cr_Config ref) = Ok v \<and>
       \<lparr>rs_ID = cr_Ref ref, rs_Config = cr_Config ref, rs_Value = v\<rparr> \<in> set (es_Skills st')"
proof (induction refs arbitrary: i st)
  case (Cons x refs)
  from Cons.prems(1) obtain u where u: "expandOne mo ctx r i x st = Ok u" "foldR (expandOne mo ctx r) (Suc i) refs u = Ok st'"
    by auto
  have keep: "set (es_Skills u) \<subseteq> set (es_Skills st')"
    by (rule foldR_invariant[OF u(2)]) (auto dest!: expandOne_values)
  show ?case
  proof (cases "ref = x")
    case True
    with expandOne_values[OF u(1)] keep show ?thesis by auto
  next
    case False
    with Cons.prems(2) Cons.IH[OF u(2)] show ?thesis by simp
  qed
qed simp

text \<open>With the structured-output skill in effect, so is its contract, without a configuration.\<close>

lemma structured_contract:
  assumes "expandSkills mo ctx s r = Ok es" and "ref \<in> set (elems (s_Skills s))"
    and "LookupSkill r (cr_Ref ref) = Ok (structuredOutputFactory fid)"
  shows "\<exists>e. s_OutputContract (ex_Spec es) = Some e \<and> cr_Ref e = ''outputcontract.json-schema@1.0.0'' \<and>
    canonicalizeConfig mo (cr_Config e) = Ok ''null''"
proof -
  from assms(1) obtain st where st: "foldR (expandOne mo ctx r) 0 (elems (s_Skills s)) (initExpand s) = Ok st"
    and es: "es = finishExpand s st" by (auto simp: expandSkills_def)
  have inv: "expandInv mo s st" by (rule foldR_expandInv[OF st]) (simp add: expandInv_def base_init)
  from foldR_values[OF st assms(2)] assms(3) have
    "\<exists>rs \<in> set (es_Skills st). rs_Value rs = structuredOutputSkill" by (force simp: structuredOutputFactory_def)
  with inv have "skillMet mo st structuredOutputSkill" by (auto simp: expandInv_def)
  then obtain e where "es_OutputContract st = Some e"
    "meets mo \<lparr>rc_ID = ''outputcontract.json-schema@1.0.0'', rc_Config = None\<rparr> e"
    by (auto simp: skillMet_def structuredOutputSkill_def)
  with meets_None show ?thesis by (fastforce simp: es finishExpand_def)
qed

lemma user_contract_kept:
  "expandSkills mo ctx s r = Ok es \<Longrightarrow> s_OutputContract s = Some oc \<Longrightarrow> s_OutputContract (ex_Spec es) = Some oc"
  using expandSkills_inv[of mo ctx s r es]
  by (auto simp: expandInv_def expandBase_def extends_def finishExpand_def)

text \<open>A lone skill that injects the contract injects it as it requires it.\<close>

lemma lone_contract:
  assumes "expandSkills mo ctx s r = Ok es" and "elems (s_Skills s) = [ref]"
    and "LookupSkill r (cr_Ref ref) = Ok (structuredOutputFactory fid)" and "s_OutputContract s = None"
  shows "\<exists>e. s_OutputContract (ex_Spec es) = Some e \<and> cr_Config e = None"
proof -
  from assms(1,2) obtain st where st: "expandOne mo ctx r 0 ref (initExpand s) = Ok st" and es: "es = finishExpand s st"
    by (auto simp: expandSkills_def)
  from st assms(3) obtain st2 st3 where
    p: "injectTools mo (cr_Ref ref) [] ((initExpand s)\<lparr>es_Skills := es_Skills (initExpand s) @
          [\<lparr>rs_ID = cr_Ref ref, rs_Config = cr_Config ref, rs_Value = structuredOutputSkill\<rparr>]\<rparr>) = Ok st2"
      "injectPolicies mo (cr_Ref ref) (elems (sk_RequiredPolicies structuredOutputSkill)) st2 = Ok st3"
    and c: "injectContract mo (cr_Ref ref) (sk_RequiredOutputContract structuredOutputSkill) st3 = Ok st"
    by (auto simp: expandOne_def Let_def structuredOutputFactory_def structuredOutputSkill_def split: if_splits)
  have "es_OutputContract st3 = None"
    using injectTools_Ok[OF p(1)] injectPolicies_Ok[OF p(2)] assms(4) by (auto simp: initExpand_def)
  with c have "es_OutputContract st = Some (requiredRef \<lparr>rc_ID = ''outputcontract.json-schema@1.0.0'', rc_Config = None\<rparr>)"
    by (auto simp: injectContract_def structuredOutputSkill_def injectOutputContract_def split: if_splits)
  then show ?thesis by (simp add: es finishExpand_def requiredRef_def)
qed

section \<open>Properties\<close>

text \<open>An accepted token lifetime lies between five and three hundred seconds, and its
  conversion to nanoseconds does not wrap around.\<close>

theorem identity_lifetime_bounds:
  assumes "identity_decode oor cfg = Ok c"
  shows "ic_Issuer c \<noteq> [] \<and> 5 * 10 ^ 9 \<le> sint (ic_Lifetime c) \<and> sint (ic_Lifetime c) \<le> 300 * 10 ^ 9 \<and>
    (\<exists>n. numberToInt oor (map_index cfg ''tokenLifetimeSeconds'') = Some n \<and> sint (ic_Lifetime c) = sint n * 10 ^ 9)"
  using assms by (elim identity_decode_Ok) (auto simp: sint_scaled)

theorem identity_lifetime_bounds_witness:
  "\<exists>c. identity_decode (\<lambda>_. 0) (Some [(''issuer'', VString ''forge''), (''tokenLifetimeSeconds'', VInt 60)]) = Ok c \<and>
     5 * 10 ^ 9 \<le> sint (ic_Lifetime c)"
proof -
  obtain c where c: "identity_decode (\<lambda>_. 0) (Some [(''issuer'', VString ''forge''), (''tokenLifetimeSeconds'', VInt 60)]) = Ok c"
    by (simp add: identity_decode_def identity_toInt_def map_index_def map_lookup_def as_string_def numberToInt_def)
  from identity_lifetime_bounds[OF this] c show ?thesis by blast
qed

lemma structured_skill_no_build:
  assumes "LookupSkill r (cr_Ref ref) = Ok (structuredOutputFactory fid)"
    and "LookupOutputContract r ''outputcontract.json-schema@1.0.0'' = Ok (jsonSchemaFactory ocid)"
    and "ref \<in> set (elems (s_Skills (ns_Spec ns)))"
    and "case s_OutputContract (ns_Spec ns) of
        None \<Rightarrow> elems (s_Skills (ns_Spec ns)) = [ref]
      | Some oc \<Rightarrow> canonicalizeConfig mo (cr_Config oc) \<noteq> Ok ''null''"
  shows "buildFrozen mo orchNew now ctx ns m r \<noteq> Ok ba"
proof
  assume "buildFrozen mo orchNew now ctx ns m r = Ok ba"
  then obtain es es' where es: "expandSkills mo ctx (ns_Spec ns) r = Ok es" "resolveOutputContract ctx es r = Ok es'"
    by (auto elim: buildFrozen_Ok)
  obtain e where e: "s_OutputContract (ex_Spec es) = Some e" "cr_Ref e = ''outputcontract.json-schema@1.0.0''"
    "canonicalizeConfig mo (cr_Config e) = Ok ''null''" using structured_contract[OF es(1) assms(3,1)] by blast
  show False
  proof (cases "s_OutputContract (ns_Spec ns)")
    case None
    then have "cr_Config e = None" using lone_contract[OF es(1) _ assms(1)] assms(4) e(1) by auto
    with es(2) e assms(2) show False
      by (auto simp: resolveOutputContract_def jsonSchemaFactory_def jsonSchema_Build_def map_lookup_def)
  next
    case (Some oc)
    with user_contract_kept[OF es(1)] e assms(4) show False by simp
  qed
qed

text \<open>The structured-output skill cannot be combined with the json-schema contract it
  requires: without a declared contract the injected one has no schema and fails to build, and
  a declared contract whose configuration has any content conflicts with the skill's empty
  requirement. Either way no agent is built.\<close>

theorem structured_output_skill_unusable:
  assumes "LookupSkill r (cr_Ref ref) = Ok (structuredOutputFactory fid)"
    and "LookupOutputContract r ''outputcontract.json-schema@1.0.0'' = Ok (jsonSchemaFactory ocid)"
    and "ref \<in> set (elems (s_Skills (ns_Spec ns)))"
    and "case s_OutputContract (ns_Spec ns) of
        None \<Rightarrow> elems (s_Skills (ns_Spec ns)) = [ref]
      | Some oc \<Rightarrow> canonicalizeConfig mo (cr_Config oc) \<noteq> Ok ''null''"
  shows "buildFrozen mo orchNew now ctx ns m r \<noteq> Ok ba"
  by (rule structured_skill_no_build[OF assms])

definition structuredRegistry :: "nat ComponentRegistry" where
  "structuredRegistry = fullRegistry\<lparr>
     skills := [''skill.s@1.0.0'' \<mapsto> structuredOutputFactory ''skill.s@1.0.0''],
     outputContracts := [''outputcontract.json-schema@1.0.0'' \<mapsto> jsonSchemaFactory ''outputcontract.json-schema@1.0.0'']\<rparr>"

theorem structured_output_skill_unusable_witness:
  "\<not> (\<exists>ba. buildFrozen (\<lambda>_. None) fakeNew 0 background skillNS freshMemos structuredRegistry = Ok (ba :: nat BuiltAgent))"
proof -
  have "s_Skills (ns_Spec skillNS) = Some [\<lparr>cr_Ref = ''skill.s@1.0.0'', cr_Config = None\<rparr>]"
    "s_OutputContract (ns_Spec skillNS) = None"
    by (simp_all add: skillNS_def skillSpec_def sampleSpec_def zeroAgentSpec_def)
  then show ?thesis
    using structured_output_skill_unusable[of structuredRegistry "\<lparr>cr_Ref = ''skill.s@1.0.0'', cr_Config = None\<rparr>"
        "''skill.s@1.0.0''" "''outputcontract.json-schema@1.0.0''" skillNS "\<lambda>_. None" fakeNew 0 background freshMemos]
    by (simp add: structuredRegistry_def LookupSkill_def LookupOutputContract_def)
qed

end
