(* ===== verification/FactoryCatalog.thy ===== *)
theory FactoryCatalog
  imports FactoryMisc FactoryFilters
begin

text \<open>
  The factories as the registry sees them. Each package under \<^verbatim>\<open>factories/\<close> has a \<^verbatim>\<open>NewFactory\<close>
  whose result carries an id, a description and a build function; this theory gives them all,
  over one type of built components: the dynamic types behind praxis' interfaces that the
  packages define themselves, and \<open>Praxis\<close> for an object a constructor of another package returned.

  The second half gives the components their behaviour as hooks, filters and invokers, so that a
  chain of components means what the packages compute.
\<close>

section \<open>Built components\<close>

datatype 'p component =
    Praxis 'p
  | HttpInvoker cfgShape
  | PiiHook string
  | SecretScrubber
  | PathEscape
  | OutputTruncate int64
  | SlogEmitter 'p string
  | SlogEnricher
  | EnvResolver

text \<open>
  What the factories call outside the repository: \<^verbatim>\<open>anthropic.New\<close>, \<^verbatim>\<open>budget.NullGuard\<close>,
  \<^verbatim>\<open>identity.NewEd25519Signer\<close> (by private key), \<^verbatim>\<open>slog.Default\<close>, and Go's conversion of a float
  outside the range of \<^verbatim>\<open>int\<close>.
\<close>

record ('k, 'p) praxis =
  px_anthropic :: "string \<Rightarrow> anthropicOption list \<Rightarrow> 'p"
  px_NullGuard :: 'p
  px_signer :: "'k \<Rightarrow> string \<Rightarrow> int64 \<Rightarrow> 'p result"
  px_defaultLog :: 'p
  px_oor :: "64 word \<Rightarrow> int64"

section \<open>The NewFactory functions\<close>

definition anthropicFactory :: "('k, 'p) praxis \<Rightarrow> string \<Rightarrow> string \<Rightarrow> 'p component Factory" where
  "anthropicFactory px fid apiKey = \<lparr>f_ID = fid, f_Description = ''Anthropic Claude provider'',
     f_Build = (\<lambda>_. anthropic_Build (px_oor px) (\<lambda>key opts. Praxis (px_anthropic px key opts)) fid apiKey)\<rparr>"

definition promptLiteralFactory :: "string \<Rightarrow> string Factory" where
  "promptLiteralFactory fid = \<lparr>f_ID = fid, f_Description = ''literal prompt asset'', f_Build = (\<lambda>_. promptLiteral_Build fid)\<rparr>"

definition httpGetFactory :: "('k, 'p) praxis \<Rightarrow> string \<Rightarrow> 'p component ToolPack Factory" where
  "httpGetFactory px fid = \<lparr>f_ID = fid, f_Description = ''single http_get tool with host allowlist'',
     f_Build = (\<lambda>_. httpGet_Build (px_oor px) HttpInvoker fid)\<rparr>"

definition piiFactory :: "string \<Rightarrow> 'p component PolicyPack Factory" where
  "piiFactory fid = \<lparr>f_ID = fid, f_Description = ''regex PII detector with tiered strictness'',
     f_Build = (\<lambda>_. pii_Build PiiHook fid)\<rparr>"

definition secretScrubberFactory :: "string \<Rightarrow> 'p component Factory" where
  "secretScrubberFactory fid = \<lparr>f_ID = fid, f_Description = ''redacts sk-*, ghp_*, AKIA patterns'',
     f_Build = (\<lambda>_ _. Ok SecretScrubber)\<rparr>"

definition pathEscapeFactory :: "string \<Rightarrow> 'p component Factory" where
  "pathEscapeFactory fid = \<lparr>f_ID = fid, f_Description = ''blocks ../ path traversal in tool args'',
     f_Build = (\<lambda>_ _. Ok PathEscape)\<rparr>"

definition outputTruncateFactory :: "('k, 'p) praxis \<Rightarrow> string \<Rightarrow> 'p component Factory" where
  "outputTruncateFactory px fid = \<lparr>f_ID = fid, f_Description = ''truncates tool output to maxBytes'',
     f_Build = (\<lambda>_ cfg. bindR (outputTruncate_Build (px_oor px) fid cfg) (\<lambda>n. Ok (OutputTruncate n)))\<rparr>"

definition budgetDefaultFactory :: "('k, 'p) praxis \<Rightarrow> string \<Rightarrow> 'p component BudgetProfile Factory" where
  "budgetDefaultFactory px fid = \<lparr>f_ID = fid, f_Description = ''default tier-1 budget profile'',
     f_Build = (\<lambda>_ _. budgetDefault_Build (Praxis (px_NullGuard px)))\<rparr>"

text \<open>A nil logger is replaced by the default one when the factory is made.\<close>

definition slogFactory :: "('k, 'p) praxis \<Rightarrow> string \<Rightarrow> 'p option \<Rightarrow> 'p component TelemetryProfile Factory" where
  "slogFactory px fid log =
     (let log = (case log of None \<Rightarrow> px_defaultLog px | Some l \<Rightarrow> l)
      in \<lparr>f_ID = fid, f_Description = ''slog lifecycle emitter + enricher'',
          f_Build = (\<lambda>_. slog_Build (SlogEmitter log) SlogEnricher fid)\<rparr>)"

definition credEnvFactory :: "string \<Rightarrow> 'p component option Factory" where
  "credEnvFactory fid = \<lparr>f_ID = fid, f_Description = ''env-var credential resolver'', f_Build = (\<lambda>_ _. Ok (Some EnvResolver))\<rparr>"

definition identityFactory :: "('k, 'p) praxis \<Rightarrow> string \<Rightarrow> 'k \<Rightarrow> 'p component option Factory" where
  "identityFactory px fid priv = \<lparr>f_ID = fid, f_Description = ''Ed25519 JWT identity signer'',
     f_Build = (\<lambda>_ cfg. bindR (identity_Build (px_oor px) (px_signer px priv) fid cfg) (\<lambda>s. Ok (Some (Praxis s))))\<rparr>"

lemmas factory_defs =
  anthropicFactory_def promptLiteralFactory_def httpGetFactory_def piiFactory_def secretScrubberFactory_def
  pathEscapeFactory_def outputTruncateFactory_def budgetDefaultFactory_def slogFactory_def credEnvFactory_def
  identityFactory_def jsonSchemaFactory_def structuredOutputFactory_def mcpFactory_def

lemma f_ID_factories [simp]:
  "f_ID (anthropicFactory px fid key) = fid" "f_ID (promptLiteralFactory fid) = fid" "f_ID (httpGetFactory px fid) = fid"
  "f_ID (piiFactory fid) = fid" "f_ID (secretScrubberFactory fid) = fid" "f_ID (pathEscapeFactory fid) = fid"
  "f_ID (outputTruncateFactory px fid) = fid" "f_ID (budgetDefaultFactory px fid) = fid" "f_ID (slogFactory px fid log) = fid"
  "f_ID (credEnvFactory fid) = fid" "f_ID (identityFactory px fid priv) = fid" "f_ID (jsonSchemaFactory fid) = fid"
  "f_ID (structuredOutputFactory fid) = fid" "f_ID (mcpFactory fid) = fid"
  by (simp_all add: factory_defs Let_def)

section \<open>Behaviour\<close>

text \<open>
  Method dispatch on the dynamic type. The last argument is what an object of another package
  does; a component of the repository behind the wrong interface cannot occur in Go, where the
  compiler checks it, and is given that behaviour as well.
\<close>

fun runPreLLM :: "('p component \<Rightarrow> ('c, 'x Message slice) Filter) \<Rightarrow> 'p component \<Rightarrow> ('c, 'x Message slice) Filter" where
  "runPreLLM other SecretScrubber = secretScrubber_Filter"
| "runPreLLM other c = other c"

fun runPreTool :: "('p component \<Rightarrow> ('c, ToolCall) Filter) \<Rightarrow> 'p component \<Rightarrow> ('c, ToolCall) Filter" where
  "runPreTool other PathEscape = pathEscape_Filter"
| "runPreTool other c = other c"

fun runPostTool :: "('p component \<Rightarrow> ('c, ToolResult) Filter) \<Rightarrow> 'p component \<Rightarrow> ('c, ToolResult) Filter" where
  "runPostTool other (OutputTruncate n) = outputTruncate_Filter n"
| "runPostTool other c = other c"

fun runPolicy :: "('p component \<Rightarrow> 'x PolicyInput PolicyHook) \<Rightarrow> 'p component \<Rightarrow> 'x PolicyInput PolicyHook" where
  "runPolicy other (PiiHook mode) = pii_Evaluate mode"
| "runPolicy other c = other c"

text \<open>The invoker also reports the requests it sent.\<close>

fun runTool :: "net \<Rightarrow> ('p component \<Rightarrow> ToolCall \<Rightarrow> (ToolResult \<times> string list) result) \<Rightarrow> 'p component \<Rightarrow> ToolCall \<Rightarrow>
    (ToolResult \<times> string list) result" where
  "runTool nt other (HttpInvoker c) call = httpGet_Invoke nt (hg_AllowedHosts c) call"
| "runTool nt other c call = other c call"

end
