(* ===== verification/ExampleWindow.thy ===== *)
theory ExampleWindow
  imports FactoryFilters
begin

text \<open>
  The caller-owned context window of \<^verbatim>\<open>examples/sliding-window-filter\<close>: a filter that runs
  before the model is called and keeps the last \<open>MaxTurns\<close> messages that are not system
  messages, with the factory that configures it and the synthetic conversation of the
  demonstration.

  \<open>MaxTurns\<close> is a Go \<^verbatim>\<open>int\<close>. A negative bound would slice past the end of the conversation,
  which Go answers with a panic, so the filter returns a result; the factory never builds
  such a filter.
\<close>

section \<open>main.go: the filter and its factory\<close>

text \<open>The loop that splits system messages from the conversation, in order.\<close>

fun splitSystem :: "'x Message list \<Rightarrow> 'x Message list \<Rightarrow> 'x Message list \<Rightarrow> 'x Message list \<times> 'x Message list" where
  "splitSystem system convo [] = (system, convo)"
| "splitSystem system convo (m # ms) =
     (if msg_Role m = RoleSystem then splitSystem (system @ [m]) convo ms
      else splitSystem system (convo @ [m]) ms)"

definition windowReason :: "nat \<Rightarrow> string" where
  "windowReason dropped = ''sliding-window truncation: dropped '' @ decInt (int dropped) @ '' oldest turns''"

definition slidingWindow_Filter :: "int64 \<Rightarrow> 'c \<Rightarrow> 'x Message slice \<Rightarrow> 'x Message slice filtered result" where
  "slidingWindow_Filter maxTurns ctx messages =
     (let (system, convo) = splitSystem [] [] (elems messages) in
      if int (length convo) \<le> sint maxTurns then Ok (messages, [], None)
      else if sint maxTurns < 0 then Panic ''slice bounds out of range''
      else
        let kept = drop (length convo - nat (sint maxTurns)) convo;
            out = system @ kept;
            dropped = length convo - length kept
        in Ok (Some out, [\<lparr>fd_Action = FilterActionRedact, fd_Field = ''messages'', fd_Reason = windowReason dropped\<rparr>], None))"

text \<open>\<^verbatim>\<open>cfg["maxTurns"].(int)\<close>, where any other dynamic type gives zero.\<close>

definition slidingWindow_Build :: "gomap \<Rightarrow> int64" where
  "slidingWindow_Build cfg =
     (let n = (case map_index cfg ''maxTurns'' of VInt i \<Rightarrow> i | _ \<Rightarrow> 0)
      in if sint n \<le> 0 then 10 else n)"

text \<open>\<open>textPart\<close> is \<^verbatim>\<open>llm.TextPart\<close> of praxis.\<close>

definition synthConversation :: "(string \<Rightarrow> 'x MessagePart) \<Rightarrow> nat \<Rightarrow> 'x Message list" where
  "synthConversation textPart n =
     map (\<lambda>i. \<lparr>msg_Role = (if i mod 2 = 1 then RoleAssistant else RoleUser),
               msg_Parts = Some [textPart (''turn '' @ decInt (int i))]\<rparr>) [0..<n]"

fun firstText :: "'x MessagePart list \<Rightarrow> string" where
  "firstText [] = ''(no text)''"
| "firstText (p # ps) = (if mp_Type p = PartTypeText then mp_Text p else firstText ps)"

definition textOf :: "'x Message option \<Rightarrow> string" where
  "textOf m = (case m of None \<Rightarrow> ''(nil)'' | Some m \<Rightarrow> firstText (elems (msg_Parts m)))"

section \<open>What the window keeps\<close>

abbreviation systemMsgs :: "'x Message list \<Rightarrow> 'x Message list" where
  "systemMsgs \<equiv> filter (\<lambda>m. msg_Role m = RoleSystem)"

abbreviation turns :: "'x Message list \<Rightarrow> 'x Message list" where
  "turns \<equiv> filter (\<lambda>m. msg_Role m \<noteq> RoleSystem)"

lemma splitSystem_filters: "splitSystem sy co ms = (sy @ systemMsgs ms, co @ turns ms)"
  by (induction sy co ms rule: splitSystem.induct) simp_all

text \<open>The last \<open>n\<close> elements.\<close>

definition lastN :: "nat \<Rightarrow> 'a list \<Rightarrow> 'a list" where
  "lastN n xs = drop (length xs - n) xs"

lemma set_lastN: "set (lastN n xs) \<subseteq> set xs"
  by (simp add: lastN_def set_drop_subset)

lemma length_lastN [simp]: "length (lastN n xs) = min n (length xs)"
  by (simp add: lastN_def)

lemma lastN_all: "length xs \<le> n \<Longrightarrow> lastN n xs = xs"
  by (simp add: lastN_def)

lemma slidingWindow_Build_positive: "0 < sint (slidingWindow_Build cfg)"
  by (simp add: slidingWindow_Build_def Let_def)

lemma slidingWindow_Filter_eq:
  assumes "0 \<le> sint n"
  shows "slidingWindow_Filter n ctx ms =
    (let cut = length (turns (elems ms)) - nat (sint n) in
     if cut = 0 then Ok (ms, [], None)
     else Ok (Some (systemMsgs (elems ms) @ lastN (nat (sint n)) (turns (elems ms))),
       [\<lparr>fd_Action = FilterActionRedact, fd_Field = ''messages'', fd_Reason = windowReason cut\<rparr>], None))"
  using assms by (auto simp: slidingWindow_Filter_def splitSystem_filters lastN_def Let_def)

text \<open>A message list that is within the bound passes unchanged, so the filter is idempotent.\<close>

lemma turns_of_window: "turns (systemMsgs xs @ lastN n (turns xs)) = lastN n (turns xs)"
proof -
  have "set (lastN n (turns xs)) \<subseteq> set (turns xs)" by (rule set_lastN)
  then have "filter (\<lambda>m. msg_Role m \<noteq> RoleSystem) (lastN n (turns xs)) = lastN n (turns xs)"
    by (intro filter_True) auto
  then show ?thesis by (simp add: filter_empty_conv)
qed

lemma system_of_window: "systemMsgs (systemMsgs xs @ lastN n (turns xs)) = systemMsgs xs"
proof -
  have "set (lastN n (turns xs)) \<subseteq> set (turns xs)" by (rule set_lastN)
  then show ?thesis by (auto simp: filter_empty_conv)
qed

text \<open>C38. A sliding window that the factory built, whatever its configuration, never panics
  and never errs. It returns at most \<open>MaxTurns\<close> messages that are not system messages, and
  these are the last ones of its input, in order; every system message is kept, in order. It
  reports exactly one redaction when something was dropped and none otherwise, and applied to
  its own output it changes nothing.\<close>

theorem sliding_window_keeps_last:
  "\<exists>out ds. slidingWindow_Filter (slidingWindow_Build cfg) ctx ms = Ok (out, ds, None) \<and>
     turns (elems out) = lastN (nat (sint (slidingWindow_Build cfg))) (turns (elems ms)) \<and>
     int (length (turns (elems out))) \<le> sint (slidingWindow_Build cfg) \<and>
     systemMsgs (elems out) = systemMsgs (elems ms) \<and>
     length ds = (if length (elems out) < length (elems ms) then 1 else 0) \<and>
     slidingWindow_Filter (slidingWindow_Build cfg) ctx out = Ok (out, [], None)"
proof -
  let ?n = "slidingWindow_Build cfg" and ?xs = "elems ms"
  have n: "0 \<le> sint ?n" using slidingWindow_Build_positive [of cfg] by simp
  note F = slidingWindow_Filter_eq [OF n]
  have len: "length ?xs = length (systemMsgs ?xs) + length (turns ?xs)"
    using sum_length_filter_compl [of "\<lambda>m. msg_Role m = RoleSystem" ?xs] by simp
  show ?thesis
  proof (cases "length (turns ?xs) \<le> nat (sint ?n)")
    case True
    then show ?thesis using n by (auto simp: F lastN_all)
  next
    case False
    let ?out = "Some (systemMsgs ?xs @ lastN (nat (sint ?n)) (turns ?xs))"
    have "slidingWindow_Filter ?n ctx ?out = Ok (?out, [], None)"
      unfolding F by (simp add: turns_of_window Let_def del: filter_append)
    with False n len show ?thesis
      by (auto simp: F Let_def turns_of_window system_of_window simp del: filter_append)
  qed
qed

text \<open>The demonstration: twenty-five synthetic turns are cut to ten.\<close>

lemma synthConversation_cut:
  "slidingWindow_Filter 10 ctx (Some (synthConversation tp 25)) =
     Ok (Some (drop 15 (synthConversation tp 25)),
       [\<lparr>fd_Action = FilterActionRedact, fd_Field = ''messages'', fd_Reason = windowReason 15\<rparr>], None)"
proof -
  have "systemMsgs (synthConversation tp 25) = []"
    by (auto simp: synthConversation_def filter_empty_conv)
  moreover have "turns (synthConversation tp 25) = synthConversation tp 25"
    by (auto intro!: filter_True simp: synthConversation_def)
  ultimately show ?thesis
    by (simp add: slidingWindow_Filter_eq lastN_def synthConversation_def)
qed

end
