(* ===== verification/ExampleSession.thy ===== *)
theory ExampleSession
  imports ExampleWindow FactoryMisc
begin

text \<open>
  The caller-owned session of \<^verbatim>\<open>examples/session-pattern\<close>: the policy that asks for approval
  (\<^verbatim>\<open>main.go\<close>), the session record, the in-memory store and the two operations
  \<^verbatim>\<open>Turn\<close> and \<^verbatim>\<open>Resume\<close> of \<^verbatim>\<open>session.go\<close>.

  \<^verbatim>\<open>Store.Load\<close> returns a pointer, and \<^verbatim>\<open>Turn\<close> writes through it before anything is saved,
  so sessions live on a heap of addresses and a store maps ids to addresses. The agent's
  \<^verbatim>\<open>Invoke\<close> is the orchestrator of another package: it is an argument, with the outcome it
  has for a request. The mutex of \<^verbatim>\<open>InMemoryStore\<close> makes each store call atomic; the histories
  here are sequences of whole operations.
\<close>

section \<open>main.go: the approval policy\<close>

record 'x gatedInput = "'x PolicyInput" +
  pi_Phase :: string
  pi_Metadata :: "(string \<times> string) list option"

definition metadata_index :: "(string \<times> string) list option \<Rightarrow> string \<Rightarrow> string" where
  "metadata_index m k = (case m of None \<Rightarrow> [] | Some kvs \<Rightarrow> (case map_of kvs k of None \<Rightarrow> [] | Some v \<Rightarrow> v))"

definition marked :: "(string \<Rightarrow> string) \<Rightarrow> 'x MessagePart \<Rightarrow> bool" where
  "marked uni p \<longleftrightarrow> mp_Type p = PartTypeText \<and> containsSub (ToUpper uni (mp_Text p)) ''SENSITIVE''"

text \<open>
  The loop from the last message back to the most recent one of the user. \<open>allow\<close> and
  \<open>requireApproval\<close> are the constructors of praxis' \<^verbatim>\<open>hooks\<close> package.
\<close>

fun latestUserLoop :: "(string \<Rightarrow> string) \<Rightarrow> Decision \<Rightarrow> (string \<Rightarrow> gomap \<Rightarrow> Decision) \<Rightarrow> 'x Message list \<Rightarrow> Decision" where
  "latestUserLoop uni allow requireApproval [] = allow"
| "latestUserLoop uni allow requireApproval (m # ms) =
     (if msg_Role m \<noteq> RoleUser then latestUserLoop uni allow requireApproval ms
      else if list_ex (marked uni) (elems (msg_Parts m))
      then requireApproval ''latest user message contains SENSITIVE marker'' (Some [(''marker'', VString ''SENSITIVE'')])
      else allow)"

definition sensitivity_Evaluate ::
  "string \<Rightarrow> (string \<Rightarrow> string) \<Rightarrow> Decision \<Rightarrow> (string \<Rightarrow> gomap \<Rightarrow> Decision) \<Rightarrow> 'x gatedInput PolicyHook" where
  "sensitivity_Evaluate preInvocation uni allow requireApproval inp =
     (if pi_Phase inp \<noteq> preInvocation then Ok allow
      else if metadata_index (pi_Metadata inp) ''approval_decision'' = ''approved'' then Ok allow
      else Ok (latestUserLoop uni allow requireApproval (rev (elems (pi_Messages inp)))))"

section \<open>session.go: sessions, requests and outcomes\<close>

record 'x ApprovalSnapshot =
  as_Model :: string
  as_SystemPrompt :: string
  as_Messages :: "'x Message slice"

record 'x Session =
  se_ID :: string
  se_Messages :: "'x Message slice"
  se_PendingApproval :: "'x ApprovalSnapshot option"
  se_Updated :: int

definition freshSession :: "string \<Rightarrow> 'x Session" where
  "freshSession i = \<lparr>se_ID = i, se_Messages = None, se_PendingApproval = None, se_Updated = 0\<rparr>"

record 'x InvocationRequest =
  rq_Model :: string
  rq_SystemPrompt :: string
  rq_Messages :: "'x Message slice"
  rq_Metadata :: "(string \<times> string) list option"

text \<open>
  What \<^verbatim>\<open>Invoke\<close> and then \<^verbatim>\<open>Turn\<close> give: a response (\<open>None\<close> a nil pointer), or an error with the
  snapshot of the \<^verbatim>\<open>ApprovalRequiredError\<close> that \<^verbatim>\<open>errors.As\<close> finds in it, if any.
\<close>

datatype ('x, 'r) outcome =
    Done 'r
  | Failed gerror "'x ApprovalSnapshot option"
  | Crashed string

text \<open>
  The \<^verbatim>\<open>Store\<close> interface beside the heap it hands out pointers into: reading and writing a session
  object is the language's, \<^verbatim>\<open>Load\<close> and \<^verbatim>\<open>Save\<close> are the implementation's. \<^verbatim>\<open>Save\<close> reads the clock.
\<close>

record ('w, 'x) sessionStore =
  ss_deref :: "'w \<Rightarrow> nat \<Rightarrow> 'x Session option"
  ss_poke :: "'w \<Rightarrow> nat \<Rightarrow> 'x Session \<Rightarrow> 'w"
  ss_Load :: "'w \<Rightarrow> string \<Rightarrow> nat result \<times> 'w"
  ss_Save :: "int \<Rightarrow> 'w \<Rightarrow> nat \<Rightarrow> unit result \<times> 'w"

record 'x memWorld =
  mw_heap :: "nat \<Rightarrow> 'x Session option"
  mw_next :: nat
  mw_data :: "string \<Rightarrow> nat option"

definition NewInMemoryStore :: "'x memWorld" where
  "NewInMemoryStore = \<lparr>mw_heap = (\<lambda>_. None), mw_next = 0, mw_data = (\<lambda>_. None)\<rparr>"

definition mem_poke :: "'x memWorld \<Rightarrow> nat \<Rightarrow> 'x Session \<Rightarrow> 'x memWorld" where
  "mem_poke w a s = w\<lparr>mw_heap := (mw_heap w)(a \<mapsto> s)\<rparr>"

definition InMemoryStore_Load :: "'x memWorld \<Rightarrow> string \<Rightarrow> nat result \<times> 'x memWorld" where
  "InMemoryStore_Load w i =
     (case mw_data w i of
        Some existing \<Rightarrow> (Ok existing, w)
      | None \<Rightarrow> (Ok (mw_next w), w\<lparr>mw_heap := (mw_heap w)(mw_next w \<mapsto> freshSession i), mw_next := Suc (mw_next w)\<rparr>))"

definition nilDeref :: string where
  "nilDeref = ''nil pointer dereference''"

definition InMemoryStore_Save :: "int \<Rightarrow> 'x memWorld \<Rightarrow> nat \<Rightarrow> unit result \<times> 'x memWorld" where
  "InMemoryStore_Save now w a =
     (case mw_heap w a of
        None \<Rightarrow> (Panic nilDeref, w)
      | Some sess \<Rightarrow>
          let sess = sess\<lparr>se_Updated := now\<rparr> in
          (Ok (), w\<lparr>mw_heap := (mw_heap w)(a \<mapsto> sess), mw_data := (mw_data w)(se_ID sess \<mapsto> a)\<rparr>))"

definition InMemoryStore :: "('x memWorld, 'x) sessionStore" where
  "InMemoryStore = \<lparr>ss_deref = mw_heap, ss_poke = mem_poke, ss_Load = InMemoryStore_Load, ss_Save = InMemoryStore_Save\<rparr>"

section \<open>session.go: Turn and Resume\<close>

text \<open>\<open>ap_textPart\<close> is \<^verbatim>\<open>llm.TextPart\<close>; the agent enters by its system prompt and \<open>invoke\<close>.\<close>

record 'x App =
  ap_Model :: string
  ap_SystemPrompt :: string
  ap_textPart :: "string \<Rightarrow> 'x MessagePart"

definition userMessage :: "'x App \<Rightarrow> string \<Rightarrow> 'x Message" where
  "userMessage app userInput = \<lparr>msg_Role = RoleUser, msg_Parts = Some [ap_textPart app userInput]\<rparr>"

definition addMessage :: "'x Message \<Rightarrow> 'x Session \<Rightarrow> 'x Session" where
  "addMessage m sess = sess\<lparr>se_Messages := Some (elems (se_Messages sess) @ [m])\<rparr>"

type_synonym 'x agentInvoke = "'x InvocationRequest \<Rightarrow> ('x, 'x Message option) outcome"

definition turnRequest :: "'x App \<Rightarrow> 'x Session \<Rightarrow> 'x InvocationRequest" where
  "turnRequest app sess = \<lparr>rq_Model = ap_Model app, rq_SystemPrompt = ap_SystemPrompt app,
     rq_Messages = se_Messages sess, rq_Metadata = None\<rparr>"

definition persist :: "('w, 'x) sessionStore \<Rightarrow> int \<Rightarrow> 'w \<Rightarrow> nat \<Rightarrow> (gerror \<Rightarrow> gerror) \<Rightarrow> ('x, 'r) outcome \<Rightarrow> ('x, 'r) outcome \<times> 'w" where
  "persist st now w a wrap res =
     (case ss_Save st now w a of
        (Ok _, w) \<Rightarrow> (res, w)
      | (Err saveErr, w) \<Rightarrow> (Failed (wrap saveErr) None, w)
      | (Panic p, w) \<Rightarrow> (Crashed p, w))"

definition Turn :: "('w, 'x) sessionStore \<Rightarrow> 'x App \<Rightarrow> 'x agentInvoke \<Rightarrow> int \<Rightarrow> 'w \<Rightarrow> string \<Rightarrow> string \<Rightarrow>
    ('x, 'x Message) outcome \<times> 'w" where
  "Turn st app invoke now w i userInput =
     (case ss_Load st w i of
        (Err err, w) \<Rightarrow> (Failed err None, w)
      | (Panic p, w) \<Rightarrow> (Crashed p, w)
      | (Ok a, w) \<Rightarrow>
        (case ss_deref st w a of
           None \<Rightarrow> (Crashed nilDeref, w)
         | Some sess \<Rightarrow>
           if se_PendingApproval sess \<noteq> None
           then (Failed (Errorf ''session %s: pending approval; call Resume first'' [AStr i]) None, w)
           else
             let sess = addMessage (userMessage app userInput) sess;
                 w = ss_poke st w a sess
             in (case invoke (turnRequest app sess) of
                   Failed err (Some snap) \<Rightarrow>
                     persist st now (ss_poke st w a (sess\<lparr>se_PendingApproval := Some snap\<rparr>)) a
                       (\<lambda>e. Errorf ''persist pending approval: %w'' [AWrap e]) (Failed err (Some snap))
                 | Failed err None \<Rightarrow> (Failed err None, w)
                 | Crashed p \<Rightarrow> (Crashed p, w)
                 | Done None \<Rightarrow> (Crashed nilDeref, w)
                 | Done (Some resp) \<Rightarrow>
                     persist st now (ss_poke st w a (addMessage resp sess)) a
                       (\<lambda>e. Errorf ''persist turn: %w'' [AWrap e]) (Done resp))))"

definition resumeRequest :: "'x ApprovalSnapshot \<Rightarrow> 'x InvocationRequest" where
  "resumeRequest snap = \<lparr>rq_Model = as_Model snap, rq_SystemPrompt = as_SystemPrompt snap,
     rq_Messages = as_Messages snap, rq_Metadata = Some [(''approval_decision'', ''approved'')]\<rparr>"

definition Resume :: "('w, 'x) sessionStore \<Rightarrow> 'x agentInvoke \<Rightarrow> int \<Rightarrow> 'w \<Rightarrow> string \<Rightarrow> bool \<Rightarrow>
    ('x, unit) outcome \<times> 'w" where
  "Resume st invoke now w i approved =
     (case ss_Load st w i of
        (Err err, w) \<Rightarrow> (Failed err None, w)
      | (Panic p, w) \<Rightarrow> (Crashed p, w)
      | (Ok a, w) \<Rightarrow>
        (case ss_deref st w a of
           None \<Rightarrow> (Crashed nilDeref, w)
         | Some sess \<Rightarrow>
           (case se_PendingApproval sess of
              None \<Rightarrow> (Failed (Errorf ''session %s: no pending approval'' [AStr i]) None, w)
            | Some snap \<Rightarrow>
              if \<not> approved
              then persist st now (ss_poke st w a (sess\<lparr>se_PendingApproval := None\<rparr>)) a (\<lambda>e. e) (Done ())
              else
                (case invoke (resumeRequest snap) of
                   Failed err x \<Rightarrow> (Failed err x, w)
                 | Crashed p \<Rightarrow> (Crashed p, w)
                 | Done None \<Rightarrow> (Crashed nilDeref, ss_poke st w a (sess\<lparr>se_Messages := as_Messages snap\<rparr>))
                 | Done (Some resp) \<Rightarrow>
                     persist st now
                       (ss_poke st w a ((addMessage resp (sess\<lparr>se_Messages := as_Messages snap\<rparr>))\<lparr>se_PendingApproval := None\<rparr>))
                       a (\<lambda>e. e) (Done ())))))"

section \<open>What a store promises\<close>

lemma addMessage_simps [simp]:
  "se_ID (addMessage m s) = se_ID s" "se_PendingApproval (addMessage m s) = se_PendingApproval s"
  "elems (se_Messages (addMessage m s)) = elems (se_Messages s) @ [m]"
  "se_Updated (addMessage m s) = se_Updated s"
  by (simp_all add: addMessage_def)

lemma freshSession_simps [simp]:
  "se_ID (freshSession i) = i" "se_PendingApproval (freshSession i) = None" "se_Messages (freshSession i) = None"
  by (simp_all add: freshSession_def)

text \<open>The session \<^verbatim>\<open>Load\<close> hands out for an id: the stored one, or a fresh one.\<close>

definition orFresh :: "('w \<Rightarrow> string \<Rightarrow> 'x Session option) \<Rightarrow> 'w \<Rightarrow> string \<Rightarrow> 'x Session" where
  "orFresh get w i = (case get w i of None \<Rightarrow> freshSession i | Some s \<Rightarrow> s)"

text \<open>
  The contract of \<^verbatim>\<open>Store\<close>, for a store that hands out its own records as well as for one that
  hands out copies: \<open>get\<close> reads what is stored. Writing through a loaded pointer may or may not
  change what is stored under the session's own id, and never what is stored under another.
\<close>

locale session_store =
  fixes st :: "('w, 'x) sessionStore"
    and inv :: "'w \<Rightarrow> bool"
    and get :: "'w \<Rightarrow> string \<Rightarrow> 'x Session option"
  assumes get_id: "inv w \<Longrightarrow> get w i = Some s \<Longrightarrow> se_ID s = i"
    and load_keeps: "inv w \<Longrightarrow> ss_Load st w i = (r, w') \<Longrightarrow> inv w' \<and> get w' = get w"
    and load_gives: "inv w \<Longrightarrow> ss_Load st w i = (Ok a, w') \<Longrightarrow> ss_deref st w' a = Some (orFresh get w i)"
    and poke_inv: "inv w \<Longrightarrow> ss_deref st w a = Some s \<Longrightarrow> se_ID s' = se_ID s \<Longrightarrow> inv (ss_poke st w a s')"
    and poke_deref: "inv w \<Longrightarrow> ss_deref st w a = Some s \<Longrightarrow> se_ID s' = se_ID s \<Longrightarrow>
          ss_deref st (ss_poke st w a s') a = Some s'"
    and poke_other: "inv w \<Longrightarrow> ss_deref st w a = Some s \<Longrightarrow> se_ID s' = se_ID s \<Longrightarrow> j \<noteq> se_ID s \<Longrightarrow>
          get (ss_poke st w a s') j = get w j"
    and save_inv: "inv w \<Longrightarrow> ss_deref st w a = Some s \<Longrightarrow> ss_Save st now w a = (q, w') \<Longrightarrow> inv w'"
    and save_other: "inv w \<Longrightarrow> ss_deref st w a = Some s \<Longrightarrow> ss_Save st now w a = (q, w') \<Longrightarrow> j \<noteq> se_ID s \<Longrightarrow>
          get w' j = get w j"
    and save_stores: "inv w \<Longrightarrow> ss_deref st w a = Some s \<Longrightarrow> ss_Save st now w a = (Ok u, w') \<Longrightarrow>
          get w' (se_ID s) = Some (s\<lparr>se_Updated := now\<rparr>)"
begin

definition keeps :: "string \<Rightarrow> 'w \<Rightarrow> 'w \<Rightarrow> bool" where
  "keeps i w w' \<longleftrightarrow> inv w' \<and> (\<forall>j. j \<noteq> i \<longrightarrow> get w' j = get w j)"

lemma keeps_refl: "inv w \<Longrightarrow> keeps i w w"
  by (simp add: keeps_def)

lemma keeps_trans: "keeps i w w1 \<Longrightarrow> keeps i w1 w2 \<Longrightarrow> keeps i w w2"
  by (simp add: keeps_def)

lemma orFresh_id: "inv w \<Longrightarrow> se_ID (orFresh get w i) = i"
  by (auto simp: orFresh_def get_id split: option.split)

lemma poke_keeps:
  "inv w \<Longrightarrow> ss_deref st w a = Some s \<Longrightarrow> se_ID s = i \<Longrightarrow> se_ID s' = i \<Longrightarrow> keeps i w (ss_poke st w a s')"
  by (simp add: keeps_def poke_inv poke_other)

lemma persist_keeps:
  assumes "inv w" "ss_deref st w a = Some s" "se_ID s = i" "persist st now w a wrap res = (r, w')"
  shows "keeps i w w'"
  using assms by (auto simp: persist_def keeps_def split: prod.splits result.splits intro: save_inv save_other)

text \<open>Writing and then saving stores what was written.\<close>

lemma poke_persist:
  assumes w: "inv w" "ss_deref st w a = Some s" "se_ID s = i" "se_ID s' = i"
    and p: "persist st now (ss_poke st w a s') a wrap res = (r, w')"
  shows "keeps i w w'"
    and "r = res \<Longrightarrow> (\<And>e. res \<noteq> Failed (wrap e) None) \<Longrightarrow> (\<And>e. res \<noteq> Crashed e) \<Longrightarrow>
      get w' i = Some (s'\<lparr>se_Updated := now\<rparr>)"
proof -
  have inv': "inv (ss_poke st w a s')" and d: "ss_deref st (ss_poke st w a s') a = Some s'"
    using w by (simp_all add: poke_inv poke_deref)
  show "keeps i w w'"
    by (rule keeps_trans [OF poke_keeps [OF w] persist_keeps [OF inv' d w(4) p]])
  show "get w' i = Some (s'\<lparr>se_Updated := now\<rparr>)"
    if "r = res" "\<And>e. res \<noteq> Failed (wrap e) None" "\<And>e. res \<noteq> Crashed e"
    using p that save_stores [OF inv' d] w(4) by (auto simp: persist_def split: prod.splits result.splits)
qed

lemma loaded:
  assumes "inv w" "ss_Load st w i = (Ok a, w1)"
  shows "inv w1" "ss_deref st w1 a = Some (orFresh get w i)" "se_ID (orFresh get w i) = i" "keeps i w w1" "get w1 = get w"
  using assms load_keeps [of w i "Ok a" w1] by (auto simp: load_gives orFresh_id keeps_def)

lemma not_loaded:
  assumes "inv w" "ss_Load st w i = (l, w1)"
  shows "keeps i w w1"
  using load_keeps [OF assms] by (simp add: keeps_def)

text \<open>The write of the user's message, which precedes the call of the agent.\<close>

lemma user_written:
  assumes "inv w" "ss_Load st w i = (Ok a, w1)"
  shows "inv (ss_poke st w1 a (addMessage m (orFresh get w i)))"
    "ss_deref st (ss_poke st w1 a (addMessage m (orFresh get w i))) a = Some (addMessage m (orFresh get w i))"
    "se_ID (addMessage m (orFresh get w i)) = i"
    "keeps i w (ss_poke st w1 a (addMessage m (orFresh get w i)))"
proof -
  note l = loaded [OF assms]
  show "se_ID (addMessage m (orFresh get w i)) = i" using l(3) by simp
  then show "keeps i w (ss_poke st w1 a (addMessage m (orFresh get w i)))"
    using keeps_trans [OF l(4) poke_keeps [OF l(1-3)]] by blast
qed (use loaded [OF assms] in \<open>simp_all add: poke_inv poke_deref\<close>)

lemma Turn_keeps:
  assumes inv: "inv w" and t: "Turn st app invoke now w i input = (r, w')"
  shows "keeps i w w'"
proof -
  obtain l w1 where L: "ss_Load st w i = (l, w1)" by fastforce
  show ?thesis
  proof (cases l)
    case (Ok a)
    note l = loaded [OF inv L [unfolded Ok]]
    note w2 = user_written [OF inv L [unfolded Ok], where m = "userMessage app input"]
    let ?w2 = "ss_poke st w1 a (addMessage (userMessage app input) (orFresh get w i))"
    have "w' = w1 \<or> w' = ?w2 \<or> (\<exists>s' wrap res. se_ID s' = i \<and> persist st now (ss_poke st ?w2 a s') a wrap res = (r, w'))"
      using t w2(3) by (auto simp: Turn_def L Ok l(2) Let_def split: outcome.splits option.splits if_splits)
    then show ?thesis using l(4) w2(4) poke_persist(1) [OF w2(1-3)] keeps_trans by blast
  qed (use t L not_loaded [OF inv L] in \<open>simp_all add: Turn_def\<close>)
qed

lemma Resume_keeps:
  assumes inv: "inv w" and t: "Resume st invoke now w i approved = (r, w')"
  shows "keeps i w w'"
proof -
  obtain l w1 where L: "ss_Load st w i = (l, w1)" by fastforce
  show ?thesis
  proof (cases l)
    case (Ok a)
    note l = loaded [OF inv L [unfolded Ok]]
    have "w' = w1 \<or> (\<exists>s' wrap res. se_ID s' = i \<and> (w' = ss_poke st w1 a s' \<or> persist st now (ss_poke st w1 a s') a wrap res = (r, w')))"
    proof (cases "\<exists>ms. w' = ss_poke st w1 a ((orFresh get w i)\<lparr>se_Messages := ms\<rparr>)")
      case True
      then obtain ms where "w' = ss_poke st w1 a ((orFresh get w i)\<lparr>se_Messages := ms\<rparr>)" by blast
      moreover have "se_ID ((orFresh get w i)\<lparr>se_Messages := ms\<rparr>) = i" using l(3) by simp
      ultimately show ?thesis by blast
    next
      case False
      then show ?thesis
        using t l(3) by (auto simp: Resume_def L Ok l(2) Let_def split: outcome.splits option.splits if_splits)
    qed
    then show ?thesis
      using l poke_persist(1) [OF l(1-3)] poke_keeps [OF l(1-3)] keeps_trans by blast
  qed (use t L not_loaded [OF inv L] in \<open>simp_all add: Resume_def\<close>)
qed

end

text \<open>A store whose calls never fail, as the in-memory one: the operations are then total.\<close>

locale reliable_store = session_store +
  assumes load_Ok: "inv w \<Longrightarrow> \<exists>a w'. ss_Load st w i = (Ok a, w')"
    and save_Ok: "inv w \<Longrightarrow> ss_deref st w a = Some s \<Longrightarrow> \<exists>w'. ss_Save st now w a = (Ok (), w')"
begin

lemma persist_Ok:
  assumes w: "inv w" "ss_deref st w a = Some s" "se_ID s = i" "se_ID s' = i"
  shows "\<exists>w'. persist st now (ss_poke st w a s') a wrap res = (res, w') \<and> get w' i = Some (s'\<lparr>se_Updated := now\<rparr>)"
proof -
  have w': "inv (ss_poke st w a s')" "ss_deref st (ss_poke st w a s') a = Some s'"
    using w by (simp_all add: poke_inv poke_deref)
  then obtain w2 where "ss_Save st now (ss_poke st w a s') a = (Ok (), w2)" using save_Ok by blast
  then show ?thesis using save_stores [OF w'] w(4) by (auto simp: persist_def)
qed

lemma Turn_refused:
  assumes "inv w" "se_PendingApproval (orFresh get w i) \<noteq> None"
  shows "\<exists>w'. Turn st app invoke now w i input =
      (Failed (Errorf ''session %s: pending approval; call Resume first'' [AStr i]) None, w') \<and> get w' = get w"
proof -
  obtain a w1 where L: "ss_Load st w i = (Ok a, w1)" using load_Ok [OF assms(1)] by blast
  show ?thesis using assms(2) loaded [OF assms(1) L] by (auto simp: Turn_def L)
qed

lemma Turn_reply:
  assumes inv: "inv w" and p: "se_PendingApproval (orFresh get w i) = None"
    and v: "invoke (turnRequest app (addMessage (userMessage app input) (orFresh get w i))) = Done (Some resp)"
  shows "\<exists>w'. Turn st app invoke now w i input = (Done resp, w') \<and>
    get w' i = Some ((addMessage resp (addMessage (userMessage app input) (orFresh get w i)))\<lparr>se_Updated := now\<rparr>)"
proof -
  obtain a w1 where L: "ss_Load st w i = (Ok a, w1)" using load_Ok [OF inv] by blast
  note w2 = user_written [OF inv L, where m = "userMessage app input"]
  show ?thesis
    using p v loaded [OF inv L] persist_Ok [OF w2(1-3), where s' = "addMessage resp (addMessage (userMessage app input) (orFresh get w i))"]
    by (simp add: Turn_def L Let_def)
qed

lemma Turn_pause:
  assumes inv: "inv w" and p: "se_PendingApproval (orFresh get w i) = None"
    and v: "invoke (turnRequest app (addMessage (userMessage app input) (orFresh get w i))) = Failed err (Some snap)"
  shows "\<exists>w'. Turn st app invoke now w i input = (Failed err (Some snap), w') \<and>
    get w' i = Some ((addMessage (userMessage app input) (orFresh get w i))\<lparr>se_PendingApproval := Some snap, se_Updated := now\<rparr>)"
proof -
  obtain a w1 where L: "ss_Load st w i = (Ok a, w1)" using load_Ok [OF inv] by blast
  note w2 = user_written [OF inv L, where m = "userMessage app input"]
  show ?thesis
    using p v loaded [OF inv L]
      persist_Ok [OF w2(1-3), where s' = "(addMessage (userMessage app input) (orFresh get w i))\<lparr>se_PendingApproval := Some snap\<rparr>"]
    by (simp add: Turn_def L Let_def)
qed

lemma Resume_without_pause:
  assumes "inv w" "se_PendingApproval (orFresh get w i) = None"
  shows "\<exists>w'. Resume st invoke now w i ok =
      (Failed (Errorf ''session %s: no pending approval'' [AStr i]) None, w') \<and> get w' = get w"
proof -
  obtain a w1 where L: "ss_Load st w i = (Ok a, w1)" using load_Ok [OF assms(1)] by blast
  show ?thesis using assms(2) loaded [OF assms(1) L] by (auto simp: Resume_def L)
qed

lemma Resume_denied:
  assumes inv: "inv w" and p: "se_PendingApproval (orFresh get w i) = Some snap"
  shows "\<exists>w'. Resume st invoke now w i False = (Done (), w') \<and>
    get w' i = Some ((orFresh get w i)\<lparr>se_PendingApproval := None, se_Updated := now\<rparr>)"
proof -
  obtain a w1 where L: "ss_Load st w i = (Ok a, w1)" using load_Ok [OF inv] by blast
  note l = loaded [OF inv L]
  show ?thesis
    using p l persist_Ok [OF l(1-3), where s' = "(orFresh get w i)\<lparr>se_PendingApproval := None\<rparr>"]
    by (simp add: Resume_def L)
qed

lemma Resume_approved:
  assumes inv: "inv w" and p: "se_PendingApproval (orFresh get w i) = Some snap"
    and v: "invoke (resumeRequest snap) = Done (Some resp)"
  shows "\<exists>w'. Resume st invoke now w i True = (Done (), w') \<and>
    get w' i = Some (\<lparr>se_ID = i, se_Messages = Some (elems (as_Messages snap) @ [resp]), se_PendingApproval = None, se_Updated = now\<rparr>)"
proof -
  obtain a w1 where L: "ss_Load st w i = (Ok a, w1)" using load_Ok [OF inv] by blast
  note l = loaded [OF inv L]
  let ?s = "orFresh get w i"
  let ?s' = "(addMessage resp (?s\<lparr>se_Messages := as_Messages snap\<rparr>))\<lparr>se_PendingApproval := None\<rparr>"
  have i: "se_ID ?s' = i" using l(3) by simp
  have s': "?s'\<lparr>se_Updated := now\<rparr> =
     \<lparr>se_ID = i, se_Messages = Some (elems (as_Messages snap) @ [resp]), se_PendingApproval = None, se_Updated = now\<rparr>"
    using l(3) by (simp add: addMessage_def)
  have "Resume st invoke now w i True = persist st now (ss_poke st w1 a ?s') a (\<lambda>e. e) (Done ())"
    using p v l(2) by (simp add: Resume_def L)
  then show ?thesis
    using persist_Ok [OF l(1-3) i, where now = now and wrap = "\<lambda>e. e" and res = "Done ()"] unfolding s' by simp
qed

end

section \<open>The in-memory store keeps the promise\<close>

definition mem_get :: "'x memWorld \<Rightarrow> string \<Rightarrow> 'x Session option" where
  "mem_get w i = (case mw_data w i of None \<Rightarrow> None | Some a \<Rightarrow> mw_heap w a)"

definition mem_inv :: "'x memWorld \<Rightarrow> bool" where
  "mem_inv w \<longleftrightarrow> (\<forall>i a. mw_data w i = Some a \<longrightarrow> a < mw_next w \<and> (\<exists>s. mw_heap w a = Some s \<and> se_ID s = i)) \<and>
     (\<forall>a. mw_next w \<le> a \<longrightarrow> mw_heap w a = None)"

lemma mem_inv_data:
  assumes "mem_inv w" "mw_data w i = Some a"
  obtains s where "mw_heap w a = Some s" "se_ID s = i" "a < mw_next w"
  using assms unfolding mem_inv_def by blast

lemma mem_inv_heap: "mem_inv w \<Longrightarrow> mw_heap w a = Some s \<Longrightarrow> a < mw_next w"
  unfolding mem_inv_def by (metis leI option.distinct(1))

lemmas mem_defs = InMemoryStore_def InMemoryStore_Load_def InMemoryStore_Save_def mem_poke_def mem_get_def


lemma mem_load_keeps:
  assumes w: "mem_inv w" and l: "InMemoryStore_Load w i = (r, w')"
  shows "mem_inv w'" "mem_get w' = mem_get w"
    "\<exists>a. r = Ok a \<and> mw_heap w' a = Some (orFresh mem_get w i)"
proof -
  have fresh: "mw_data w j \<noteq> Some (mw_next w)" for j
    using mem_inv_data [OF w] by blast
  show "mem_inv w'" 
  proof (cases "mw_data w i")
    case None
    then have "w' = w\<lparr>mw_heap := (mw_heap w)(mw_next w \<mapsto> freshSession i), mw_next := Suc (mw_next w)\<rparr>"
      using l by (simp add: InMemoryStore_Load_def)
    then show ?thesis using w fresh unfolding mem_inv_def by (auto simp: less_Suc_eq)
  qed (use w l in \<open>simp add: InMemoryStore_Load_def\<close>)
  show "mem_get w' = mem_get w"
    using l fresh by (auto simp: mem_defs fun_eq_iff split: option.splits)
  show "\<exists>a. r = Ok a \<and> mw_heap w' a = Some (orFresh mem_get w i)"
  proof (cases "mw_data w i")
    case (Some a)
    then obtain s where "mw_heap w a = Some s" using mem_inv_data [OF w] by blast
    then show ?thesis using Some l by (auto simp: mem_defs orFresh_def)
  qed (use l in \<open>auto simp: mem_defs orFresh_def\<close>)
qed

lemma mem_poke_keeps:
  assumes w: "mem_inv w" "mw_heap w a = Some s" "se_ID s' = se_ID s"
  shows "mem_inv (mem_poke w a s')" "j \<noteq> se_ID s \<Longrightarrow> mem_get (mem_poke w a s') j = mem_get w j"
proof -
  have "a < mw_next w" by (rule mem_inv_heap [OF w(1,2)])
  then show "mem_inv (mem_poke w a s')" using w unfolding mem_inv_def mem_poke_def by fastforce
  show "mem_get (mem_poke w a s') j = mem_get w j" if "j \<noteq> se_ID s"
    using mem_inv_data [OF w(1)] w(2) that by (fastforce simp: mem_get_def mem_poke_def split: option.split)
qed

lemma mem_save_keeps:
  assumes w: "mem_inv w" "mw_heap w a = Some s" and sv: "InMemoryStore_Save now w a = (q, w')"
  shows "q = Ok ()" "mem_inv w'" "mem_get w' (se_ID s) = Some (s\<lparr>se_Updated := now\<rparr>)"
    "j \<noteq> se_ID s \<Longrightarrow> mem_get w' j = mem_get w j"
proof -
  let ?s = "s\<lparr>se_Updated := now\<rparr>"
  have q: "q = Ok ()" and w': "w' = (mem_poke w a ?s)\<lparr>mw_data := (mw_data w)(se_ID s \<mapsto> a)\<rparr>"
    using sv w(2) by (auto simp: InMemoryStore_Save_def mem_poke_def Let_def)
  show "q = Ok ()" by (rule q)
  have "mem_inv (mem_poke w a ?s)" using mem_poke_keeps(1) [OF w] by simp
  then show "mem_inv w'"
    using mem_inv_heap [OF w] unfolding w' mem_inv_def by (simp add: mem_poke_def)
  show "mem_get w' (se_ID s) = Some ?s" by (simp add: w' mem_get_def mem_poke_def)
  show "mem_get w' j = mem_get w j" if "j \<noteq> se_ID s"
    using mem_poke_keeps(2) [OF w, where s' = ?s] that by (simp add: w' mem_get_def mem_poke_def cong: option.case_cong)
qed

lemma InMemoryStore_sel [simp]:
  "ss_deref InMemoryStore = mw_heap" "ss_poke InMemoryStore = mem_poke"
  "ss_Load InMemoryStore = InMemoryStore_Load" "ss_Save InMemoryStore = InMemoryStore_Save"
  by (simp_all add: InMemoryStore_def)

interpretation mem: reliable_store InMemoryStore mem_inv mem_get
proof (unfold_locales, unfold InMemoryStore_sel, goal_cases)
  case (1 w i s)
  then show ?case using mem_inv_data [OF 1(1)] by (fastforce simp: mem_get_def split: option.splits)
next
  case (2 w i r w')
  then show ?case using mem_load_keeps by blast
next
  case (3 w i a w')
  then show ?case using mem_load_keeps(3) [OF 3] by simp
next
  case (4 w a s s')
  then show ?case by (rule mem_poke_keeps(1))
next
  case (5 w a s s')
  then show ?case by (simp add: mem_poke_def)
next
  case (6 w a s s' j)
  then show ?case by (rule mem_poke_keeps(2))
next
  case (7 w a s now q w')
  then show ?case by (rule mem_save_keeps(2))
next
  case (8 w a s now q w' j)
  then show ?case by (rule mem_save_keeps(4))
next
  case (9 w a s now u w')
  then show ?case by (rule mem_save_keeps(3))
next
  case (10 w i)
  then show ?case by (simp add: InMemoryStore_Load_def split: option.split)
next
  case (11 w a s now)
  then show ?case by (simp add: InMemoryStore_Save_def Let_def)
qed

section \<open>Histories of a store\<close>

inductive session_reach :: "'x memWorld \<Rightarrow> bool" where
  start: "session_reach NewInMemoryStore"
| turn: "session_reach w \<Longrightarrow> Turn InMemoryStore app invoke now w i input = (r, w') \<Longrightarrow> session_reach w'"
| resume: "session_reach w \<Longrightarrow> Resume InMemoryStore invoke now w i approved = (r', w') \<Longrightarrow> session_reach w'"

lemma reach_inv: "session_reach w \<Longrightarrow> mem_inv w"
proof (induction rule: session_reach.induct)
  case start
  show ?case by (simp add: NewInMemoryStore_def mem_inv_def)
next
  case turn
  then show ?case using mem.Turn_keeps unfolding mem.keeps_def by blast
next
  case resume
  then show ?case using mem.Resume_keeps unfolding mem.keeps_def by blast
qed

text \<open>In every state that turns and resumptions of any sessions can lead to from an empty
  in-memory store, each record is stored under its own id, and a turn or a resumption of one
  session, whatever the agent answers, leaves the record of every other session as it was.\<close>

theorem sessions_isolated:
  assumes "session_reach w" "j \<noteq> i"
  shows "(mem_get w i = Some s \<longrightarrow> se_ID s = i) \<and>
    mem_get (snd (Turn InMemoryStore app invoke now w i input)) j = mem_get w j \<and>
    mem_get (snd (Resume InMemoryStore invoke now w i approved)) j = mem_get w j"
proof -
  note inv = reach_inv [OF assms(1)]
  have "mem_get (snd (Turn InMemoryStore app invoke now w i input)) j = mem_get w j"
    using mem.Turn_keeps [OF inv prod.collapse [symmetric]] assms(2) unfolding mem.keeps_def by blast
  moreover have "mem_get (snd (Resume InMemoryStore invoke now w i approved)) j = mem_get w j"
    using mem.Resume_keeps [OF inv prod.collapse [symmetric]] assms(2) unfolding mem.keeps_def by blast
  ultimately show ?thesis using mem.get_id [OF inv] by blast
qed

section \<open>A session as a history and a pause\<close>

type_synonym 'x conversation = "'x Message list \<times> 'x ApprovalSnapshot option"

definition conversation :: "'x memWorld \<Rightarrow> string \<Rightarrow> 'x conversation" where
  "conversation w i = (elems (se_Messages (orFresh mem_get w i)), se_PendingApproval (orFresh mem_get w i))"

text \<open>
  One turn on the conversation \<open>(h, p)\<close>, given what the agent answers. When nothing is saved, the
  user's message stays in the history exactly if the session was stored before.
\<close>

definition turnSpec :: "string \<Rightarrow> bool \<Rightarrow> 'x conversation \<Rightarrow> 'x Message \<Rightarrow> ('x, 'x Message option) outcome \<Rightarrow>
    ('x, 'x Message) outcome \<times> 'x conversation" where
  "turnSpec i known c u out =
     (case c of
        (h, Some snap) \<Rightarrow> (Failed (Errorf ''session %s: pending approval; call Resume first'' [AStr i]) None, c)
      | (h, None) \<Rightarrow>
        let unsaved = (if known then h @ [u] else h, None) in
        (case out of
           Done (Some m) \<Rightarrow> (Done m, (h @ [u, m], None))
         | Failed e (Some snap) \<Rightarrow> (Failed e (Some snap), (h @ [u], Some snap))
         | Failed e None \<Rightarrow> (Failed e None, unsaved)
         | Done None \<Rightarrow> (Crashed nilDeref, unsaved)
         | Crashed p \<Rightarrow> (Crashed p, unsaved)))"

definition resumeSpec :: "string \<Rightarrow> 'x conversation \<Rightarrow> bool \<Rightarrow> ('x ApprovalSnapshot \<Rightarrow> ('x, 'x Message option) outcome) \<Rightarrow>
    ('x, unit) outcome \<times> 'x conversation" where
  "resumeSpec i c approved out =
     (case c of
        (h, None) \<Rightarrow> (Failed (Errorf ''session %s: no pending approval'' [AStr i]) None, c)
      | (h, Some snap) \<Rightarrow>
        if \<not> approved then (Done (), (h, None))
        else (case out snap of
           Done (Some m) \<Rightarrow> (Done (), (elems (as_Messages snap) @ [m], None))
         | Done None \<Rightarrow> (Crashed nilDeref, (elems (as_Messages snap), Some snap))
         | Failed e x \<Rightarrow> (Failed e x, c)
         | Crashed p \<Rightarrow> (Crashed p, c)))"

lemma conversation_get:
  "mem_get w i = Some s \<Longrightarrow> conversation w i = (elems (se_Messages s), se_PendingApproval s)"
  "mem_get w i = None \<Longrightarrow> conversation w i = ([], None)"
  by (simp_all add: conversation_def orFresh_def)

lemma conversation_pending:
  "conversation w i = (h, p) \<longleftrightarrow> h = elems (se_Messages (orFresh mem_get w i)) \<and> p = se_PendingApproval (orFresh mem_get w i)"
  by (auto simp: conversation_def)

text \<open>What a write through a loaded pointer does to the stored record.\<close>

lemma mem_poke_loaded:
  assumes "mem_inv w" "InMemoryStore_Load w i = (Ok a, w1)"
  shows "mem_get (mem_poke w1 a s) i = (if mem_get w i = None then None else Some s)"
proof (cases "mw_data w i")
  case None
  then show ?thesis using assms by (auto simp: mem_defs)
next
  case (Some b)
  then obtain t where "mw_heap w b = Some t" using mem_inv_data [OF assms(1)] by blast
  then show ?thesis using assms Some by (auto simp: mem_defs)
qed

fun unsavedOutcome :: "('x, 'x Message option) outcome \<Rightarrow> ('x, 'x Message) outcome option" where
  "unsavedOutcome (Done None) = Some (Crashed nilDeref)"
| "unsavedOutcome (Failed e None) = Some (Failed e None)"
| "unsavedOutcome (Crashed p) = Some (Crashed p)"
| "unsavedOutcome _ = None"

lemma outcome_cases:
  obtains (reply) m where "out = Done (Some m)" | (pause) e snap where "out = Failed e (Some snap)"
    | (unsaved) r where "unsavedOutcome out = Some r"
  by (cases out rule: unsavedOutcome.cases) auto

lemma Turn_unsaved:
  assumes inv: "mem_inv w" and p: "se_PendingApproval (orFresh mem_get w i) = None"
    and v: "invoke (turnRequest app (addMessage (userMessage app input) (orFresh mem_get w i))) = out"
    and out: "unsavedOutcome out = Some r"
  shows "\<exists>w'. Turn InMemoryStore app invoke now w i input = (r, w') \<and>
    mem_get w' i = (if mem_get w i = None then None else Some (addMessage (userMessage app input) (orFresh mem_get w i)))"
proof -
  obtain a w1 where L: "InMemoryStore_Load w i = (Ok a, w1)" using mem.load_Ok [OF inv, of i] by auto
  show ?thesis
    using out p v mem.loaded(2) [OF inv] L mem_poke_loaded [OF inv L]
    by (cases out rule: unsavedOutcome.cases) (auto simp: Turn_def Let_def)
qed

lemma Turn_refines:
  assumes inv: "mem_inv w"
    and u: "u = userMessage app input"
  shows "map_prod id (\<lambda>w'. conversation w' i) (Turn InMemoryStore app invoke now w i input) =
    turnSpec i (mem_get w i \<noteq> None) (conversation w i) u (invoke (turnRequest app (addMessage u (orFresh mem_get w i))))"
proof (cases "se_PendingApproval (orFresh mem_get w i)")
  case (Some snap)
  then show ?thesis
    using mem.Turn_refused [OF inv, where i = i and app = app and invoke = invoke and now = now and input = input]
    by (auto simp: turnSpec_def conversation_def orFresh_def)
next
  case None
  let ?s = "orFresh mem_get w i" and ?out = "invoke (turnRequest app (addMessage u (orFresh mem_get w i)))"
  have h: "conversation w i = (elems (se_Messages ?s), None)" using None by (simp add: conversation_def)
  show ?thesis
  proof (cases ?out rule: outcome_cases)
    case (reply m)
    then show ?thesis
      using mem.Turn_reply [OF inv None, where app = app and invoke = invoke and now = now and input = input] None
      unfolding u [symmetric] h by (auto simp: turnSpec_def dest: conversation_get)
  next
    case (pause e snap)
    then show ?thesis
      using mem.Turn_pause [OF inv None, where app = app and invoke = invoke and now = now and input = input]
      unfolding u [symmetric] h by (auto simp: turnSpec_def dest: conversation_get)
  next
    case (unsaved r)
    obtain w' where T: "Turn InMemoryStore app invoke now w i input = (r, w')"
      and g: "mem_get w' i = (if mem_get w i = None then None else Some (addMessage u ?s))"
      using Turn_unsaved [OF inv None _ unsaved, where app = app and invoke = invoke and input = input and now = now] u by blast
    have "conversation w' i = (if mem_get w i \<noteq> None then elems (se_Messages ?s) @ [u] else elems (se_Messages ?s), None)"
      using g None by (auto simp: conversation_def orFresh_def)
    moreover have "turnSpec i known (conversation w i) u ?out = (r, if known then elems (se_Messages ?s) @ [u] else elems (se_Messages ?s), None)" for known
      using unsaved unfolding h by (cases ?out rule: unsavedOutcome.cases) (auto simp: turnSpec_def)
    ultimately show ?thesis by (simp add: T)
  qed
qed

lemma Resume_refines:
  assumes inv: "mem_inv w"
  shows "map_prod id (\<lambda>w'. conversation w' i) (Resume InMemoryStore invoke now w i approved) =
    resumeSpec i (conversation w i) approved (\<lambda>snap. invoke (resumeRequest snap))"
proof (cases "se_PendingApproval (orFresh mem_get w i)")
  case None
  then show ?thesis
    using mem.Resume_without_pause [OF inv, where i = i and invoke = invoke and now = now and ok = approved]
    by (auto simp: resumeSpec_def conversation_def orFresh_def)
next
  case (Some snap)
  let ?s = "orFresh mem_get w i"
  have h: "conversation w i = (elems (se_Messages ?s), Some snap)" using Some by (simp add: conversation_def)
  have known: "mem_get w i = Some ?s" using Some by (cases "mem_get w i") (simp_all add: orFresh_def)
  obtain a w1 where L: "InMemoryStore_Load w i = (Ok a, w1)" using mem.load_Ok [OF inv, of i] by auto
  have l: "mw_heap w1 a = Some ?s" "mem_get w1 = mem_get w" using mem.loaded [OF inv] L by simp_all
  show ?thesis
  proof (cases approved)
    case False
    then show ?thesis
      using mem.Resume_denied [OF inv Some, where invoke = invoke and now = now] unfolding h
      by (auto simp: resumeSpec_def dest: conversation_get)
  next
    case True
    show ?thesis
    proof (cases "\<exists>m. invoke (resumeRequest snap) = Done (Some m)")
      case reply: True
      then show ?thesis
        using mem.Resume_approved [OF inv Some, where invoke = invoke and now = now] True unfolding h
        by (auto simp: resumeSpec_def dest!: conversation_get(1))
    next
      case False
      have c: "conversation w1 i = conversation w i" using l(2) by (simp add: conversation_def orFresh_def)
      have "conversation (mem_poke w1 a (?s\<lparr>se_Messages := as_Messages snap\<rparr>)) i = (elems (as_Messages snap), Some snap)"
        using mem_poke_loaded [OF inv L] known Some by (simp add: conversation_get)
      then show ?thesis
        using False True L l(1) Some c unfolding h
        by (auto simp: Resume_def resumeSpec_def split: outcome.splits option.splits)
    qed
  qed
qed

text \<open>C28. On the in-memory store, in every reachable state, one turn does to a session exactly
  what the specification says of its history and pause: a paused session refuses, a reply appends
  the user's message and the response, a request for approval appends the user's message and
  records the snapshot. A resumption without a pause is refused, a denied one clears the pause and
  keeps the history, an approved one replaces the history by the snapshot's messages and the
  response. Every answer of the agent is covered.\<close>

theorem session_operations_refine:
  assumes "session_reach w"
  shows "map_prod id (\<lambda>w'. conversation w' i) (Turn InMemoryStore app invoke now w i input) =
      turnSpec i (mem_get w i \<noteq> None) (conversation w i) (userMessage app input)
        (invoke (turnRequest app (addMessage (userMessage app input) (orFresh mem_get w i)))) \<and>
    map_prod id (\<lambda>w'. conversation w' i) (Resume InMemoryStore invoke now w i approved) =
      resumeSpec i (conversation w i) approved (\<lambda>snap. invoke (resumeRequest snap))"
  using Turn_refines [OF reach_inv [OF assms] refl] Resume_refines [OF reach_inv [OF assms]] by blast


text \<open>A store after one turn, answered by an agent that always replies the same.\<close>

definition demoApp :: "unit App" where
  "demoApp = \<lparr>ap_Model = ''fake-model'', ap_SystemPrompt = ''be brief'',
     ap_textPart = (\<lambda>t. \<lparr>mp_Type = PartTypeText, mp_Text = t, mp_other = ()\<rparr>)\<rparr>"

definition okMessage :: "unit Message" where
  "okMessage = \<lparr>msg_Role = RoleAssistant, msg_Parts = Some [\<lparr>mp_Type = PartTypeText, mp_Text = ''ok'', mp_other = ()\<rparr>]\<rparr>"

definition demoWorld :: "unit memWorld" where
  "demoWorld = snd (Turn InMemoryStore demoApp (\<lambda>_. Done (Some okMessage)) 1 NewInMemoryStore ''a'' ''hi'')"

lemma demoWorld_reach: "session_reach demoWorld"
  unfolding demoWorld_def by (rule session_reach.turn [OF session_reach.start prod.collapse [symmetric]])

lemma demoWorld_get:
  "mem_get demoWorld ''a'' = Some \<lparr>se_ID = ''a'', se_Messages = Some [userMessage demoApp ''hi'', okMessage],
     se_PendingApproval = None, se_Updated = 1\<rparr>"
  by (simp add: demoWorld_def Turn_def mem_defs persist_def NewInMemoryStore_def addMessage_def freshSession_def Let_def)

theorem sessions_isolated_witness:
  "session_reach demoWorld \<and> ''a'' \<noteq> ''b'' \<and>
   mem_get (snd (Turn InMemoryStore demoApp (\<lambda>_. Failed (Sentinel CtxCanceled) None) 2 demoWorld ''b'' ''bye'')) ''a'' =
     Some \<lparr>se_ID = ''a'', se_Messages = Some [userMessage demoApp ''hi'', okMessage], se_PendingApproval = None, se_Updated = 1\<rparr>"
  using sessions_isolated [of demoWorld "''a''" "''b''" undefined demoApp "\<lambda>_. Failed (Sentinel CtxCanceled) None" 2 "''bye''"]
    demoWorld_reach demoWorld_get by simp

lemma demoWorld_conversation: "conversation demoWorld ''a'' = ([userMessage demoApp ''hi'', okMessage], None)"
  using demoWorld_get by (simp add: conversation_get)

theorem session_operations_refine_witness:
  "session_reach demoWorld \<and>
   map_prod id (\<lambda>w'. conversation w' ''a'') (Turn InMemoryStore demoApp (\<lambda>_. Done (Some okMessage)) 2 demoWorld ''a'' ''bye'') =
     (Done okMessage, [userMessage demoApp ''hi'', okMessage, userMessage demoApp ''bye'', okMessage], None)"
  using session_operations_refine [of demoWorld "''a''" demoApp "\<lambda>_. Done (Some okMessage)" 2 "''bye''" True]
    demoWorld_reach by (simp add: demoWorld_conversation turnSpec_def)

text \<open>C40. A turn that fails for any reason but a missing approval returns the agent's error
  without saving, and yet the user's message is from then on part of the stored history of a
  session the in-memory store knew: the record was changed in place before the agent was called,
  and only its time stamp shows that it was not saved. A retry sends the message twice.\<close>

theorem failed_turn_keeps_input:
  assumes "session_reach w" "mem_get w i = Some s" "se_PendingApproval s = None"
    and "invoke (turnRequest app (addMessage (userMessage app input) s)) = Failed err None"
  shows "\<exists>w'. Turn InMemoryStore app invoke now w i input = (Failed err None, w') \<and>
    mem_get w' i = Some (s\<lparr>se_Messages := Some (elems (se_Messages s) @ [userMessage app input])\<rparr>)"
proof -
  have "orFresh mem_get w i = s" using assms(2) by (simp add: orFresh_def)
  then show ?thesis
    using Turn_unsaved [OF reach_inv [OF assms(1)], of i invoke app input "Failed err None" "Failed err None" now] assms
    by (simp add: addMessage_def)
qed

theorem failed_turn_keeps_input_witness:
  "\<exists>w'. Turn InMemoryStore demoApp (\<lambda>_. Failed (Sentinel CtxCanceled) None) 2 demoWorld ''a'' ''bye'' = (Failed (Sentinel CtxCanceled) None, w') \<and>
     mem_get w' ''a'' = Some \<lparr>se_ID = ''a'', se_Messages = Some [userMessage demoApp ''hi'', okMessage, userMessage demoApp ''bye''],
       se_PendingApproval = None, se_Updated = 1\<rparr>"
  using failed_turn_keeps_input [OF demoWorld_reach demoWorld_get, of "\<lambda>_. Failed (Sentinel CtxCanceled) None" demoApp "''bye''" "Sentinel CtxCanceled" 2]
  by simp


section \<open>Approval\<close>

text \<open>
  The orchestrator as \<^verbatim>\<open>docs/design/memory-and-state.md\<close> describes it, for an agent whose only policy
  is the sensitivity gate: a request for which the policy asks for approval ends in an
  \<^verbatim>\<open>ApprovalRequiredError\<close> whose snapshot repeats the request's model, prompt and messages; any other
  request ends in a response or in an error that asks for nothing (\<open>pausing\<close>). \<open>gated\<close> is the special case
  of an agent that never fails, which is what \<^verbatim>\<open>main.go\<close> sets up: its provider is a fake that always
  answers.
\<close>

definition gateInput :: "string \<Rightarrow> 'x InvocationRequest \<Rightarrow> 'x gatedInput" where
  "gateInput phase req = \<lparr>pi_SystemPrompt = rq_SystemPrompt req, pi_Messages = rq_Messages req,
     pi_Phase = phase, pi_Metadata = rq_Metadata req\<rparr>"

definition snapshotOf :: "'x InvocationRequest \<Rightarrow> 'x ApprovalSnapshot" where
  "snapshotOf req = \<lparr>as_Model = rq_Model req, as_SystemPrompt = rq_SystemPrompt req, as_Messages = rq_Messages req\<rparr>"

definition gated :: "'x agentInvoke \<Rightarrow> ('x gatedInput \<Rightarrow> Decision result) \<Rightarrow> string \<Rightarrow> bool" where
  "gated invoke hook phase \<longleftrightarrow>
     (\<forall>req. (\<exists>d. hook (gateInput phase req) = Ok d \<and> dc_Verdict d = VerdictRequireApproval \<and>
               (\<exists>e. invoke req = Failed e (Some (snapshotOf req)))) \<or>
            (\<exists>d m. hook (gateInput phase req) = Ok d \<and> dc_Verdict d \<noteq> VerdictRequireApproval \<and> invoke req = Done (Some m)))"

definition pausing :: "'x agentInvoke \<Rightarrow> ('x gatedInput \<Rightarrow> Decision result) \<Rightarrow> string \<Rightarrow> bool" where
  "pausing invoke hook phase \<longleftrightarrow>
     (\<forall>req d. hook (gateInput phase req) = Ok d \<longrightarrow>
        (if dc_Verdict d = VerdictRequireApproval then \<exists>e. invoke req = Failed e (Some (snapshotOf req))
         else (\<exists>m. invoke req = Done (Some m)) \<or> (\<exists>e. invoke req = Failed e None)))"

lemma gated_pausing: "gated invoke hook phase \<Longrightarrow> pausing invoke hook phase"
  unfolding gated_def pausing_def by (metis result.inject(1))

lemma pausing_pauses:
  "pausing invoke hook phase \<Longrightarrow> hook (gateInput phase req) = Ok d \<Longrightarrow> dc_Verdict d = VerdictRequireApproval \<Longrightarrow>
     \<exists>e. invoke req = Failed e (Some (snapshotOf req))"
  unfolding pausing_def by metis

lemma pausing_ends:
  assumes "pausing invoke hook phase" "hook (gateInput phase req) = Ok d" "dc_Verdict d \<noteq> VerdictRequireApproval"
  obtains (answer) m where "invoke req = Done (Some m)" | (error) e where "invoke req = Failed e None"
  using assms unfolding pausing_def by metis

lemma gated_pauses:
  "gated invoke hook phase \<Longrightarrow> hook (gateInput phase req) = Ok d \<Longrightarrow> dc_Verdict d = VerdictRequireApproval \<Longrightarrow>
     \<exists>e. invoke req = Failed e (Some (snapshotOf req))"
  unfolding gated_def by (metis result.inject(1))

lemma gated_answers:
  "gated invoke hook phase \<Longrightarrow> hook (gateInput phase req) = Ok d \<Longrightarrow> dc_Verdict d \<noteq> VerdictRequireApproval \<Longrightarrow>
     \<exists>m. invoke req = Done (Some m)"
  unfolding gated_def by (metis result.inject(1))

lemma map_prod_id_eqD: "map_prod id f p = (a, b) \<Longrightarrow> \<exists>y. p = (a, y) \<and> f y = b"
  by (cases p) simp

lemma gate_turn:
  "sensitivity_Evaluate phase uni allow require (gateInput phase (turnRequest app (addMessage (userMessage app input) s))) =
     Ok (if marked uni (ap_textPart app input)
         then require ''latest user message contains SENSITIVE marker'' (Some [(''marker'', VString ''SENSITIVE'')]) else allow)"
  by (simp add: sensitivity_Evaluate_def gateInput_def turnRequest_def metadata_index_def addMessage_def userMessage_def)

lemma gate_resume:
  "sensitivity_Evaluate phase uni allow require (gateInput phase (resumeRequest snap)) = Ok allow"
  by (simp add: sensitivity_Evaluate_def gateInput_def resumeRequest_def metadata_index_def)

lemma progress:
  assumes "session_reach w" "conversation w i = (h, None)"
    and "gated invoke (sensitivity_Evaluate phase uni allow require) phase"
    and "dc_Verdict allow = VerdictAllow" "\<forall>r m. dc_Verdict (require r m) = VerdictRequireApproval"
  shows "if marked uni (ap_textPart app input)
    then \<exists>e snap w1 m w2. Turn InMemoryStore app invoke now w i input = (Failed e (Some snap), w1) \<and>
        conversation w1 i = (h @ [userMessage app input], Some snap) \<and>
        as_Model snap = ap_Model app \<and> elems (as_Messages snap) = h @ [userMessage app input] \<and>
        Resume InMemoryStore invoke now' w1 i True = (Done (), w2) \<and>
        conversation w2 i = (h @ [userMessage app input, m], None)
    else \<exists>m w1. Turn InMemoryStore app invoke now w i input = (Done m, w1) \<and>
        conversation w1 i = (h @ [userMessage app input, m], None)"
proof -
  let ?req = "turnRequest app (addMessage (userMessage app input) (orFresh mem_get w i))"
  have msgs: "elems (rq_Messages ?req) = h @ [userMessage app input]"
    using assms(2) by (simp add: turnRequest_def conversation_def)
  have turn: "map_prod id (\<lambda>w'. conversation w' i) (Turn InMemoryStore app invoke now w i input) =
      turnSpec i (mem_get w i \<noteq> None) (h, None) (userMessage app input) (invoke ?req)"
    using Turn_refines [OF reach_inv [OF assms(1)] refl] assms(2) by metis
  show ?thesis
  proof (cases "marked uni (ap_textPart app input)")
    case False
    then obtain m where "invoke ?req = Done (Some m)"
      using gated_answers [OF assms(3) gate_turn] assms(4) by fastforce
    with turn False show ?thesis by (auto simp: turnSpec_def dest!: map_prod_id_eqD)
  next
    case True
    then obtain e where v: "invoke ?req = Failed e (Some (snapshotOf ?req))"
      using gated_pauses [OF assms(3) gate_turn] assms(5) by fastforce
    obtain w1 where t: "Turn InMemoryStore app invoke now w i input = (Failed e (Some (snapshotOf ?req)), w1)"
      and c: "conversation w1 i = (h @ [userMessage app input], Some (snapshotOf ?req))"
      using map_prod_id_eqD [OF turn [unfolded v turnSpec_def, simplified]] by blast
    obtain m where v': "invoke (resumeRequest (snapshotOf ?req)) = Done (Some m)"
      using gated_answers [OF assms(3) gate_resume] assms(4) by fastforce
    have "map_prod id (\<lambda>w'. conversation w' i) (Resume InMemoryStore invoke now' w1 i True) =
        (Done (), (h @ [userMessage app input, m], None))"
      unfolding Resume_refines [OF reach_inv [OF session_reach.turn [OF assms(1) t]]] c
      using msgs v' by (simp add: resumeSpec_def, simp add: snapshotOf_def)
    from map_prod_id_eqD [OF this] obtain w2 where r: "Resume InMemoryStore invoke now' w1 i True = (Done (), w2)"
      "conversation w2 i = (h @ [userMessage app input, m], None)" by blast
    have sn: "as_Model (snapshotOf ?req) = ap_Model app" "elems (as_Messages (snapshotOf ?req)) = h @ [userMessage app input]"
      using msgs by (simp_all add: snapshotOf_def turnRequest_def)
    show ?thesis unfolding if_P [OF True] by (intro exI conjI) (rule t c sn r)+
  qed
qed

text \<open>What the approval of a pause leads to, by what the agent answers the approved request.\<close>

lemma approved_resume:
  assumes "session_reach w" "conversation w i = (h, Some snap)"
  shows "invoke (resumeRequest snap) = Done (Some m) \<Longrightarrow>
      \<exists>w'. Resume InMemoryStore invoke now w i True = (Done (), w') \<and> conversation w' i = (elems (as_Messages snap) @ [m], None)"
    and "invoke (resumeRequest snap) = Failed e None \<Longrightarrow>
      \<exists>w'. Resume InMemoryStore invoke now w i True = (Failed e None, w') \<and> conversation w' i = (h, Some snap) \<and> session_reach w'"
proof -
  have r: "map_prod id (\<lambda>w'. conversation w' i) (Resume InMemoryStore invoke now w i True) =
      resumeSpec i (h, Some snap) True (\<lambda>snap. invoke (resumeRequest snap))"
    using Resume_refines [OF reach_inv [OF assms(1)]] assms(2) by metis
  show "\<exists>w'. Resume InMemoryStore invoke now w i True = (Done (), w') \<and> conversation w' i = (elems (as_Messages snap) @ [m], None)"
    if "invoke (resumeRequest snap) = Done (Some m)"
    using r that by (auto simp: resumeSpec_def dest!: map_prod_id_eqD)
  assume "invoke (resumeRequest snap) = Failed e None"
  then obtain w' where w': "Resume InMemoryStore invoke now w i True = (Failed e None, w')" "conversation w' i = (h, Some snap)"
    using r by (auto simp: resumeSpec_def dest!: map_prod_id_eqD)
  then show "\<exists>w'. Resume InMemoryStore invoke now w i True = (Failed e None, w') \<and> conversation w' i = (h, Some snap) \<and> session_reach w'"
    using session_reach.resume [OF assms(1) w'(1)] by blast
qed

lemma resume_outcome:
  assumes r: "session_reach w1" and c: "conversation w1 i = (h, Some snap)" and h: "elems (as_Messages snap) = h"
    and p: "pausing invoke (sensitivity_Evaluate phase uni allow require) phase" "dc_Verdict allow = VerdictAllow"
  shows "case invoke (resumeRequest snap) of
      Done (Some m) \<Rightarrow> \<exists>w2. Resume InMemoryStore invoke now' w1 i True = (Done (), w2) \<and> conversation w2 i = (h @ [m], None)
    | Failed e' None \<Rightarrow> \<exists>w2. Resume InMemoryStore invoke now' w1 i True = (Failed e' None, w2) \<and> conversation w2 i = (h, Some snap) \<and>
        (\<forall>invoke' m. invoke' (resumeRequest snap) = Done (Some m) \<longrightarrow>
          (\<exists>w3. Resume InMemoryStore invoke' now3 w2 i True = (Done (), w3) \<and> conversation w3 i = (h @ [m], None)))
    | _ \<Rightarrow> False"
proof -
  have "dc_Verdict allow \<noteq> VerdictRequireApproval" using p(2) by simp
  then consider (answer) m where "invoke (resumeRequest snap) = Done (Some m)" | (error) e' where "invoke (resumeRequest snap) = Failed e' None"
    using pausing_ends [OF p(1) gate_resume] by metis
  then show ?thesis
  proof cases
    case (answer m)
    then show ?thesis using approved_resume(1) [where invoke = invoke, OF r c answer] h by simp
  next
    case (error e')
    then obtain w2 where "Resume InMemoryStore invoke now' w1 i True = (Failed e' None, w2)" "conversation w2 i = (h, Some snap)" "session_reach w2"
      using approved_resume(2) [where invoke = invoke, OF r c error] by blast
    then show ?thesis using error approved_resume(1) h by fastforce
  qed
qed

text \<open>C29. With the orchestrator as documented, failures included, a session that is not paused makes
  progress on every input. Without the marker the turn does not pause: it is answered and the
  history grows by the user's message and the response, or the agent fails, the caller gets its error and the
  session takes the next turn. With the marker the turn pauses with a snapshot of the
  app's model and of the whole history. The resumption the human approves is then not stopped again by the
  policy: when the agent answers it, it ends the pause and leaves the history with the user's message and
  the response; when the agent fails, the pause is kept as it was, and approving it again succeeds once the agent answers.\<close>

theorem approved_sessions_progress:
  assumes "session_reach w" "conversation w i = (h, None)"
    and "pausing invoke (sensitivity_Evaluate phase uni allow require) phase"
    and "dc_Verdict allow = VerdictAllow" "\<forall>r m. dc_Verdict (require r m) = VerdictRequireApproval"
  shows "if marked uni (ap_textPart app input)
    then \<exists>e snap w1. Turn InMemoryStore app invoke now w i input = (Failed e (Some snap), w1) \<and>
        conversation w1 i = (h @ [userMessage app input], Some snap) \<and>
        as_Model snap = ap_Model app \<and> elems (as_Messages snap) = h @ [userMessage app input] \<and>
        (case invoke (resumeRequest snap) of
           Done (Some m) \<Rightarrow> \<exists>w2. Resume InMemoryStore invoke now' w1 i True = (Done (), w2) \<and>
             conversation w2 i = ((h @ [userMessage app input]) @ [m], None)
         | Failed e' None \<Rightarrow> \<exists>w2. Resume InMemoryStore invoke now' w1 i True = (Failed e' None, w2) \<and>
             conversation w2 i = (h @ [userMessage app input], Some snap) \<and>
             (\<forall>invoke' m. invoke' (resumeRequest snap) = Done (Some m) \<longrightarrow>
               (\<exists>w3. Resume InMemoryStore invoke' now3 w2 i True = (Done (), w3) \<and>
                 conversation w3 i = ((h @ [userMessage app input]) @ [m], None)))
         | _ \<Rightarrow> False)
    else (\<exists>m w1. Turn InMemoryStore app invoke now w i input = (Done m, w1) \<and>
        conversation w1 i = (h @ [userMessage app input, m], None)) \<or>
      (\<exists>e w1. Turn InMemoryStore app invoke now w i input = (Failed e None, w1) \<and>
        conversation w1 i = (if mem_get w i = None then h else h @ [userMessage app input], None))"
proof -
  let ?req = "turnRequest app (addMessage (userMessage app input) (orFresh mem_get w i))"
  have turn: "map_prod id (\<lambda>w'. conversation w' i) (Turn InMemoryStore app invoke now w i input) =
      turnSpec i (mem_get w i \<noteq> None) (h, None) (userMessage app input) (invoke ?req)"
    using Turn_refines [OF reach_inv [OF assms(1)] refl] assms(2) by metis
  show ?thesis
  proof (cases "marked uni (ap_textPart app input)")
    case False
    then have "sensitivity_Evaluate phase uni allow require (gateInput phase ?req) = Ok allow" by (simp add: gate_turn)
    moreover have "dc_Verdict allow \<noteq> VerdictRequireApproval" using assms(4) by simp
    ultimately have "(\<exists>m. invoke ?req = Done (Some m)) \<or> (\<exists>e. invoke ?req = Failed e None)"
      using pausing_ends [OF assms(3)] by metis
    with turn False show ?thesis by (auto simp: turnSpec_def dest!: map_prod_id_eqD)
  next
    case True
    then obtain e where v: "invoke ?req = Failed e (Some (snapshotOf ?req))"
      using pausing_pauses [OF assms(3) gate_turn] assms(5) by fastforce
    obtain w1 where t: "Turn InMemoryStore app invoke now w i input = (Failed e (Some (snapshotOf ?req)), w1)"
      and c: "conversation w1 i = (h @ [userMessage app input], Some (snapshotOf ?req))"
      using map_prod_id_eqD [OF turn [unfolded v turnSpec_def, simplified]] by blast
    have sn: "as_Model (snapshotOf ?req) = ap_Model app" "elems (as_Messages (snapshotOf ?req)) = h @ [userMessage app input]"
      using assms(2) by (simp_all add: snapshotOf_def turnRequest_def conversation_def)
    show ?thesis unfolding if_P [OF True]
      by (intro exI conjI) (rule t c sn resume_outcome [OF session_reach.turn [OF assms(1) t] c sn(2) assms(3,4)])+
  qed
qed

text \<open>An orchestrator that behaves so, for a policy whose constructors set the verdict.\<close>

definition demoAllow :: Decision where
  "demoAllow = \<lparr>dc_Verdict = VerdictAllow, dc_Reason = [], dc_Metadata = None\<rparr>"

definition demoRequire :: "string \<Rightarrow> gomap \<Rightarrow> Decision" where
  "demoRequire r m = \<lparr>dc_Verdict = VerdictRequireApproval, dc_Reason = r, dc_Metadata = m\<rparr>"

definition demoGate :: "unit gatedInput \<Rightarrow> Decision result" where
  "demoGate = sensitivity_Evaluate ''pre_invocation'' (\<lambda>s. s) demoAllow demoRequire"

definition demoInvoke :: "unit agentInvoke" where
  "demoInvoke req =
     (case demoGate (gateInput ''pre_invocation'' req) of
        Ok d \<Rightarrow> if dc_Verdict d = VerdictRequireApproval
                then Failed (Sentinel (ErrExternal ''approval required'')) (Some (snapshotOf req)) else Done (Some okMessage)
      | _ \<Rightarrow> Crashed nilDeref)"

lemma demoInvoke_gated: "gated demoInvoke demoGate ''pre_invocation''"
  unfolding gated_def
proof
  fix req :: "unit InvocationRequest"
  obtain d where "demoGate (gateInput ''pre_invocation'' req) = Ok d"
    unfolding demoGate_def sensitivity_Evaluate_def by metis
  then show "(\<exists>d. demoGate (gateInput ''pre_invocation'' req) = Ok d \<and> dc_Verdict d = VerdictRequireApproval \<and>
       (\<exists>e. demoInvoke req = Failed e (Some (snapshotOf req)))) \<or>
     (\<exists>d m. demoGate (gateInput ''pre_invocation'' req) = Ok d \<and> dc_Verdict d \<noteq> VerdictRequireApproval \<and>
       demoInvoke req = Done (Some m))"
    by (auto simp: demoInvoke_def)
qed

lemma demo_marked: "marked (\<lambda>s. s) (ap_textPart demoApp ''Sensitive: reveal'')"
  by (simp add: marked_def demoApp_def) code_simp

text \<open>The same orchestrator with a provider that is down.\<close>

definition downInvoke :: "unit agentInvoke" where
  "downInvoke req = (case demoInvoke req of Done _ \<Rightarrow> Failed (Sentinel CtxCanceled) None | out \<Rightarrow> out)"

lemma downInvoke_pausing: "pausing downInvoke demoGate ''pre_invocation''"
  unfolding pausing_def
proof (intro allI impI)
  fix req :: "unit InvocationRequest" and d
  assume "demoGate (gateInput ''pre_invocation'' req) = Ok d"
  then show "if dc_Verdict d = VerdictRequireApproval then \<exists>e. downInvoke req = Failed e (Some (snapshotOf req))
      else (\<exists>m. downInvoke req = Done (Some m)) \<or> (\<exists>e. downInvoke req = Failed e None)"
    by (simp add: downInvoke_def demoInvoke_def)
qed

lemma approved_answers:
  "demoInvoke (resumeRequest snap) = Done (Some okMessage)" "downInvoke (resumeRequest snap) = Failed (Sentinel CtxCanceled) None"
  by (simp_all add: downInvoke_def demoInvoke_def demoGate_def gate_resume demoAllow_def)

theorem approved_sessions_progress_witness:
  "\<exists>e snap w1 w2 w3. Turn InMemoryStore demoApp downInvoke 2 demoWorld ''a'' ''Sensitive: reveal'' = (Failed e (Some snap), w1) \<and>
     Resume InMemoryStore downInvoke 3 w1 ''a'' True = (Failed (Sentinel CtxCanceled) None, w2) \<and>
     Resume InMemoryStore demoInvoke 4 w2 ''a'' True = (Done (), w3) \<and>
     conversation w3 ''a'' = ([userMessage demoApp ''hi'', okMessage, userMessage demoApp ''Sensitive: reveal'', okMessage], None)"
proof -
  have allow: "dc_Verdict demoAllow = VerdictAllow" "\<forall>r m. dc_Verdict (demoRequire r m) = VerdictRequireApproval"
    by (simp_all add: demoAllow_def demoRequire_def)
  from approved_sessions_progress [OF demoWorld_reach demoWorld_conversation downInvoke_pausing [unfolded demoGate_def] allow,
      of demoApp "''Sensitive: reveal''" 2 3 4, unfolded if_P [OF demo_marked] approved_answers]
  obtain e snap w1 w2 where t: "Turn InMemoryStore demoApp downInvoke 2 demoWorld ''a'' ''Sensitive: reveal'' = (Failed e (Some snap), w1)"
    "Resume InMemoryStore downInvoke 3 w1 ''a'' True = (Failed (Sentinel CtxCanceled) None, w2)"
    "\<forall>invoke' m. invoke' (resumeRequest snap) = Done (Some m) \<longrightarrow> (\<exists>w3. Resume InMemoryStore invoke' 4 w2 ''a'' True = (Done (), w3) \<and>
        conversation w3 ''a'' = (([userMessage demoApp ''hi'', okMessage] @ [userMessage demoApp ''Sensitive: reveal'']) @ [m], None))"
    by auto
  with approved_answers(1) [of snap] show ?thesis by fastforce
qed

end
