(* ===== verification/ExampleDemo.thy ===== *)
theory ExampleDemo
  imports ForgeFacade ManifestJson FactoryCatalog ExampleSession
begin

text \<open>
  The integration demo \<^verbatim>\<open>examples/demo/main.go\<close>: it registers every shipped factory, loads one of
  three specs, builds the agent and either prints its MCP contract or sends it a prompt. The spec
  files themselves are given as the values the YAML decoder produces for them.

  What the demo prints is a list of events; \<^verbatim>\<open>log.Fatal\<close> ends the program with its message and
  error. The command-line flags and the API key of the environment are arguments.
\<close>

section \<open>main.go\<close>

datatype event = Line string

datatype mainResult = Fatal string "gerror option" "event list" | Crash string | Finished "event list"

definition demoRegistry :: "('k, 'p) praxis \<Rightarrow> string \<Rightarrow> 'k \<Rightarrow> bool \<Rightarrow> bool \<Rightarrow> 'p component ComponentRegistry result" where
  "demoRegistry px apiKey priv structured mcpDemo =
     bindR (RegisterProvider (anthropicFactory px ''provider.anthropic@1.0.0'' apiKey) NewComponentRegistry) (\<lambda>r.
     bindR (RegisterPromptAsset (promptLiteralFactory ''prompt.demo-system@1.0.0'') r) (\<lambda>r.
     bindR (RegisterPromptAsset (promptLiteralFactory ''prompt.demo-structured-system@1.0.0'') r) (\<lambda>r.
     bindR (RegisterToolPack (httpGetFactory px ''toolpack.http-get@1.0.0'') r) (\<lambda>r.
     bindR (RegisterPolicyPack (piiFactory ''policypack.pii-redaction@1.0.0'') r) (\<lambda>r.
     bindR (RegisterPreLLMFilter (secretScrubberFactory ''filter.secret-scrubber@1.0.0'') r) (\<lambda>r.
     bindR (RegisterPreToolFilter (pathEscapeFactory ''filter.path-escape@1.0.0'') r) (\<lambda>r.
     bindR (RegisterPostToolFilter (outputTruncateFactory px ''filter.output-truncate@1.0.0'') r) (\<lambda>r.
     bindR (RegisterBudgetProfile (budgetDefaultFactory px ''budgetprofile.default-tier1@1.0.0'') r) (\<lambda>r.
     bindR (RegisterTelemetryProfile (slogFactory px ''telemetryprofile.slog@1.0.0'' (Some (px_defaultLog px))) r) (\<lambda>r.
     bindR (RegisterCredentialResolver (credEnvFactory ''credresolver.env@1.0.0'') r) (\<lambda>r.
     bindR (RegisterIdentitySigner (identityFactory px ''identitysigner.ed25519@1.0.0'' priv) r) (\<lambda>r.
     bindR (if structured
            then bindR (RegisterSkill (structuredOutputFactory ''skill.structured-output@1.0.0'') r)
                   (RegisterOutputContract (jsonSchemaFactory ''outputcontract.json-schema@1.0.0''))
            else Ok r) (\<lambda>r.
     if mcpDemo then RegisterMCPBinding (mcpFactory ''mcp.binding@1.0.0'') r else Ok r)))))))))))))"

definition demoSpecPath :: "bool \<Rightarrow> bool \<Rightarrow> string" where
  "demoSpecPath structured mcpDemo =
     (if structured then ''examples/demo/agent-structured.yaml''
      else if mcpDemo then ''examples/demo/agent-mcp.yaml'' else ''examples/demo/agent.yaml'')"

definition demoPrompt :: "bool \<Rightarrow> string" where
  "demoPrompt structured =
     (if structured
      then ''Summarize the praxis-forge README in one paragraph ('' @ [CHR 0xE2, CHR 0x89, CHR 0xA4] @
        ''80 words). Respond with JSON {\"summary\": string, \"url\": string} matching the output schema.''
      else ''Fetch '' @ ''https://raw.githubusercontent.com/praxis-os/praxis-forge/main/README.md'' @
        '' and summarize what praxis-forge does.'')"

definition demoRequest :: "'x \<Rightarrow> bool \<Rightarrow> 'o BuiltAgent \<Rightarrow> 'x InvocationRequest" where
  "demoRequest zero structured b = \<lparr>rq_Model = ''claude-sonnet-4-5'', rq_SystemPrompt = BuiltAgent_SystemPrompt b,
     rq_Messages = Some [\<lparr>msg_Role = RoleUser,
       msg_Parts = Some [\<lparr>mp_Type = PartTypeText, mp_Text = demoPrompt structured, mp_other = zero\<rparr>]\<rparr>],
     rq_Metadata = None\<rparr>"

text \<open>\<open>zero\<close> is the zero value of a message part's other fields; \<open>invoke\<close> gives \<^verbatim>\<open>res.Response\<close>.\<close>

definition demoReport :: "bool \<Rightarrow> Manifest \<Rightarrow> 'x Message option \<Rightarrow> event list" where
  "demoReport structured mf resp =
     (case resp of None \<Rightarrow> []
      | Some m \<Rightarrow> map (\<lambda>p. Line (''response: '' @ mp_Text p)) (filter (\<lambda>p. mp_Type p = PartTypeText) (elems (msg_Parts m)))) @
     [Line (''manifest components: '' @ decInt (int (length (mf_Resolved mf))))] @
     (if structured then [Line (''expanded hash: '' @ mf_ExpandedHash mf)] else [])"

text \<open>The error of \<^verbatim>\<open>MarshalIndent\<close> is dropped: an entry that does not marshal prints an empty line.\<close>

definition mcpReport :: "mo \<Rightarrow> Manifest \<Rightarrow> event list" where
  "mcpReport mo mf =
     [Line ''--- MCP binding contract ---''] @
     map (\<lambda>rc. Line (okOr [] (componentMarshalIndent mo rc))) (filter (\<lambda>rc. rcp_Kind rc = ''mcp_binding'') (mf_Resolved mf)) @
     [Line ''NOTE: binding is a contract; actual MCP invocation is a runtime concern.'']"

text \<open>\<^verbatim>\<open>must\<close> around each registration: the first error is fatal, before anything has been printed.\<close>

definition must :: "'a result \<Rightarrow> ('a \<Rightarrow> mainResult) \<Rightarrow> mainResult" where
  "must r k = (case r of Ok x \<Rightarrow> k x | Err e \<Rightarrow> Fatal [] (Some e) [] | Panic p \<Rightarrow> Crash p)"

definition demo_main :: "('k, 'p) praxis \<Rightarrow> 'x \<Rightarrow> string \<Rightarrow> 'k \<Rightarrow> bool \<Rightarrow> bool \<Rightarrow> 'b files \<Rightarrow> ('b \<Rightarrow> AgentSpec result) \<Rightarrow>
    mo \<Rightarrow> ('p component \<Rightarrow> 'p component orchOption list \<Rightarrow> 'o result) \<Rightarrow> int \<Rightarrow>
    ('o \<Rightarrow> 'x InvocationRequest \<Rightarrow> 'x Message option result) \<Rightarrow> mainResult" where
  "demo_main px zero apiKey priv structured mcpDemo fs decode mo orchNew now invoke =
     (if apiKey = [] then Fatal ''ANTHROPIC_API_KEY not set'' None []
      else must (demoRegistry px apiKey priv structured mcpDemo) (\<lambda>r. (case forge_LoadSpec fs decode (demoSpecPath structured mcpDemo) of
          Err e \<Rightarrow> Fatal ''load spec: %v'' (Some e) [] | Panic p \<Rightarrow> Crash p
        | Ok s \<Rightarrow> (case fst (forge_Build mo orchNew now background (Some s) (Some r) []) of
            Err e \<Rightarrow> Fatal ''build: %v'' (Some e) [] | Panic p \<Rightarrow> Crash p
          | Ok b \<Rightarrow>
            if mcpDemo then Finished (mcpReport mo (BuiltAgent_Manifest b))
            else (case BuiltAgent_Invoke invoke b (demoRequest zero structured b) of
              Err e \<Rightarrow> Fatal ''invoke: %v'' (Some e) [] | Panic p \<Rightarrow> Crash p
            | Ok resp \<Rightarrow> Finished (demoReport structured (BuiltAgent_Manifest b) resp))))))"

section \<open>Registration\<close>

lemmas register_defs = RegisterProvider_def RegisterPromptAsset_def RegisterToolPack_def RegisterPolicyPack_def
  RegisterPreLLMFilter_def RegisterPreToolFilter_def RegisterPostToolFilter_def RegisterBudgetProfile_def
  RegisterTelemetryProfile_def RegisterCredentialResolver_def RegisterIdentitySigner_def RegisterSkill_def
  RegisterOutputContract_def RegisterMCPBinding_def

text \<open>The registry of the demo, table by table.\<close>

definition demoTables :: "('k, 'p) praxis \<Rightarrow> string \<Rightarrow> 'k \<Rightarrow> bool \<Rightarrow> bool \<Rightarrow> 'p component ComponentRegistry" where
  "demoTables px apiKey priv structured mcpDemo = \<lparr>frozen = False,
     providers = [''provider.anthropic@1.0.0'' \<mapsto> anthropicFactory px ''provider.anthropic@1.0.0'' apiKey],
     promptAssets = [''prompt.demo-system@1.0.0'' \<mapsto> promptLiteralFactory ''prompt.demo-system@1.0.0'',
       ''prompt.demo-structured-system@1.0.0'' \<mapsto> promptLiteralFactory ''prompt.demo-structured-system@1.0.0''],
     toolPacks = [''toolpack.http-get@1.0.0'' \<mapsto> httpGetFactory px ''toolpack.http-get@1.0.0''],
     policyPacks = [''policypack.pii-redaction@1.0.0'' \<mapsto> piiFactory ''policypack.pii-redaction@1.0.0''],
     preLLMFilters = [''filter.secret-scrubber@1.0.0'' \<mapsto> secretScrubberFactory ''filter.secret-scrubber@1.0.0''],
     preToolFilters = [''filter.path-escape@1.0.0'' \<mapsto> pathEscapeFactory ''filter.path-escape@1.0.0''],
     postToolFilters = [''filter.output-truncate@1.0.0'' \<mapsto> outputTruncateFactory px ''filter.output-truncate@1.0.0''],
     budgetProfiles = [''budgetprofile.default-tier1@1.0.0'' \<mapsto> budgetDefaultFactory px ''budgetprofile.default-tier1@1.0.0''],
     telemetryProfiles = [''telemetryprofile.slog@1.0.0'' \<mapsto> slogFactory px ''telemetryprofile.slog@1.0.0'' (Some (px_defaultLog px))],
     credResolvers = [''credresolver.env@1.0.0'' \<mapsto> credEnvFactory ''credresolver.env@1.0.0''],
     identitySigners = [''identitysigner.ed25519@1.0.0'' \<mapsto> identityFactory px ''identitysigner.ed25519@1.0.0'' priv],
     skills = (if structured then [''skill.structured-output@1.0.0'' \<mapsto> structuredOutputFactory ''skill.structured-output@1.0.0''] else (\<lambda>_. None)),
     outputContracts = (if structured then [''outputcontract.json-schema@1.0.0'' \<mapsto> jsonSchemaFactory ''outputcontract.json-schema@1.0.0''] else (\<lambda>_. None)),
     mcpBindings = (if mcpDemo then [''mcp.binding@1.0.0'' \<mapsto> mcpFactory ''mcp.binding@1.0.0''] else (\<lambda>_. None))\<rparr>"

lemma demoRegistry_tables: "demoRegistry px apiKey priv structured mcpDemo = Ok (demoTables px apiKey priv structured mcpDemo)"
  by (simp add: demoRegistry_def demoTables_def NewComponentRegistry_def register_defs)

section \<open>The spec files\<close>

definition textBlock :: "string list \<Rightarrow> string" where
  "textBlock ls = concat (map (\<lambda>l. l @ newline) ls)"

definition demoSpec :: AgentSpec where
  "demoSpec = zeroAgentSpec\<lparr>s_APIVersion := ''forge.praxis-os.dev/v0'', s_Kind := ''AgentSpec'',
     s_Metadata := zeroMetadata\<lparr>md_ID := ''forge.examples.demo'', md_Version := ''0.1.0'', md_DisplayName := ''Forge demo agent''\<rparr>,
     s_Provider := \<lparr>cr_Ref = ''provider.anthropic@1.0.0'',
       cr_Config = Some [(''model'', VString ''claude-sonnet-4-5''), (''maxOutputTokens'', VInt 512)]\<rparr>,
     s_Prompt := \<lparr>pb_System = Some \<lparr>cr_Ref = ''prompt.demo-system@1.0.0'',
       cr_Config = Some [(''text'', VString (textBlock
         [''You are a careful research assistant. Use the http_get tool to'',
          ''fetch the URL the user names, then summarize its content in'',
          ''2-3 sentences. Do not fetch other URLs.'']))]\<rparr>, pb_User = None\<rparr>,
     s_Tools := Some [\<lparr>cr_Ref = ''toolpack.http-get@1.0.0'',
       cr_Config = Some [(''allowedHosts'', VSlice (Some [VString ''raw.githubusercontent.com''])), (''timeoutMs'', VInt 5000)]\<rparr>],
     s_Policies := Some [\<lparr>cr_Ref = ''policypack.pii-redaction@1.0.0'', cr_Config = Some [(''strictness'', VString ''medium'')]\<rparr>],
     s_Filters := \<lparr>fb_PreLLM = Some [\<lparr>cr_Ref = ''filter.secret-scrubber@1.0.0'', cr_Config = None\<rparr>],
       fb_PreTool = Some [\<lparr>cr_Ref = ''filter.path-escape@1.0.0'', cr_Config = None\<rparr>],
       fb_PostTool = Some [\<lparr>cr_Ref = ''filter.output-truncate@1.0.0'', cr_Config = Some [(''maxBytes'', VInt 16384)]\<rparr>]\<rparr>,
     s_Budget := Some \<lparr>br_Ref = ''budgetprofile.default-tier1@1.0.0'',
       br_Overrides = noOverrides\<lparr>bo_MaxWallClock := ''20s'', bo_MaxToolCalls := 4\<rparr>\<rparr>,
     s_Telemetry := Some \<lparr>cr_Ref = ''telemetryprofile.slog@1.0.0'', cr_Config = Some [(''level'', VString ''info'')]\<rparr>,
     s_Credentials := Some \<lparr>cd_Ref = ''credresolver.env@1.0.0'', cd_Scopes = None\<rparr>,
     s_Identity := Some \<lparr>cr_Ref = ''identitysigner.ed25519@1.0.0'',
       cr_Config = Some [(''issuer'', VString ''forge-demo''), (''tokenLifetimeSeconds'', VInt 60)]\<rparr>\<rparr>"

definition structuredSpec :: AgentSpec where
  "structuredSpec = zeroAgentSpec\<lparr>s_APIVersion := ''forge.praxis-os.dev/v0'', s_Kind := ''AgentSpec'',
     s_Metadata := zeroMetadata\<lparr>md_ID := ''demo.structured'', md_Version := ''0.1.0'', md_DisplayName := ''structured-output demo''\<rparr>,
     s_Provider := \<lparr>cr_Ref = ''provider.anthropic@1.0.0'',
       cr_Config = Some [(''model'', VString ''claude-sonnet-4-5''), (''maxTokens'', VInt 1024)]\<rparr>,
     s_Prompt := \<lparr>pb_System = Some \<lparr>cr_Ref = ''prompt.demo-structured-system@1.0.0'', cr_Config = None\<rparr>, pb_User = None\<rparr>,
     s_Policies := Some [\<lparr>cr_Ref = ''policypack.pii-redaction@1.0.0'', cr_Config = Some [(''strictness'', VString ''medium'')]\<rparr>],
     s_Budget := Some \<lparr>br_Ref = ''budgetprofile.default-tier1@1.0.0'', br_Overrides = noOverrides\<rparr>,
     s_Telemetry := Some \<lparr>cr_Ref = ''telemetryprofile.slog@1.0.0'', cr_Config = None\<rparr>,
     s_OutputContract := Some \<lparr>cr_Ref = ''outputcontract.json-schema@1.0.0'',
       cr_Config = Some [(''schema'', VMap (Some
         [(''$schema'', VString ''https://json-schema.org/draft/2020-12/schema''), (''type'', VString ''object''),
          (''properties'', VMap (Some [(''summary'', VMap (Some [(''type'', VString ''string'')])),
             (''url'', VMap (Some [(''type'', VString ''string'')]))])),
          (''required'', VSlice (Some [VString ''summary'']))]))]\<rparr>,
     s_Skills := Some [\<lparr>cr_Ref = ''skill.structured-output@1.0.0'', cr_Config = None\<rparr>]\<rparr>"

definition mcpSpec :: AgentSpec where
  "mcpSpec = zeroAgentSpec\<lparr>s_APIVersion := ''forge.praxis-os.dev/v0'', s_Kind := ''AgentSpec'',
     s_Metadata := zeroMetadata\<lparr>md_ID := ''demo.mcp'', md_Version := ''0.1.0'', md_DisplayName := ''mcp-binding demo''\<rparr>,
     s_Provider := \<lparr>cr_Ref = ''provider.anthropic@1.0.0'',
       cr_Config = Some [(''model'', VString ''claude-sonnet-4-5''), (''maxTokens'', VInt 1024)]\<rparr>,
     s_Prompt := \<lparr>pb_System = Some \<lparr>cr_Ref = ''prompt.demo-system@1.0.0'',
       cr_Config = Some [(''text'', VString (textBlock
         [''You are a helpful assistant with access to filesystem tools via MCP.'']))]\<rparr>, pb_User = None\<rparr>,
     s_Policies := Some [\<lparr>cr_Ref = ''policypack.pii-redaction@1.0.0'', cr_Config = Some [(''strictness'', VString ''medium'')]\<rparr>],
     s_MCPImports := Some [\<lparr>cr_Ref = ''mcp.binding@1.0.0'', cr_Config = Some
       [(''id'', VString ''fs''),
        (''connection'', VMap (Some [(''transport'', VString ''stdio''),
           (''command'', VSlice (Some [VString ''npx'', VString ''-y'', VString ''@modelcontextprotocol/server-filesystem'', VString ''/tmp/demo'']))])),
        (''allow'', VSlice (Some [VString ''read_*'', VString ''list_*''])),
        (''deny'', VSlice (Some [VString ''write_*''])),
        (''policies'', VSlice (Some [VString ''policypack.pii-redaction@1.0.0''])),
        (''trust'', VMap (Some [(''tier'', VString ''medium''), (''owner'', VString ''demo'')])),
        (''onNewTool'', VString ''block'')]\<rparr>]\<rparr>"

lemma normalizes_alone:
  assumes "elems (s_Extends s) = []" "Validate s = None"
    and "isOk (applyOverlays [] (mergeChain [] s)) \<and> fst (okOr undefined (applyOverlays [] (mergeChain [] s))) = s"
  shows "\<exists>ns. Normalize background (Some s) [] None = Ok ns \<and> ns_Spec ns = s"
  using assms by (auto simp: Normalize_def resolveExtendsChain_def isOk_iff okOr_def)

lemma demoSpec_normalizes: "\<exists>ns. Normalize background (Some demoSpec) [] None = Ok ns \<and> ns_Spec ns = demoSpec"
proof (rule normalizes_alone)
  show "Validate demoSpec = None" by code_simp
  show "isOk (applyOverlays [] (mergeChain [] demoSpec)) \<and>
      fst (okOr undefined (applyOverlays [] (mergeChain [] demoSpec))) = demoSpec" by code_simp
qed (simp add: demoSpec_def zeroAgentSpec_def)

lemma structuredSpec_normalizes: "\<exists>ns. Normalize background (Some structuredSpec) [] None = Ok ns \<and> ns_Spec ns = structuredSpec"
proof (rule normalizes_alone)
  show "Validate structuredSpec = None" by code_simp
  show "isOk (applyOverlays [] (mergeChain [] structuredSpec)) \<and>
      fst (okOr undefined (applyOverlays [] (mergeChain [] structuredSpec))) = structuredSpec" by code_simp
qed (simp add: structuredSpec_def zeroAgentSpec_def)

lemma mcpSpec_normalizes: "\<exists>ns. Normalize background (Some mcpSpec) [] None = Ok ns \<and> ns_Spec ns = mcpSpec"
proof (rule normalizes_alone)
  show "Validate mcpSpec = None" by code_simp
  show "isOk (applyOverlays [] (mergeChain [] mcpSpec)) \<and>
      fst (okOr undefined (applyOverlays [] (mergeChain [] mcpSpec))) = mcpSpec" by code_simp
qed (simp add: mcpSpec_def zeroAgentSpec_def)

end
