(* ===== verification/ExampleDemoRuns.thy ===== *)
theory ExampleDemoRuns
  imports ExampleDemo
begin

text \<open>
  The runs of the integration demo: the default run builds the agent with exactly the options of its
  components, the structured run always fails, the MCP run prints its contract, and the default
  agent's chains guard every seam. What the factories deliver for the shipped configurations is
  collected in \<open>demo_builds\<close>.
\<close>

section \<open>The default run\<close>

text \<open>A spec without skills and contract expands to itself.\<close>

definition plainSpec :: "AgentSpec \<Rightarrow> bool" where
  "plainSpec s \<longleftrightarrow> elems (s_Skills s) = [] \<and> s_OutputContract s = None \<and> s_Tools s \<noteq> Some [] \<and> s_Policies s \<noteq> Some []"

lemma no_skills_expand:
  assumes "plainSpec s"
  shows "\<exists>es. expandSkills mo ctx s r = Ok es \<and> resolveOutputContract ctx es r = Ok es \<and> ex_Spec es = s \<and> ex_Skills es = [] \<and>
    ex_ResolvedOutputContract es = None \<and> ex_InjectedBy es = (\<lambda>_. None)"
  using assms by (auto simp: plainSpec_def expandSkills_def resolveOutputContract_def finishExpand_def initExpand_def appended_def
      elems_def split: option.splits)

definition demoHttp :: cfgShape where
  "demoHttp = \<lparr>hg_AllowedHosts = [''raw.githubusercontent.com''], hg_Timeout = 5000 * 1000000\<rparr>"

definition demoRouter :: "'p component toolRouter" where
  "demoRouter = \<lparr>byName = [''http_get'' \<mapsto> HttpInvoker demoHttp]\<rparr>"

definition demoOptions :: "('k, 'p) praxis \<Rightarrow> 'p \<Rightarrow> 'p component orchOption list" where
  "demoOptions px signer =
     [WithToolInvoker demoRouter, WithPolicyHook [PiiHook ''medium''], WithPreLLMFilter [SecretScrubber],
      WithPreToolFilter [PathEscape], WithPostToolFilter [OutputTruncate 16384],
      WithBudgetGuard (Praxis (px_NullGuard px)), WithLifecycleEmitter (SlogEmitter (px_defaultLog px) ''info''),
      WithAttributeEnricher SlogEnricher, WithCredentialResolver EnvResolver, WithIdentitySigner (Praxis signer)]"

lemma demo_http: "httpGet_Build oor HttpInvoker fid (Some [(''allowedHosts'', VSlice (Some [VString h])), (''timeoutMs'', VInt t)]) =
  Ok \<lparr>tp_Invoker = HttpInvoker \<lparr>hg_AllowedHosts = [h], hg_Timeout = t * 1000000\<rparr>, tp_Definitions = [httpGetDef],
      tp_Descriptors = [\<lparr>tdc_Name = ''http_get'', tdc_Owner = [], tdc_RiskTier = ''moderate'',
           tdc_PolicyTags = Some [''network'', ''http''], tdc_AuthScopes = None, tdc_TimeoutHint = 0, tdc_Source = fid\<rparr>]\<rparr>"
  by (simp add: httpGet_Build_def httpGet_decode_def hostElem_def timeoutOf_def toInt_def numberToInt_def map_lookup_def as_string_def)

lemma demo_pii: "pii_Build PiiHook fid (Some [(''strictness'', VString ''medium'')]) =
   Ok \<lparr>pp_Hook = PiiHook ''medium'', pp_Descriptors = [\<lparr>pdc_Name = ''pii-redaction'', pdc_Owner = [],
                 pdc_PolicyTags = Some [''pii'', ''privacy''], pdc_Source = fid\<rparr>]\<rparr>"
  by (simp add: pii_Build_def map_index_def map_lookup_def as_string_def)

lemma demo_truncate: "outputTruncate_Build oor fid (Some [(''maxBytes'', VInt 16384)]) = Ok 16384"
  by (simp add: outputTruncate_Build_def requireInt_def map_lookup_def numberToInt_def)

lemma demo_slog: "slog_Build em en fid (Some [(''level'', VString ''info'')]) = Ok \<lparr>te_Emitter = em ''info'', te_Enricher = en\<rparr>"
  by (simp add: slog_Build_def slog_decode_def map_lookup_def as_string_def)

lemma demo_identity: "identity_Build oor mk fid (Some [(''issuer'', VString ''forge-demo''), (''tokenLifetimeSeconds'', VInt 60)]) =
   wrapErr (\<lambda>err. Errorf ''%s: %w'' [AStr fid, AWrap err]) (mk ''forge-demo'' (60 * 1000000000))"
  by (simp add: identity_Build_def identity_decode_def identity_toInt_def map_index_def map_lookup_def as_string_def numberToInt_def)

lemma demo_anthropic: "apiKey \<noteq> [] \<Longrightarrow> anthropic_Build oor mk fid apiKey (Some [(''model'', VString ''claude-sonnet-4-5''), (''maxOutputTokens'', VInt 512)]) =
   Ok (mk apiKey [WithModel ''claude-sonnet-4-5'', WithMaxTokens 512])"
  by (simp add: anthropic_Build_def anthropic_decode_def map_index_def map_lookup_def as_string_def numberToInt_def)

lemma demo_prompt: "t \<noteq> [] \<Longrightarrow> promptLiteral_Build fid (Some [(''text'', VString t)]) = Ok t"
  by (simp add: promptLiteral_Build_def map_lookup_def as_string_def)

lemmas demo_builds = demo_http demo_pii demo_truncate demo_slog demo_identity demo_anthropic demo_prompt

definition demoSystemPrompt :: string where
  "demoSystemPrompt = textBlock
     [''You are a careful research assistant. Use the http_get tool to'',
      ''fetch the URL the user names, then summarize its content in'',
      ''2-3 sentences. Do not fetch other URLs.'']"

lemma parse_20s: "ParseDuration ''20s'' = Ok (20 * 1000000000)"
proof -
  have "durComponent ''20s'' ''20s'' = Ok (20 * 10 ^ 9, [])"
    by (simp add: durComponent_def isDigit_def digitVal_def durFraction_def isUnitChar_def unitMap_def Let_def less_char_def less_eq_char_def byte_def)
  then show ?thesis by (simp add: ParseDuration_def durLoop.simps)
qed

lemma demo_overrides: "\<exists>c. applyBudgetOverrides
   \<lparr>bc_MaxWallClock = 30 * 1000000000, bc_MaxInputTokens = 50000, bc_MaxOutputTokens = 10000,
       bc_MaxToolCalls = 24, bc_MaxCostMicrodollars = 500000\<rparr> (noOverrides\<lparr>bo_MaxWallClock := ''20s'', bo_MaxToolCalls := 4\<rparr>) = Ok c"
  by (simp add: applyBudgetOverrides_def wallClock_def parse_20s noOverrides_def tightenInt64_def)


definition demoProvider :: "('k, 'p) praxis \<Rightarrow> string \<Rightarrow> 'p component" where
  "demoProvider px apiKey = Praxis (px_anthropic px apiKey [WithModel ''claude-sonnet-4-5'', WithMaxTokens 512])"

text \<open>What the resolver must deliver for the options and the manifest to be the demo's.\<close>

definition demoResolved :: "('k, 'p) praxis \<Rightarrow> string \<Rightarrow> 'p \<Rightarrow> 'p component resolved \<Rightarrow> bool" where
  "demoResolved px apiKey signer res \<longleftrightarrow>
     re_provider res = demoProvider px apiKey \<and> re_providerID res = ''provider.anthropic@1.0.0'' \<and>
     re_systemPrompt res = demoSystemPrompt \<and> re_promptID res = ''prompt.demo-system@1.0.0'' \<and>
     map tp_Invoker (re_toolPacks res) = [HttpInvoker demoHttp] \<and> map tp_Definitions (re_toolPacks res) = [[httpGetDef]] \<and>
     re_toolPackIDs res = [''toolpack.http-get@1.0.0''] \<and> length (re_toolPackCfgs res) = 1 \<and>
     re_policyHooks res = [PiiHook ''medium''] \<and> re_policyHookIDs res = [''policypack.pii-redaction@1.0.0''] \<and>
     length (re_policyHookCfgs res) = 1 \<and>
     re_preLLMFilters res = [SecretScrubber] \<and> re_preLLMIDs res = [''filter.secret-scrubber@1.0.0''] \<and> length (re_preLLMCfgs res) = 1 \<and>
     re_preToolFilters res = [PathEscape] \<and> re_preToolIDs res = [''filter.path-escape@1.0.0''] \<and> length (re_preToolCfgs res) = 1 \<and>
     re_postToolFilters res = [OutputTruncate 16384] \<and> re_postToolIDs res = [''filter.output-truncate@1.0.0''] \<and>
     length (re_postToolCfgs res) = 1 \<and>
     re_budget res = Some (okOr undefined (budgetDefault_Build (Praxis (px_NullGuard px)))) \<and>
     re_budgetID res = ''budgetprofile.default-tier1@1.0.0'' \<and>
     re_budgetOverrides res = noOverrides\<lparr>bo_MaxWallClock := ''20s'', bo_MaxToolCalls := 4\<rparr> \<and>
     re_telemetry res = Some \<lparr>te_Emitter = SlogEmitter (px_defaultLog px) ''info'', te_Enricher = SlogEnricher\<rparr> \<and>
     re_telemetryID res = ''telemetryprofile.slog@1.0.0'' \<and>
     re_credResolver res = Some EnvResolver \<and> re_credResolverID res = ''credresolver.env@1.0.0'' \<and>
     re_identity res = Some (Praxis signer) \<and> re_identityID res = ''identitysigner.ed25519@1.0.0'' \<and>
     re_skillIDs res = [] \<and> re_outputContract res = None \<and> re_mcpBindingIDs res = []"

lemma demo_resolve:
  assumes "apiKey \<noteq> []" "px_signer px priv ''forge-demo'' (60 * 1000000000) = Ok signer"
  shows "\<exists>res. resolve background demoSpec (demoTables px apiKey priv False False) = Ok res \<and> demoResolved px apiKey signer res"
  using assms
  by (simp add: resolve_def buildOne_def buildRefs_def buildRef_def buildOpt_def refCfg_def demoSpec_def zeroAgentSpec_def
      demoTables_def lookup_defs factory_defs demo_builds demoResolved_def demoProvider_def demoSystemPrompt_def demoHttp_def
      textBlock_def newline_def optID_def okOr_def budgetDefault_Build_def wrapErr_def)

lemma demo_router: "map tp_Invoker ps = [HttpInvoker demoHttp] \<Longrightarrow> map tp_Definitions ps = [[httpGetDef]] \<Longrightarrow>
    newToolRouter ps = Ok (demoRouter, [httpGetDef])"
  by (auto simp: newToolRouter_def demoRouter_def httpGetDef_def mcpPrefix_def)

text \<open>The ids the manifest lists, in order, with their kinds.\<close>

definition demoComponents :: "(string \<times> string) list" where
  "demoComponents =
     [(KindProvider, ''provider.anthropic@1.0.0''), (KindPromptAsset, ''prompt.demo-system@1.0.0''),
      (KindToolPack, ''toolpack.http-get@1.0.0''), (KindPolicyPack, ''policypack.pii-redaction@1.0.0''),
      (KindPreLLMFilter, ''filter.secret-scrubber@1.0.0''), (KindPreToolFilter, ''filter.path-escape@1.0.0''),
      (KindPostToolFilter, ''filter.output-truncate@1.0.0''), (KindBudgetProfile, ''budgetprofile.default-tier1@1.0.0''),
      (KindTelemetryProfile, ''telemetryprofile.slog@1.0.0''), (KindCredentialResolver, ''credresolver.env@1.0.0''),
      (KindIdentitySigner, ''identitysigner.ed25519@1.0.0'')]"

lemma listEntries_one: "length cfgs = 1 \<Longrightarrow>
   listEntries kind [cid] cfgs noDesc injector = Ok [entry kind cid (hd cfgs) NoDescriptors (injector cid)]"
  by (cases cfgs) (simp_all add: listEntries_def idx_def)

lemma listEntries_none [simp]: "listEntries kind [] cfgs d injector = Ok []"
  by (simp add: listEntries_def)

lemma demo_materialize:
  assumes "demoResolved px apiKey signer res" "orchNew (demoProvider px apiKey) (demoOptions px signer) = Ok orch"
  shows "\<exists>ba. materialize mo orchNew now ns m es res = Ok ba \<and> ba_Orchestrator ba = orch \<and>
    ba_SystemPrompt ba = demoSystemPrompt \<and>
    map (\<lambda>c. (rcp_Kind c, rcp_ID c)) (mf_Resolved (ba_Manifest ba)) = demoComponents"
proof -
  note r = assms(1)[unfolded demoResolved_def]
  have t: "toolOptions res = Ok ([WithToolInvoker demoRouter], [httpGetDef])"
    using r demo_router[of "re_toolPacks res"] by (auto simp: toolOptions_def)
  have b: "budgetOptions res = Ok [WithBudgetGuard (Praxis (px_NullGuard px))]"
    using r demo_overrides by (auto simp: budgetOptions_def budgetDefault_Build_def okOr_def)
  have o1: "WithToolInvoker demoRouter # chainOptions res @ WithBudgetGuard (Praxis (px_NullGuard px)) # runtimeOptions res = demoOptions px signer"
    using r by (simp add: chainOptions_def runtimeOptions_def demoOptions_def)
  obtain mf where mf: "buildManifest mo now (ns_Spec ns) res ns m es = Ok mf"
    "map (\<lambda>c. (rcp_Kind c, rcp_ID c)) (mf_Resolved mf) = demoComponents"
    using r by (simp add: buildManifest_def listEntries_one optEntry_def entry_def demoComponents_def)
  show ?thesis
    using r assms(2) mf by (simp add: materialize_def t b Let_def o1)
qed


lemma forge_Build_alone:
  assumes "Normalize background (Some s) [] None = Ok ns"
  shows "fst (forge_Build mo orchNew now background (Some s) (Some r) []) = buildFrozen mo orchNew now background ns freshMemos r"
  using assms by (simp add: forge_Build_cases Build_Some collected_def noOptions_def buildFrozen_Freeze)

lemma demoSpec_parts: "plainSpec demoSpec" "elems (s_MCPImports demoSpec) = []"
  by (simp_all add: plainSpec_def demoSpec_def zeroAgentSpec_def)

lemma demo_agent:
  assumes "apiKey \<noteq> []" "px_signer px priv ''forge-demo'' (60 * 1000000000) = Ok signer"
    and "orchNew (demoProvider px apiKey) (demoOptions px signer) = Ok orch"
  shows "\<exists>ba. fst (forge_Build mo orchNew now background (Some demoSpec) (Some (demoTables px apiKey priv False False)) []) = Ok ba \<and>
    ba_Orchestrator ba = orch \<and> ba_SystemPrompt ba = demoSystemPrompt \<and>
    map (\<lambda>c. (rcp_Kind c, rcp_ID c)) (mf_Resolved (ba_Manifest ba)) = demoComponents"
proof -
  let ?r = "demoTables px apiKey priv False False"
  obtain ns where ns: "Normalize background (Some demoSpec) [] None = Ok ns" "ns_Spec ns = demoSpec"
    using demoSpec_normalizes by blast
  obtain es where es: "expandSkills mo background demoSpec ?r = Ok es" "resolveOutputContract background es ?r = Ok es"
    "ex_Spec es = demoSpec" "ex_Skills es = []" "ex_ResolvedOutputContract es = None"
    using no_skills_expand[OF demoSpec_parts(1)] by blast
  obtain res where res: "resolve background demoSpec ?r = Ok res" "demoResolved px apiKey signer res"
    using demo_resolve[OF assms(1,2)] by blast
  let ?res = "(stampMCP [] (stampExpansion es res))\<lparr>re_systemPrompt := appendSkillFragments (re_systemPrompt res) []\<rparr>"
  have "demoResolved px apiKey signer ?res"
    using res(2) es(4,5) by (simp add: demoResolved_def stampMCP_def stampExpansion_def appendSkillFragments_def)
  from demo_materialize[where orchNew = orchNew, OF this assms(3)]
  have "\<exists>ba. buildFrozen mo orchNew now background ns freshMemos ?r = Ok ba \<and> ba_Orchestrator ba = orch \<and>
      ba_SystemPrompt ba = demoSystemPrompt \<and> map (\<lambda>c. (rcp_Kind c, rcp_ID c)) (mf_Resolved (ba_Manifest ba)) = demoComponents"
    using es res(1) demoSpec_parts(2)
    by (simp add: buildFrozen_def ns(2) resolveMCPBindings_def Let_def stampMCP_def stampExpansion_def)
  then show ?thesis by (simp add: forge_Build_alone[OF ns(1)])
qed

section \<open>The structured run\<close>

lemmas json_simps = decodeObj_def sanitize_valid valid_utf8_ascii byte_def less_eq_char_def less_char_def

lemma medium_equal: "CanonicalConfigsEqual mo (Some [(''strictness'', VString ''medium'')]) (Some [(''strictness'', VString ''medium'')]) = Ok True"
  by (simp add: CanonicalConfigsEqual_def canonicalizeConfig_eq json_simps)

lemma schema_differs: "CanonicalConfigsEqual mo (cr_Config (the (s_OutputContract structuredSpec))) None = Ok False"
proof -
  have "canonicalizeConfig mo None = Ok ''null''" by (rule canonicalizeConfig_None)
  moreover have "\<exists>kvs. canonicalizeConfig mo (cr_Config (the (s_OutputContract structuredSpec))) = Ok (canonicalEncodeMap kvs)"
    by (simp add: structuredSpec_def canonicalizeConfig_eq json_simps) (rule exI, rule refl)
  ultimately show ?thesis by (auto simp: CanonicalConfigsEqual_def canonicalEncodeMap_def Let_def)
qed

lemma structured_ids:
  "ParseID ''policypack.pii-redaction@1.0.0'' = Ok (''policypack.pii-redaction'', ''1.0.0'')"
  "ParseID ''outputcontract.json-schema@1.0.0'' = Ok (''outputcontract.json-schema'', ''1.0.0'')"
  by code_simp+

definition structuredConflict :: gerror where
  "structuredConflict = Errorf ''%s: skill %s requires %s but user config differs''
     [AStr errCodeOutputUserOverride, AStr ''skill.structured-output@1.0.0'', AStr ''outputcontract.json-schema@1.0.0'']"

lemma structured_expand: "expandSkills mo ctx structuredSpec (demoTables px apiKey priv True mcpDemo) = Err structuredConflict"
proof -
  obtain cfg where oc: "s_OutputContract structuredSpec = Some \<lparr>cr_Ref = ''outputcontract.json-schema@1.0.0'', cr_Config = cfg\<rparr>"
    by (simp add: structuredSpec_def)
  have parts: "elems (s_Skills structuredSpec) = [\<lparr>cr_Ref = ''skill.structured-output@1.0.0'', cr_Config = None\<rparr>]"
    "elems (s_Policies structuredSpec) = [\<lparr>cr_Ref = ''policypack.pii-redaction@1.0.0'', cr_Config = Some [(''strictness'', VString ''medium'')]\<rparr>]"
    by (simp_all add: structuredSpec_def)
  have "CanonicalConfigsEqual mo cfg None = Ok False" using schema_differs oc by simp
  then show ?thesis
    by (simp add: expandSkills_def parts oc expandOne_def LookupSkill_def demoTables_def structuredOutputFactory_def
        structuredOutputSkill_def isEmptyContribution_def injectTools_def injectPolicies_def injectRequired_def structured_ids
        medium_equal injectContract_def injectOutputContract_def initExpand_def structuredConflict_def)
qed

lemma structured_build:
  "fst (forge_Build mo orchNew now background (Some structuredSpec) (Some (demoTables px apiKey priv True mcpDemo)) []) = Err structuredConflict"
proof -
  obtain ns where ns: "Normalize background (Some structuredSpec) [] None = Ok ns" "ns_Spec ns = structuredSpec"
    using structuredSpec_normalizes by blast
  show ?thesis by (simp add: forge_Build_alone[OF ns(1)] buildFrozen_def ns(2) structured_expand)
qed

section \<open>Properties\<close>

text \<open>C36. With an API key, the spec file as shipped, and constructors of praxis that succeed on what the
  factories hand them, the demo's default run builds its agent: the orchestrator gets the provider
  and exactly the ten options of the wired components, in order, the manifest lists the eleven
  components of the spec, and the run ends in the report on the agent's answer, or in the fatal
  error of the invocation.\<close>

theorem demo_default_run:
  assumes "apiKey \<noteq> []" and "px_signer px priv ''forge-demo'' (60 * 1000000000) = Ok signer"
    and "orchNew (demoProvider px apiKey) (demoOptions px signer) = Ok orch"
    and "fs_open fs ''examples/demo/agent.yaml'' = Ok bytes" and "decode bytes = Ok demoSpec"
  shows "\<exists>ba. ba_Orchestrator ba = orch \<and> ba_SystemPrompt ba = demoSystemPrompt \<and>
    map (\<lambda>c. (rcp_Kind c, rcp_ID c)) (mf_Resolved (ba_Manifest ba)) = demoComponents \<and>
    demo_main px zero apiKey priv False False fs decode mo orchNew now invoke =
      (case invoke orch (demoRequest zero False ba) of
         Ok resp \<Rightarrow> Finished (demoReport False (ba_Manifest ba) resp)
       | Err e \<Rightarrow> Fatal ''invoke: %v'' (Some e) [] | Panic p \<Rightarrow> Crash p)"
proof -
  obtain ba where ba: "fst (forge_Build mo orchNew now background (Some demoSpec) (Some (demoTables px apiKey priv False False)) []) = Ok ba"
    "ba_Orchestrator ba = orch" "ba_SystemPrompt ba = demoSystemPrompt"
    "map (\<lambda>c. (rcp_Kind c, rcp_ID c)) (mf_Resolved (ba_Manifest ba)) = demoComponents"
    using demo_agent[where orchNew = orchNew, OF assms(1-3)] by blast
  have "forge_LoadSpec fs decode (demoSpecPath False False) = Ok demoSpec"
    using assms(4,5) by (simp add: forge_LoadSpec_def LoadSpec_def demoSpecPath_def)
  then show ?thesis
    using ba assms(1) by (intro exI[of _ ba]) (auto simp: demo_main_def must_def demoRegistry_tables facade_defs split: result.split)
qed

definition samplePraxis :: "(unit, string) praxis" where
  "samplePraxis = \<lparr>px_anthropic = (\<lambda>key opts. ''anthropic''), px_NullGuard = ''guard'', px_signer = (\<lambda>_ iss _. Ok iss),
     px_defaultLog = ''log'', px_oor = (\<lambda>_. 0)\<rparr>"

definition oneFile :: "string \<Rightarrow> unit files" where
  "oneFile path = \<lparr>fs_getwd = Ok ''/'', fs_open = (\<lambda>p. if p = path then Ok () else Err (Sentinel (ErrExternal ''no such file''))),
     fs_notExist = (\<lambda>_. True)\<rparr>"

theorem demo_default_run_witness:
  "\<exists>n. demo_main samplePraxis () ''sk-key'' () False False (oneFile ''examples/demo/agent.yaml'') (\<lambda>_. Ok demoSpec) (\<lambda>_. None)
     (\<lambda>p opts. Ok (length opts)) 0 (\<lambda>o1 req. Ok (Some \<lparr>msg_Role = RoleAssistant, msg_Parts = Some
       [\<lparr>mp_Type = PartTypeText, mp_Text = ''done'', mp_other = ()\<rparr>]\<rparr>)) =
   Finished [Line ''response: done'', Line (''manifest components: '' @ decInt n)] \<and> n = 11"
proof -
  have signer: "px_signer samplePraxis () ''forge-demo'' (60 * 1000000000) = Ok ''forge-demo''" by (simp add: samplePraxis_def)
  obtain ba where ba: "map (\<lambda>c. (rcp_Kind c, rcp_ID c)) (mf_Resolved (ba_Manifest (ba :: nat BuiltAgent))) = demoComponents"
    "demo_main samplePraxis () ''sk-key'' () False False (oneFile ''examples/demo/agent.yaml'') (\<lambda>_. Ok demoSpec) (\<lambda>_. None)
     (\<lambda>p opts. Ok (length opts)) 0 (\<lambda>o1 req. Ok (Some \<lparr>msg_Role = RoleAssistant, msg_Parts = Some
       [\<lparr>mp_Type = PartTypeText, mp_Text = ''done'', mp_other = ()\<rparr>]\<rparr>)) =
     Finished (demoReport False (ba_Manifest ba) (Some \<lparr>msg_Role = RoleAssistant, msg_Parts = Some
       [\<lparr>mp_Type = PartTypeText, mp_Text = ''done'', mp_other = ()\<rparr>]\<rparr>))"
    using demo_default_run[of "''sk-key''" samplePraxis "()" "''forge-demo''" "\<lambda>p opts. Ok (length opts)" _ "oneFile ''examples/demo/agent.yaml''" "()" "\<lambda>_. Ok demoSpec"
        "()" "\<lambda>_. None" 0 "\<lambda>o1 req. Ok (Some \<lparr>msg_Role = RoleAssistant, msg_Parts = Some
       [\<lparr>mp_Type = PartTypeText, mp_Text = ''done'', mp_other = ()\<rparr>]\<rparr>)"] signer
    by (auto simp: oneFile_def)
  have "length (mf_Resolved (ba_Manifest ba)) = length demoComponents" using ba(1) by (metis length_map)
  then show ?thesis by (simp add: ba(2) demoReport_def demoComponents_def)
qed




section \<open>The MCP run\<close>

definition demoBinding :: MCPBinding where
  "demoBinding = \<lparr>mb_ID = ''fs'',
     mb_Connection = \<lparr>mc_Transport = ''stdio'',
       mc_Command = Some [''npx'', ''-y'', ''@modelcontextprotocol/server-filesystem'', ''/tmp/demo''], mc_Env = None, mc_URL = [], mc_Headers = None\<rparr>,
     mb_Auth = None, mb_Allow = Some [''read_*'', ''list_*''], mb_Deny = Some [''write_*''],
     mb_Policies = Some [''policypack.pii-redaction@1.0.0''],
     mb_Trust = \<lparr>mt_Tier = ''medium'', mt_Owner = ''demo'', mt_Tags = None\<rparr>, mb_OnNewTool = ''block'',
     mb_Descriptor = \<lparr>mbd_Name = ''generic-mcp-binding'', mbd_Summary = ''generic MCP binding contract'', mbd_Tags = None\<rparr>\<rparr>"

definition demoMCPConfig :: gomap where
  "demoMCPConfig = cr_Config (hd (elems (s_MCPImports mcpSpec)))"

lemma demo_mcp: "mcp_Build fid demoMCPConfig = Ok demoBinding"
  unfolding demoMCPConfig_def by code_simp

lemma mcpSpec_imports: "elems (s_MCPImports mcpSpec) = [\<lparr>cr_Ref = ''mcp.binding@1.0.0'', cr_Config = demoMCPConfig\<rparr>]"
  by (simp add: demoMCPConfig_def mcpSpec_def)

lemma mcp_binds:
  "resolveMCPBindings ctx mcpSpec (demoTables px apiKey priv False True) =
     Ok [\<lparr>rm_ID = ''mcp.binding@1.0.0'', rm_Config = demoMCPConfig, rm_Value = demoBinding\<rparr>]"
  by (simp add: resolveMCPBindings_def mcpSpec_imports resolveMCPBinding_def demoTables_def lookup_defs mcpFactory_def
      demo_mcp) (simp add: demoBinding_def)

definition mcpResolved :: "('k, 'p) praxis \<Rightarrow> string \<Rightarrow> 'p component resolved \<Rightarrow> bool" where
  "mcpResolved px apiKey res \<longleftrightarrow>
     re_provider res = Praxis (px_anthropic px apiKey [WithModel ''claude-sonnet-4-5'']) \<and>
     re_toolPacks res = [] \<and> re_toolPackIDs res = [] \<and>
     re_policyHooks res = [PiiHook ''medium''] \<and> re_policyHookIDs res = [''policypack.pii-redaction@1.0.0''] \<and>
     length (re_policyHookCfgs res) = 1 \<and>
     re_preLLMFilters res = [] \<and> re_preLLMIDs res = [] \<and> re_preToolFilters res = [] \<and> re_preToolIDs res = [] \<and>
     re_postToolFilters res = [] \<and> re_postToolIDs res = [] \<and>
     re_budget res = None \<and> re_telemetry res = None \<and> re_credResolver res = None \<and> re_identity res = None \<and>
     re_skillIDs res = [] \<and> re_outputContract res = None"

lemma mcp_anthropic: "apiKey \<noteq> [] \<Longrightarrow> anthropic_Build oor mk fid apiKey (Some [(''model'', VString ''claude-sonnet-4-5''), (''maxTokens'', VInt n)]) =
   Ok (mk apiKey [WithModel ''claude-sonnet-4-5''])"
  by (simp add: anthropic_Build_def anthropic_decode_def map_index_def map_lookup_def as_string_def)

lemma mcp_resolve:
  assumes "apiKey \<noteq> []"
  shows "\<exists>res. resolve ctx mcpSpec (demoTables px apiKey priv False True) = Ok res \<and> mcpResolved px apiKey res"
  using assms
  by (simp add: resolve_def buildOne_def buildRefs_def buildRef_def buildOpt_def refCfg_def mcpSpec_def zeroAgentSpec_def
      demoTables_def lookup_defs factory_defs mcp_anthropic demo_pii demo_prompt mcpResolved_def textBlock_def newline_def)

definition mcpEntry :: ResolvedComponent where
  "mcpEntry = entry KindMCPBinding ''mcp.binding@1.0.0'' demoMCPConfig (BindingDesc (mb_Descriptor demoBinding)) []"

text \<open>The contract the demo prints, line by line.\<close>

definition mcpContract :: "string list" where
  "mcpContract = [
     ''{'',
     ''  \"kind\": \"mcp_binding\",'',
     ''  \"id\": \"mcp.binding@1.0.0\",'',
     ''  \"config\": {'',
     ''    \"allow\": ['',
     ''      \"read_*\",'',
     ''      \"list_*\"'',
     ''    ],'',
     ''    \"connection\": {'',
     ''      \"command\": ['',
     ''        \"npx\",'',
     ''        \"-y\",'',
     ''        \"@modelcontextprotocol/server-filesystem\",'',
     ''        \"/tmp/demo\"'',
     ''      ],'',
     ''      \"transport\": \"stdio\"'',
     ''    },'',
     ''    \"deny\": ['',
     ''      \"write_*\"'',
     ''    ],'',
     ''    \"id\": \"fs\",'',
     ''    \"onNewTool\": \"block\",'',
     ''    \"policies\": ['',
     ''      \"policypack.pii-redaction@1.0.0\"'',
     ''    ],'',
     ''    \"trust\": {'',
     ''      \"owner\": \"demo\",'',
     ''      \"tier\": \"medium\"'',
     ''    }'',
     ''  },'',
     ''  \"descriptors\": {'',
     ''    \"Name\": \"generic-mcp-binding\",'',
     ''    \"Summary\": \"generic MCP binding contract\",'',
     ''    \"Tags\": null'',
     ''  }'',
     ''}'']"

lemma mcpEntry_text: "okOr [] (componentMarshalIndent mo mcpEntry) = join mcpContract newline"
  by code_simp

lemma mcp_materialize:
  assumes "mcpResolved px apiKey res"
    and "orchNew (Praxis (px_anthropic px apiKey [WithModel ''claude-sonnet-4-5''])) [WithPolicyHook [PiiHook ''medium'']] = Ok orch"
    and "res' = res\<lparr>re_mcpBindings := [demoBinding], re_mcpBindingIDs := [''mcp.binding@1.0.0''], re_mcpBindingCfgs := [demoMCPConfig],
        re_systemPrompt := sp\<rparr>"
  shows "\<exists>ba. materialize mo orchNew now ns m es res' = Ok ba \<and>
    filter (\<lambda>c. rcp_Kind c = KindMCPBinding) (mf_Resolved (ba_Manifest ba)) = [mcpEntry]"
proof -
  have r: "mcpResolved px apiKey res'" using assms(1,3) by (simp add: mcpResolved_def)
  note r = r[unfolded mcpResolved_def]
  have b: "re_mcpBindings res' = [demoBinding]" "re_mcpBindingIDs res' = [''mcp.binding@1.0.0'']" "re_mcpBindingCfgs res' = [demoMCPConfig]"
    using assms(3) by simp_all
  have "listEntries KindMCPBinding (re_mcpBindingIDs res') (re_mcpBindingCfgs res')
     (\<lambda>i. bindR (idx (re_mcpBindings res') i) (\<lambda>b. Ok (BindingDesc (mb_Descriptor b)))) (\<lambda>_. []) = Ok [mcpEntry]"
    by (simp add: b listEntries_def idx_def mcpEntry_def)
  then obtain mf where mf: "buildManifest mo now (ns_Spec ns) res' ns m es = Ok mf"
    "filter (\<lambda>c. rcp_Kind c = KindMCPBinding) (mf_Resolved mf) = [mcpEntry]"
    using r by (simp add: buildManifest_def listEntries_one optEntry_def mcpEntry_def entry_def kind_defs)
  have o1: "chainOptions res' @ runtimeOptions res' = [WithPolicyHook [PiiHook ''medium'']]"
    using r by (simp add: chainOptions_def runtimeOptions_def)
  have t: "toolOptions res' = Ok ([], [])" "budgetOptions res' = Ok []" using r by (simp_all add: toolOptions_def budgetOptions_def)
  show ?thesis using r assms(2) mf by (simp add: materialize_def t Let_def o1)
qed

lemma mcpSpec_parts: "plainSpec mcpSpec"
  by (simp add: plainSpec_def mcpSpec_def zeroAgentSpec_def)

text \<open>With an API key and the spec file as shipped, the demo's \<^verbatim>\<open>-mcp\<close> run builds an agent whose only
  option is the PII policy and prints the contract of the one binding as indented JSON: the
  configuration of the spec with its keys in order, and the descriptor the factory defaulted. The provider is built without a token limit: the
  spec's \<^verbatim>\<open>maxTokens\<close> is not the key the provider factory reads.\<close>

theorem demo_mcp_run:
  assumes "apiKey \<noteq> []"
    and "orchNew (Praxis (px_anthropic px apiKey [WithModel ''claude-sonnet-4-5''])) [WithPolicyHook [PiiHook ''medium'']] = Ok orch"
    and "fs_open fs ''examples/demo/agent-mcp.yaml'' = Ok bytes" and "decode bytes = Ok mcpSpec"
  shows "demo_main px zero apiKey priv False True fs decode mo orchNew now invoke =
    Finished [Line ''--- MCP binding contract ---'', Line (join mcpContract newline),
      Line ''NOTE: binding is a contract; actual MCP invocation is a runtime concern.'']"
proof -
  let ?r = "demoTables px apiKey priv False True"
  obtain ns where ns: "Normalize background (Some mcpSpec) [] None = Ok ns" "ns_Spec ns = mcpSpec"
    using mcpSpec_normalizes by blast
  obtain es where es: "expandSkills mo background mcpSpec ?r = Ok es" "resolveOutputContract background es ?r = Ok es"
    "ex_Spec es = mcpSpec" "ex_Skills es = []" "ex_ResolvedOutputContract es = None"
    using no_skills_expand[OF mcpSpec_parts] by blast
  obtain res where res: "resolve background mcpSpec ?r = Ok res" "mcpResolved px apiKey res"
    using mcp_resolve[OF assms(1), where ctx = background and px = px and priv = priv] by auto
  have "mcpResolved px apiKey (res\<lparr>re_skills := [], re_skillIDs := [], re_skillCfgs := []\<rparr>)"
    using res(2) by (simp add: mcpResolved_def)
  from mcp_materialize[where orchNew = orchNew, OF this assms(2) refl]
  obtain ba where "buildFrozen mo orchNew now background ns freshMemos ?r = Ok ba"
    "filter (\<lambda>c. rcp_Kind c = KindMCPBinding) (mf_Resolved (ba_Manifest ba)) = [mcpEntry]"
    using es res(1) by (fastforce simp: buildFrozen_def ns(2) mcp_binds Let_def stampMCP_def stampExpansion_def)
  moreover have "forge_LoadSpec fs decode (demoSpecPath False True) = Ok mcpSpec"
    using assms(3,4) by (simp add: forge_LoadSpec_def LoadSpec_def demoSpecPath_def)
  ultimately show ?thesis
    using assms(1) by (simp add: demo_main_def must_def demoRegistry_tables facade_defs forge_Build_alone[OF ns(1)] mcpReport_def KindMCPBinding_def mcpEntry_text)
qed

theorem demo_mcp_run_witness:
  "demo_main samplePraxis () ''sk-key'' () False True (oneFile ''examples/demo/agent-mcp.yaml'') (\<lambda>_. Ok mcpSpec)
     (\<lambda>_. None) (\<lambda>p opts. Ok (length opts)) 0 (\<lambda>o1 req. Ok None) =
   Finished [Line ''--- MCP binding contract ---'', Line (join mcpContract newline),
      Line ''NOTE: binding is a contract; actual MCP invocation is a runtime concern.'']"
  by (rule demo_mcp_run[where bytes = "()" and orch = 1]) (simp_all add: oneFile_def)

end
