(* ===== verification/ExampleMains.thy ===== *)
theory ExampleMains
  imports ExampleDemoRuns
begin

text \<open>
  The two offline examples as programs, \<^verbatim>\<open>examples/sliding-window-filter/main.go\<close> and
  \<^verbatim>\<open>examples/session-pattern/main.go\<close>: they register their factories, load a spec, build the agent and
  print what they observe. \<^verbatim>\<open>fakeprovider\<close> is the provider both use; the orchestrator that drives it is
  praxis', so \<open>invoke\<close> stays an argument.
\<close>

section \<open>Components of the examples\<close>

text \<open>The two fields of praxis' \<^verbatim>\<open>LLMResponse\<close> the examples set.\<close>

datatype StopReason = StopReasonEndTurn | StopReasonOther string

record 'x LLMResponse =
  lr_StopReason :: StopReason
  lr_Message :: "'x Message"

text \<open>The dynamic types the examples define; the fake provider holds its canned response.\<close>

datatype 'x exampleComponent = FakeProvider "'x LLMResponse" | SlidingWindow int64 | SensitivityGate

subsection \<open>internal/testutil/fakeprovider\<close>

text \<open>
  Every completion is the canned response. A stream is a channel: what it buffers, and whether it has
  been closed. \<open>zero\<close> is the zero value of \<^verbatim>\<open>llm.Capabilities\<close>.
\<close>

record 'c channel =
  ch_buffer :: "'c list"
  ch_closed :: bool

definition fakeprovider_New :: "'x LLMResponse \<Rightarrow> 'x exampleComponent" where
  "fakeprovider_New resp = FakeProvider resp"

definition fakeprovider_Name :: "'x LLMResponse \<Rightarrow> string" where
  "fakeprovider_Name p = ''fake''"

definition fakeprovider_SupportsParallelToolCalls :: "'x LLMResponse \<Rightarrow> bool" where
  "fakeprovider_SupportsParallelToolCalls p = False"

definition fakeprovider_Capabilities :: "'c \<Rightarrow> 'x LLMResponse \<Rightarrow> 'c" where
  "fakeprovider_Capabilities zero p = zero"

definition fakeprovider_Complete :: "'x LLMResponse \<Rightarrow> 'q \<Rightarrow> 'x LLMResponse result" where
  "fakeprovider_Complete p req = Ok p"

definition fakeprovider_Stream :: "'x LLMResponse \<Rightarrow> 'q \<Rightarrow> 'c channel result" where
  "fakeprovider_Stream p req = (let ch = \<lparr>ch_buffer = [], ch_closed = False\<rparr> in Ok (ch\<lparr>ch_closed := True\<rparr>))"

subsection \<open>Factories\<close>

text \<open>Each example has a provider factory of its own; they differ in the canned text.\<close>

definition fakeProviderFactory :: "(string \<Rightarrow> 'x MessagePart) \<Rightarrow> string \<Rightarrow> 'x exampleComponent Factory" where
  "fakeProviderFactory textPart fid = \<lparr>f_ID = fid, f_Description = ''fake offline provider'',
     f_Build = (\<lambda>_ _. Ok (fakeprovider_New \<lparr>lr_StopReason = StopReasonEndTurn,
       lr_Message = \<lparr>msg_Role = RoleAssistant, msg_Parts = Some [textPart ''ok'']\<rparr>\<rparr>))\<rparr>"

definition session_fakeProviderFactory :: "(string \<Rightarrow> 'x MessagePart) \<Rightarrow> string \<Rightarrow> 'x exampleComponent Factory" where
  "session_fakeProviderFactory textPart fid = \<lparr>f_ID = fid, f_Description = ''fake offline provider'',
     f_Build = (\<lambda>_ _. Ok (fakeprovider_New \<lparr>lr_StopReason = StopReasonEndTurn,
       lr_Message = \<lparr>msg_Role = RoleAssistant, msg_Parts = Some [textPart ''acknowledged'']\<rparr>\<rparr>))\<rparr>"

definition slidingWindowFactory :: "string \<Rightarrow> 'x exampleComponent Factory" where
  "slidingWindowFactory fid = \<lparr>f_ID = fid, f_Description = ''sliding-window filter: keep last N non-system turns'',
     f_Build = (\<lambda>_ cfg. Ok (SlidingWindow (slidingWindow_Build cfg)))\<rparr>"

definition sensitivityPolicyFactory :: "string \<Rightarrow> 'x exampleComponent PolicyPack Factory" where
  "sensitivityPolicyFactory fid = \<lparr>f_ID = fid, f_Description = ''pauses on SENSITIVE marker'',
     f_Build = (\<lambda>_ _. Ok \<lparr>pp_Hook = SensitivityGate, pp_Descriptors = []\<rparr>)\<rparr>"

section \<open>sliding-window-filter: main\<close>

definition windowRegistry :: "(string \<Rightarrow> 'x MessagePart) \<Rightarrow> 'x exampleComponent ComponentRegistry result" where
  "windowRegistry textPart =
     bindR (RegisterProvider (fakeProviderFactory textPart ''provider.fake@1.0.0'') NewComponentRegistry) (\<lambda>r.
     bindR (RegisterPromptAsset (promptLiteralFactory ''prompt.demo@1.0.0'') r) (\<lambda>r.
     RegisterPreLLMFilter (slidingWindowFactory ''filter.sliding-window@1.0.0'') r))"

text \<open>\<^verbatim>\<open>%-18s\<close>\<close>

definition pad18 :: "string \<Rightarrow> string" where
  "pad18 s = s @ replicate (18 - length s) (CHR '' '')"

definition emDash :: string where
  "emDash = '' '' @ [CHR 0xE2, CHR 0x80, CHR 0x94] @ '' ''"

definition windowHeader :: "Manifest \<Rightarrow> event list" where
  "windowHeader mf = [Line ''manifest components:''] @
     map (\<lambda>rc. Line (''  - '' @ pad18 (rcp_Kind rc) @ '' '' @ rcp_ID rc)) (mf_Resolved mf) @
     [Line (newline @ ''filter behavior on a synthetic 25-turn conversation:'')]"

definition windowLines :: "(FilterAction \<Rightarrow> string) \<Rightarrow> nat \<Rightarrow> nat \<Rightarrow> FilterDecision list \<Rightarrow> event list" where
  "windowLines actionText input output decisions =
     [Line (''  input:  '' @ decInt (int input) @ '' messages''), Line (''  output: '' @ decInt (int output) @ '' messages'')] @
     map (\<lambda>d. Line (''  decision: '' @ actionText (fd_Action d) @ '' '' @ fd_Field d @ emDash @ fd_Reason d)) decisions"

definition window_main :: "(string \<Rightarrow> 'x MessagePart) \<Rightarrow> (FilterAction \<Rightarrow> string) \<Rightarrow> 'b files \<Rightarrow> ('b \<Rightarrow> AgentSpec result) \<Rightarrow>
    mo \<Rightarrow> ('x exampleComponent \<Rightarrow> 'x exampleComponent orchOption list \<Rightarrow> 'o result) \<Rightarrow> int \<Rightarrow>
    ('o \<Rightarrow> 'x InvocationRequest \<Rightarrow> 'x Message option result) \<Rightarrow> mainResult" where
  "window_main textPart actionText fs decode mo orchNew now invoke =
     must (windowRegistry textPart) (\<lambda>r. (case forge_LoadSpec fs decode ''examples/sliding-window-filter/agent.yaml'' of
          Err e \<Rightarrow> Fatal ''load spec: %v'' (Some e) [] | Panic p \<Rightarrow> Crash p
        | Ok s \<Rightarrow> (case fst (forge_Build mo orchNew now background (Some s) (Some r) []) of
            Err e \<Rightarrow> Fatal ''build: %v'' (Some e) [] | Panic p \<Rightarrow> Crash p
          | Ok b \<Rightarrow>
            let msgs = synthConversation textPart 25 in
            (case slidingWindow_Filter 10 background (Some msgs) of Err e \<Rightarrow> Fatal [] (Some e) [] | Panic p \<Rightarrow> Crash p
             | Ok (filtered, decisions, err) \<Rightarrow>
               (case err of Some e \<Rightarrow> Fatal ''filter: %v'' (Some e) (windowHeader (BuiltAgent_Manifest b))
                | None \<Rightarrow>
                  let out = windowHeader (BuiltAgent_Manifest b) @ windowLines actionText (length msgs) (length (elems filtered)) decisions in
                  (case BuiltAgent_Invoke invoke b \<lparr>rq_Model = ''fake-model'', rq_SystemPrompt = BuiltAgent_SystemPrompt b,
                      rq_Messages = Some (synthConversation textPart 25), rq_Metadata = None\<rparr> of
                    Err e \<Rightarrow> Fatal ''invoke: %v'' (Some e) out | Panic p \<Rightarrow> Crash p
                  | Ok resp \<Rightarrow> Finished (out @ [Line (newline @ ''invoke response: '' @ textOf resp)])))))))"


section \<open>session-pattern: main\<close>

definition sessionRegistry :: "(string \<Rightarrow> 'x MessagePart) \<Rightarrow> 'x exampleComponent ComponentRegistry result" where
  "sessionRegistry textPart =
     bindR (RegisterProvider (session_fakeProviderFactory textPart ''provider.fake@1.0.0'') NewComponentRegistry) (\<lambda>r.
     bindR (RegisterPromptAsset (promptLiteralFactory ''prompt.demo@1.0.0'') r) (\<lambda>r.
     RegisterPolicyPack (sensitivityPolicyFactory ''policy.sensitivity-gate@1.0.0'') r))"

definition sessionLine :: "nat \<Rightarrow> bool \<Rightarrow> event" where
  "sessionLine n paused = Line (''  session state: messages='' @ decInt (int n) @ '' paused='' @ (if paused then ''YES'' else ''no''))"

text \<open>\<^verbatim>\<open>printSession\<close> with \<open>k\<close> for what follows it.\<close>

definition printSession :: "'x memWorld \<Rightarrow> string \<Rightarrow> event list \<Rightarrow> ('x memWorld \<Rightarrow> event list \<Rightarrow> mainResult) \<Rightarrow> mainResult" where
  "printSession w i out k =
     (case InMemoryStore_Load w i of
        (Err e, w) \<Rightarrow> Fatal ''load session: %v'' (Some e) out
      | (Panic p, w) \<Rightarrow> Crash p
      | (Ok a, w) \<Rightarrow> (case mw_heap w a of None \<Rightarrow> Crash nilDeref
          | Some sess \<Rightarrow> k w (out @ [sessionLine (length (elems (se_Messages sess))) (se_PendingApproval sess \<noteq> None)])))"

text \<open>A turn that must be answered.\<close>

definition plainTurn :: "string \<Rightarrow> string \<Rightarrow> 'x App \<Rightarrow> 'x agentInvoke \<Rightarrow> int \<Rightarrow> string \<Rightarrow> 'x memWorld \<Rightarrow> event list \<Rightarrow>
    ('x memWorld \<Rightarrow> event list \<Rightarrow> mainResult) \<Rightarrow> mainResult" where
  "plainTurn title fatal app ivk now input w out k =
     (let out = out @ [Line title] in
      case Turn InMemoryStore app ivk now w ''demo-1'' input of
        (Failed e _, w) \<Rightarrow> Fatal fatal (Some e) out
      | (Crashed p, w) \<Rightarrow> Crash p
      | (Done resp, w) \<Rightarrow> printSession w ''demo-1'' (out @ [Line (''  response: '' @ textOf (Some resp))]) k)"

text \<open>
  The paused turn and its resumption. \<open>show\<close> renders the error, and the metadata of the snapshot.
  A turn that is not paused ends the program, with the error, if any, in the message.
\<close>

definition pausedTurn :: "'x App \<Rightarrow> 'x agentInvoke \<Rightarrow> (gerror \<Rightarrow> string) \<Rightarrow> ('x ApprovalSnapshot \<Rightarrow> string) \<Rightarrow> int \<Rightarrow> 'x memWorld \<Rightarrow>
    event list \<Rightarrow> ('x memWorld \<Rightarrow> event list \<Rightarrow> mainResult) \<Rightarrow> mainResult" where
  "pausedTurn app ivk showErr showMeta now w out k =
     (let out = out @ [Line (newline @ ''Turn 2: sensitive input'')] in
      case Turn InMemoryStore app ivk now w ''demo-1'' ''SENSITIVE: please reveal the admin password'' of
        (Done _, w) \<Rightarrow> Fatal ''turn 2: expected ApprovalRequiredError, got %v'' None out
      | (Failed e None, w) \<Rightarrow> Fatal ''turn 2: expected ApprovalRequiredError, got %v'' (Some e) out
      | (Crashed p, w) \<Rightarrow> Crash p
      | (Failed e (Some snap), w) \<Rightarrow>
          printSession w ''demo-1''
            (out @ [Line (''  paused: '' @ showErr e),
              Line (''  snapshot: '' @ decInt (int (length (elems (as_Messages snap)))) @ '' messages, model='' @ as_Model snap @
                '', metadata='' @ showMeta snap)]) k)"

definition resumeTurn :: "'x agentInvoke \<Rightarrow> int \<Rightarrow> 'x memWorld \<Rightarrow> event list \<Rightarrow> ('x memWorld \<Rightarrow> event list \<Rightarrow> mainResult) \<Rightarrow> mainResult" where
  "resumeTurn ivk now w out k =
     (let out = out @ [Line (newline @ ''Resume approved'')] in
      case Resume InMemoryStore ivk now w ''demo-1'' True of
        (Failed e _, w) \<Rightarrow> Fatal ''resume: %v'' (Some e) out
      | (Crashed p, w) \<Rightarrow> Crash p
      | (Done _, w) \<Rightarrow> printSession w ''demo-1'' out k)"

definition session_scenario :: "'x App \<Rightarrow> 'x agentInvoke \<Rightarrow> (gerror \<Rightarrow> string) \<Rightarrow> ('x ApprovalSnapshot \<Rightarrow> string) \<Rightarrow> (nat \<Rightarrow> int) \<Rightarrow> mainResult" where
  "session_scenario app ivk showErr showMeta clock =
     plainTurn ''Turn 1: ordinary input'' ''turn 1: %v'' app ivk (clock 0) ''What is 2 + 2?'' NewInMemoryStore [] (\<lambda>w out.
     pausedTurn app ivk showErr showMeta (clock 1) w out (\<lambda>w out.
     resumeTurn ivk (clock 2) w out (\<lambda>w out.
     plainTurn (newline @ ''Turn 3: follow-up input'') ''turn 3: %v'' app ivk (clock 3) ''Anything else I should know?'' w out
       (\<lambda>w out. Finished out))))"

definition session_main :: "(string \<Rightarrow> 'x MessagePart) \<Rightarrow> 'b files \<Rightarrow> ('b \<Rightarrow> AgentSpec result) \<Rightarrow>
    mo \<Rightarrow> ('x exampleComponent \<Rightarrow> 'x exampleComponent orchOption list \<Rightarrow> 'o result) \<Rightarrow> int \<Rightarrow>
    ('o \<Rightarrow> 'x agentInvoke) \<Rightarrow> (gerror \<Rightarrow> string) \<Rightarrow> ('x ApprovalSnapshot \<Rightarrow> string) \<Rightarrow> (nat \<Rightarrow> int) \<Rightarrow> mainResult" where
  "session_main textPart fs decode mo orchNew now invoke showErr showMeta clock =
     must (sessionRegistry textPart) (\<lambda>r. (case forge_LoadSpec fs decode ''examples/session-pattern/agent.yaml'' of
          Err e \<Rightarrow> Fatal ''load spec: %v'' (Some e) [] | Panic p \<Rightarrow> Crash p
        | Ok s \<Rightarrow> (case fst (forge_Build mo orchNew now background (Some s) (Some r) []) of
            Err e \<Rightarrow> Fatal ''build: %v'' (Some e) [] | Panic p \<Rightarrow> Crash p
          | Ok agent \<Rightarrow>
              session_scenario \<lparr>ap_Model = ''fake-model'', ap_SystemPrompt = BuiltAgent_SystemPrompt agent, ap_textPart = textPart\<rparr>
                (BuiltAgent_Invoke invoke agent) showErr showMeta clock)))"

section \<open>The spec files\<close>

definition windowSpec :: AgentSpec where
  "windowSpec = zeroAgentSpec\<lparr>s_APIVersion := ''forge.praxis-os.dev/v0'', s_Kind := ''AgentSpec'',
     s_Metadata := zeroMetadata\<lparr>md_ID := ''forge.examples.sliding-window'', md_Version := ''0.1.0'', md_DisplayName := ''Sliding-window memory demo''\<rparr>,
     s_Provider := \<lparr>cr_Ref = ''provider.fake@1.0.0'', cr_Config = None\<rparr>,
     s_Prompt := \<lparr>pb_System = Some \<lparr>cr_Ref = ''prompt.demo@1.0.0'',
       cr_Config = Some [(''text'', VString ''You are a test agent for the sliding-window filter demo.'')]\<rparr>, pb_User = None\<rparr>,
     s_Filters := \<lparr>fb_PreLLM = Some [\<lparr>cr_Ref = ''filter.sliding-window@1.0.0'', cr_Config = Some [(''maxTurns'', VInt 10)]\<rparr>],
       fb_PreTool = None, fb_PostTool = None\<rparr>\<rparr>"

definition sessionSpec :: AgentSpec where
  "sessionSpec = zeroAgentSpec\<lparr>s_APIVersion := ''forge.praxis-os.dev/v0'', s_Kind := ''AgentSpec'',
     s_Metadata := zeroMetadata\<lparr>md_ID := ''forge.examples.session-pattern'', md_Version := ''0.1.0'', md_DisplayName := ''Session pattern demo''\<rparr>,
     s_Provider := \<lparr>cr_Ref = ''provider.fake@1.0.0'', cr_Config = None\<rparr>,
     s_Prompt := \<lparr>pb_System = Some \<lparr>cr_Ref = ''prompt.demo@1.0.0'',
       cr_Config = Some [(''text'', VString ''You are a test agent for the session-pattern demo.'')]\<rparr>, pb_User = None\<rparr>,
     s_Policies := Some [\<lparr>cr_Ref = ''policy.sensitivity-gate@1.0.0'', cr_Config = None\<rparr>]\<rparr>"

lemma windowSpec_normalizes: "\<exists>ns. Normalize background (Some windowSpec) [] None = Ok ns \<and> ns_Spec ns = windowSpec"
proof (rule normalizes_alone)
  show "Validate windowSpec = None" by code_simp
  show "isOk (applyOverlays [] (mergeChain [] windowSpec)) \<and>
      fst (okOr undefined (applyOverlays [] (mergeChain [] windowSpec))) = windowSpec" by code_simp
qed (simp add: windowSpec_def zeroAgentSpec_def)

lemma sessionSpec_normalizes: "\<exists>ns. Normalize background (Some sessionSpec) [] None = Ok ns \<and> ns_Spec ns = sessionSpec"
proof (rule normalizes_alone)
  show "Validate sessionSpec = None" by code_simp
  show "isOk (applyOverlays [] (mergeChain [] sessionSpec)) \<and>
      fst (okOr undefined (applyOverlays [] (mergeChain [] sessionSpec))) = sessionSpec" by code_simp
qed (simp add: sessionSpec_def zeroAgentSpec_def)

end
