(* ===== verification/ExampleRuns.thy ===== *)
theory ExampleRuns
  imports ExampleMains
begin

text \<open>
  What the two offline examples do when they run: which components the registration and the shipped
  spec give the agent (\<open>small_agent\<close>, for any agent made of a provider, a prompt, policies and one
  filter stage), and from there the output of the programs, line by line.
\<close>

section \<open>Small agents\<close>

lemma windowRegistry_Ok: "\<exists>r. windowRegistry tp = Ok r \<and>
    providers r ''provider.fake@1.0.0'' = Some (fakeProviderFactory tp ''provider.fake@1.0.0'') \<and>
    promptAssets r ''prompt.demo@1.0.0'' = Some (promptLiteralFactory ''prompt.demo@1.0.0'') \<and>
    preLLMFilters r ''filter.sliding-window@1.0.0'' = Some (slidingWindowFactory ''filter.sliding-window@1.0.0'')"
  by (simp add: windowRegistry_def register_defs NewComponentRegistry_def fakeProviderFactory_def slidingWindowFactory_def)

lemma sessionRegistry_Ok: "\<exists>r. sessionRegistry tp = Ok r \<and>
    providers r ''provider.fake@1.0.0'' = Some (session_fakeProviderFactory tp ''provider.fake@1.0.0'') \<and>
    promptAssets r ''prompt.demo@1.0.0'' = Some (promptLiteralFactory ''prompt.demo@1.0.0'') \<and>
    policyPacks r ''policy.sensitivity-gate@1.0.0'' = Some (sensitivityPolicyFactory ''policy.sensitivity-gate@1.0.0'')"
  by (simp add: sessionRegistry_def register_defs NewComponentRegistry_def session_fakeProviderFactory_def sensitivityPolicyFactory_def)

definition exampleReply :: "(string \<Rightarrow> 'x MessagePart) \<Rightarrow> string \<Rightarrow> 'x exampleComponent" where
  "exampleReply tp t = FakeProvider \<lparr>lr_StopReason = StopReasonEndTurn,
     lr_Message = \<lparr>msg_Role = RoleAssistant, msg_Parts = Some [tp t]\<rparr>\<rparr>"

text \<open>The part of a resolved spec the small agents share: nothing but provider, prompt, policies and one filter stage.\<close>

definition smallResolved :: "'h \<Rightarrow> string \<Rightarrow> (string \<times> 'h) list \<Rightarrow> (string \<times> 'h) list \<Rightarrow> 'h resolved \<Rightarrow> bool" where
  "smallResolved prov prompt policies pre res \<longleftrightarrow>
     re_provider res = prov \<and> re_providerID res = ''provider.fake@1.0.0'' \<and> re_systemPrompt res = prompt \<and>
     re_promptID res = ''prompt.demo@1.0.0'' \<and> re_toolPacks res = [] \<and> re_toolPackIDs res = [] \<and>
     re_policyHooks res = map snd policies \<and> re_policyHookIDs res = map fst policies \<and> length (re_policyHookCfgs res) = length policies \<and>
     re_preLLMFilters res = map snd pre \<and> re_preLLMIDs res = map fst pre \<and> length (re_preLLMCfgs res) = length pre \<and>
     re_preToolFilters res = [] \<and> re_preToolIDs res = [] \<and> re_postToolFilters res = [] \<and> re_postToolIDs res = [] \<and>
     re_budget res = None \<and> re_telemetry res = None \<and> re_credResolver res = None \<and> re_identity res = None \<and>
     re_skillIDs res = [] \<and> re_outputContract res = None \<and> re_mcpBindingIDs res = []"

lemma listEntries_kinds:
  "length cfgs = length ids \<Longrightarrow> \<exists>es. listEntries kind ids cfgs noDesc injector = Ok es \<and> map (\<lambda>c. (rcp_Kind c, rcp_ID c)) es = map (Pair kind) ids"
proof -
  have "length pre + length ids = length cfgs \<Longrightarrow>
     \<exists>es. loopR (\<lambda>i cid. bindR (Ok NoDescriptors) (\<lambda>d. bindR (idx cfgs i) (\<lambda>cfg. Ok (entry kind cid cfg d (injector cid))))) (length pre) ids = Ok es \<and>
       map (\<lambda>c. (rcp_Kind c, rcp_ID c)) es = map (Pair kind) ids" for pre :: "unit list"
  proof (induction ids arbitrary: pre)
    case (Cons i ids)
    from Cons.IH[of "() # pre"] Cons.prems show ?case by (auto simp: idx_def entry_def)
  qed simp
  from this[of "[]"] show "length cfgs = length ids \<Longrightarrow> ?thesis" by (simp add: listEntries_def)
qed

lemma small_materialize:
  assumes "smallResolved prov prompt policies pre res"
    and "orchNew prov ((if policies = [] then [] else [WithPolicyHook (map snd policies)]) @
        (if pre = [] then [] else [WithPreLLMFilter (map snd pre)])) = Ok orch"
  shows "\<exists>ba. materialize mo orchNew now ns m es res = Ok ba \<and> ba_Orchestrator ba = orch \<and> ba_SystemPrompt ba = prompt \<and>
    map (\<lambda>c. (rcp_Kind c, rcp_ID c)) (mf_Resolved (ba_Manifest ba)) =
      [(KindProvider, ''provider.fake@1.0.0''), (KindPromptAsset, ''prompt.demo@1.0.0'')] @
      map (Pair KindPolicyPack) (map fst policies) @ map (Pair KindPreLLMFilter) (map fst pre)"
proof -
  note r = assms(1)[unfolded smallResolved_def]
  obtain e1 where e1: "listEntries KindPolicyPack (re_policyHookIDs res) (re_policyHookCfgs res) noDesc (lookupInjector es ''policy_pack'') = Ok e1"
    "map (\<lambda>c. (rcp_Kind c, rcp_ID c)) e1 = map (Pair KindPolicyPack) (map fst policies)"
    using listEntries_kinds[of "re_policyHookCfgs res" "re_policyHookIDs res" KindPolicyPack "lookupInjector es ''policy_pack''"] r by auto
  obtain e2 where e2: "listEntries KindPreLLMFilter (re_preLLMIDs res) (re_preLLMCfgs res) noDesc (\<lambda>_. []) = Ok e2"
    "map (\<lambda>c. (rcp_Kind c, rcp_ID c)) e2 = map (Pair KindPreLLMFilter) (map fst pre)"
    using listEntries_kinds[of "re_preLLMCfgs res" "re_preLLMIDs res" KindPreLLMFilter "\<lambda>_. []"] r by auto
  obtain mf where mf: "buildManifest mo now (ns_Spec ns) res ns m es = Ok mf"
    "map (\<lambda>c. (rcp_Kind c, rcp_ID c)) (mf_Resolved mf) =
      [(KindProvider, ''provider.fake@1.0.0''), (KindPromptAsset, ''prompt.demo@1.0.0'')] @
      map (Pair KindPolicyPack) (map fst policies) @ map (Pair KindPreLLMFilter) (map fst pre)"
    unfolding buildManifest_def e1(1) e2(1) using r e1(2) e2(2) by (simp add: optEntry_def entry_def)
  have o1: "chainOptions res @ runtimeOptions res = (if policies = [] then [] else [WithPolicyHook (map snd policies)]) @
        (if pre = [] then [] else [WithPreLLMFilter (map snd pre)])"
    using r by (simp add: chainOptions_def runtimeOptions_def)
  have t: "toolOptions res = Ok ([], [])" "budgetOptions res = Ok []" using r by (simp_all add: toolOptions_def budgetOptions_def)
  show ?thesis using r assms(2) mf by (simp add: materialize_def t Let_def o1)
qed

lemma small_agent:
  assumes "Normalize background (Some s) [] None = Ok ns" "ns_Spec ns = s" "plainSpec s" "elems (s_MCPImports s) = []"
    and "resolve background s r = Ok res" "smallResolved prov prompt policies pre res"
    and "orchNew prov ((if policies = [] then [] else [WithPolicyHook (map snd policies)]) @
        (if pre = [] then [] else [WithPreLLMFilter (map snd pre)])) = Ok orch"
  shows "\<exists>ba. fst (forge_Build mo orchNew now background (Some s) (Some r) []) = Ok ba \<and> ba_Orchestrator ba = orch \<and> ba_SystemPrompt ba = prompt \<and>
    map (\<lambda>c. (rcp_Kind c, rcp_ID c)) (mf_Resolved (ba_Manifest ba)) =
      [(KindProvider, ''provider.fake@1.0.0''), (KindPromptAsset, ''prompt.demo@1.0.0'')] @
      map (Pair KindPolicyPack) (map fst policies) @ map (Pair KindPreLLMFilter) (map fst pre)"
proof -
  obtain es where es: "expandSkills mo background s r = Ok es" "resolveOutputContract background es r = Ok es"
    "ex_Spec es = s" "ex_Skills es = []" "ex_ResolvedOutputContract es = None"
    using no_skills_expand[OF assms(3)] by blast
  let ?res = "(stampMCP [] (stampExpansion es res))\<lparr>re_systemPrompt := appendSkillFragments (re_systemPrompt res) []\<rparr>"
  have sm: "smallResolved prov prompt policies pre ?res"
    using assms(6) es(4,5) by (simp add: smallResolved_def stampMCP_def stampExpansion_def appendSkillFragments_def)
  have eq: "fst (forge_Build mo orchNew now background (Some s) (Some r) []) = materialize mo orchNew now ns freshMemos es ?res"
    using es assms(4,5) by (simp add: forge_Build_alone[OF assms(1)] buildFrozen_def assms(2) resolveMCPBindings_def Let_def stampMCP_def stampExpansion_def)
  show ?thesis unfolding eq by (rule small_materialize[where orchNew = orchNew, OF sm assms(7)])
qed


section \<open>Runs\<close>

lemma window_resolve:
  assumes "providers r ''provider.fake@1.0.0'' = Some (fakeProviderFactory tp ''provider.fake@1.0.0'')"
    and "promptAssets r ''prompt.demo@1.0.0'' = Some (promptLiteralFactory ''prompt.demo@1.0.0'')"
    and "preLLMFilters r ''filter.sliding-window@1.0.0'' = Some (slidingWindowFactory ''filter.sliding-window@1.0.0'')"
  shows "\<exists>res. resolve ctx windowSpec r = Ok res \<and>
    smallResolved (exampleReply tp ''ok'') ''You are a test agent for the sliding-window filter demo.'' []
      [(''filter.sliding-window@1.0.0'', SlidingWindow 10)] res"
  using assms
  by (simp add: resolve_def buildOne_def buildRefs_def buildRef_def buildOpt_def refCfg_def windowSpec_def zeroAgentSpec_def
      lookup_defs fakeProviderFactory_def fakeprovider_New_def promptLiteralFactory_def slidingWindowFactory_def demo_prompt
      slidingWindow_Build_def map_index_def map_lookup_def smallResolved_def exampleReply_def)

lemma session_resolve:
  assumes "providers r ''provider.fake@1.0.0'' = Some (session_fakeProviderFactory tp ''provider.fake@1.0.0'')"
    and "promptAssets r ''prompt.demo@1.0.0'' = Some (promptLiteralFactory ''prompt.demo@1.0.0'')"
    and "policyPacks r ''policy.sensitivity-gate@1.0.0'' = Some (sensitivityPolicyFactory ''policy.sensitivity-gate@1.0.0'')"
  shows "\<exists>res. resolve ctx sessionSpec r = Ok res \<and>
    smallResolved (exampleReply tp ''acknowledged'') ''You are a test agent for the session-pattern demo.''
      [(''policy.sensitivity-gate@1.0.0'', SensitivityGate)] [] res"
  using assms
  by (simp add: resolve_def buildOne_def buildRefs_def buildRef_def buildOpt_def refCfg_def sessionSpec_def zeroAgentSpec_def
      lookup_defs fakeProviderFactory_def fakeprovider_New_def promptLiteralFactory_def sensitivityPolicyFactory_def session_fakeProviderFactory_def demo_prompt
      smallResolved_def exampleReply_def)

lemma example_plain: "plainSpec windowSpec" "elems (s_MCPImports windowSpec) = []" "plainSpec sessionSpec" "elems (s_MCPImports sessionSpec) = []"
  by (simp_all add: plainSpec_def windowSpec_def sessionSpec_def zeroAgentSpec_def)

text \<open>The sliding-window example ends as its comments say, for every orchestrator that accepts the
  provider and the one filter: it prints the three components of its manifest, cuts the synthetic
  conversation of twenty-five messages to ten with one decision that fifteen were dropped, and ends
  with the agent's answer or the fatal error of the invocation, after that output.\<close>

theorem window_main_run:
  assumes "orchNew (exampleReply tp ''ok'') [WithPreLLMFilter [SlidingWindow 10]] = Ok orch"
    and "fs_open fs ''examples/sliding-window-filter/agent.yaml'' = Ok bytes" and "decode bytes = Ok windowSpec"
  shows "let out = [Line ''manifest components:'', Line (''  - '' @ pad18 KindProvider @ '' provider.fake@1.0.0''),
        Line (''  - '' @ pad18 KindPromptAsset @ '' prompt.demo@1.0.0''),
        Line (''  - '' @ pad18 KindPreLLMFilter @ '' filter.sliding-window@1.0.0''),
        Line (newline @ ''filter behavior on a synthetic 25-turn conversation:''),
        Line (''  input:  '' @ decInt 25 @ '' messages''), Line (''  output: '' @ decInt 10 @ '' messages''),
        Line (''  decision: '' @ actionText FilterActionRedact @ '' messages'' @ emDash @ windowReason 15)]
    in window_main tp actionText fs decode mo orchNew now invoke =
      (case invoke orch \<lparr>rq_Model = ''fake-model'', rq_SystemPrompt = ''You are a test agent for the sliding-window filter demo.'', rq_Messages = Some (synthConversation tp 25), rq_Metadata = None\<rparr> of
         Ok resp \<Rightarrow> Finished (out @ [Line (newline @ ''invoke response: '' @ textOf resp)])
       | Err e \<Rightarrow> Fatal ''invoke: %v'' (Some e) out | Panic p \<Rightarrow> Crash p)"
proof -
  obtain r where r: "windowRegistry tp = Ok r"
    "providers r ''provider.fake@1.0.0'' = Some (fakeProviderFactory tp ''provider.fake@1.0.0'')"
    "promptAssets r ''prompt.demo@1.0.0'' = Some (promptLiteralFactory ''prompt.demo@1.0.0'')"
    "preLLMFilters r ''filter.sliding-window@1.0.0'' = Some (slidingWindowFactory ''filter.sliding-window@1.0.0'')"
    using windowRegistry_Ok by blast
  obtain ns where ns: "Normalize background (Some windowSpec) [] None = Ok ns" "ns_Spec ns = windowSpec"
    using windowSpec_normalizes by blast
  obtain res where res: "resolve background windowSpec r = Ok res" "smallResolved (exampleReply tp ''ok'')
      ''You are a test agent for the sliding-window filter demo.'' [] [(''filter.sliding-window@1.0.0'', SlidingWindow 10)] res"
    using window_resolve[OF r(2-4), where ctx = background] by auto
  obtain ba where ba: "fst (forge_Build mo orchNew now background (Some windowSpec) (Some r) []) = Ok ba" "ba_Orchestrator ba = orch"
    "ba_SystemPrompt ba = ''You are a test agent for the sliding-window filter demo.''"
    "map (\<lambda>c. (rcp_Kind c, rcp_ID c)) (mf_Resolved (ba_Manifest ba)) = [(KindProvider, ''provider.fake@1.0.0''),
      (KindPromptAsset, ''prompt.demo@1.0.0''), (KindPreLLMFilter, ''filter.sliding-window@1.0.0'')]"
    using small_agent[where orchNew = orchNew and orch = orch and mo = mo and now = now, OF ns example_plain(1,2) res] assms(1) by auto
  have "map (\<lambda>rc. Line (''  - '' @ pad18 (rcp_Kind rc) @ '' '' @ rcp_ID rc)) (mf_Resolved (ba_Manifest ba)) =
      map (\<lambda>(k, i). Line (''  - '' @ pad18 k @ '' '' @ i)) (map (\<lambda>c. (rcp_Kind c, rcp_ID c)) (mf_Resolved (ba_Manifest ba)))"
    by simp
  then have h: "windowHeader (ba_Manifest ba) = [Line ''manifest components:'', Line (''  - '' @ pad18 KindProvider @ '' provider.fake@1.0.0''),
        Line (''  - '' @ pad18 KindPromptAsset @ '' prompt.demo@1.0.0''),
        Line (''  - '' @ pad18 KindPreLLMFilter @ '' filter.sliding-window@1.0.0''),
        Line (newline @ ''filter behavior on a synthetic 25-turn conversation:'')]"
    unfolding windowHeader_def by (simp only: ba(4)) simp
  have l: "forge_LoadSpec fs decode ''examples/sliding-window-filter/agent.yaml'' = Ok windowSpec"
    using assms(2,3) by (simp add: forge_LoadSpec_def LoadSpec_def)
  have w: "windowLines actionText (length (synthConversation tp 25)) (length (elems (Some (drop 15 (synthConversation tp 25)))))
        [\<lparr>fd_Action = FilterActionRedact, fd_Field = ''messages'', fd_Reason = windowReason 15\<rparr>] =
      [Line (''  input:  '' @ decInt 25 @ '' messages''), Line (''  output: '' @ decInt 10 @ '' messages''),
        Line (''  decision: '' @ actionText FilterActionRedact @ '' messages'' @ emDash @ windowReason 15)]"
    by (simp add: windowLines_def synthConversation_def)
  have run: "window_main tp actionText fs decode mo orchNew now invoke =
      (let out = windowHeader (ba_Manifest ba) @ windowLines actionText (length (synthConversation tp 25))
          (length (elems (Some (drop 15 (synthConversation tp 25)))))
          [\<lparr>fd_Action = FilterActionRedact, fd_Field = ''messages'', fd_Reason = windowReason 15\<rparr>]
       in case invoke orch \<lparr>rq_Model = ''fake-model'', rq_SystemPrompt = ba_SystemPrompt ba,
             rq_Messages = Some (synthConversation tp 25), rq_Metadata = None\<rparr> of
         Ok resp \<Rightarrow> Finished (out @ [Line (newline @ ''invoke response: '' @ textOf resp)])
       | Err e \<Rightarrow> Fatal ''invoke: %v'' (Some e) out | Panic p \<Rightarrow> Crash p)"
    by (simp only: window_main_def must_def r(1) l ba(1,2) synthConversation_cut BuiltAgent_Invoke_def BuiltAgent_Manifest_def BuiltAgent_SystemPrompt_def Let_def result.case prod.case option.case)
  show ?thesis
    unfolding run h w Let_def ba(3) by (simp split: result.split)
qed

theorem window_main_run_witness:
  "window_main (ap_textPart demoApp) (\<lambda>_. ''redact'') (oneFile ''examples/sliding-window-filter/agent.yaml'') (\<lambda>_. Ok windowSpec) (\<lambda>_. None)
     (\<lambda>p opts. Ok ()) 0 (\<lambda>o1 req. Ok (Some okMessage)) =
   Finished [Line ''manifest components:'', Line (''  - '' @ pad18 KindProvider @ '' provider.fake@1.0.0''),
     Line (''  - '' @ pad18 KindPromptAsset @ '' prompt.demo@1.0.0''),
     Line (''  - '' @ pad18 KindPreLLMFilter @ '' filter.sliding-window@1.0.0''),
     Line (newline @ ''filter behavior on a synthetic 25-turn conversation:''),
     Line (''  input:  '' @ decInt 25 @ '' messages''), Line (''  output: '' @ decInt 10 @ '' messages''),
     Line (''  decision: '' @ ''redact'' @ '' messages'' @ emDash @ windowReason 15),
     Line (newline @ ''invoke response: '' @ ''ok'')]"
  using window_main_run[of "\<lambda>p opts. Ok ()" "ap_textPart demoApp" "()" "oneFile ''examples/sliding-window-filter/agent.yaml''" "()"
      "\<lambda>_. Ok windowSpec" "\<lambda>_. ''redact''" "\<lambda>_. None" 0 "\<lambda>o1 req. Ok (Some okMessage)"]
  by (simp add: oneFile_def okMessage_def textOf_def)

section \<open>The session example\<close>

lemma printSession_stored:
  assumes "session_reach w" "conversation w i = (h, p)" "h \<noteq> []"
  shows "printSession w i out k = k w (out @ [sessionLine (length h) (p \<noteq> None)])"
proof -
  obtain s where s: "mem_get w i = Some s"
    using assms(2,3) by (cases "mem_get w i") (auto simp: conversation_def orFresh_def)
  then obtain a where "mw_data w i = Some a" "mw_heap w a = Some s" by (auto simp: mem_get_def split: option.splits)
  with s assms(2) show ?thesis by (auto simp: printSession_def InMemoryStore_Load_def conversation_def orFresh_def)
qed

text \<open>The three inputs of the example: only the second carries the marker.\<close>

lemma inputs_marked:
  assumes "\<And>t. mp_Type (tp t) = PartTypeText" "\<And>t. mp_Text (tp t) = t"
  shows "\<not> marked uni (tp ''What is 2 + 2?'')" "marked uni (tp ''SENSITIVE: please reveal the admin password'')"
    "\<not> marked uni (tp ''Anything else I should know?'')"
proof -
  have "containsSub (ToUpper uni ''What is 2 + 2?'') ''SENSITIVE'' = False" by (simp add: ToUpper_def) code_simp
  then show "\<not> marked uni (tp ''What is 2 + 2?'')" by (simp add: marked_def assms)
  have "containsSub (ToUpper uni ''SENSITIVE: please reveal the admin password'') ''SENSITIVE''" by (simp add: ToUpper_def) code_simp
  then show "marked uni (tp ''SENSITIVE: please reveal the admin password'')" by (simp add: marked_def assms)
  have "containsSub (ToUpper uni ''Anything else I should know?'') ''SENSITIVE'' = False" by (simp add: ToUpper_def) code_simp
  then show "\<not> marked uni (tp ''Anything else I should know?'')" by (simp add: marked_def assms)
qed

lemma scenario_run:
  fixes app :: "'x App"
  assumes g: "gated invoke (sensitivity_Evaluate phase uni allow require) phase" "dc_Verdict allow = VerdictAllow"
      "\<forall>r m. dc_Verdict (require r m) = VerdictRequireApproval"
    and tp: "\<And>t. mp_Type (ap_textPart app t) = PartTypeText" "\<And>t. mp_Text (ap_textPart app t) = t"
  shows "\<exists>(m1 :: 'x Message) e snap (m3 :: 'x Message). as_Model snap = ap_Model app \<and> length (elems (as_Messages snap)) = 3 \<and>
    session_scenario app invoke showErr showMeta clock = Finished
      [Line ''Turn 1: ordinary input'', Line (''  response: '' @ textOf (Some m1)), sessionLine 2 False,
       Line (newline @ ''Turn 2: sensitive input''), Line (''  paused: '' @ showErr e),
       Line (''  snapshot: '' @ decInt 3 @ '' messages, model='' @ ap_Model app @ '', metadata='' @ showMeta snap), sessionLine 3 True,
       Line (newline @ ''Resume approved''), sessionLine 4 False,
       Line (newline @ ''Turn 3: follow-up input''), Line (''  response: '' @ textOf (Some m3)), sessionLine 6 False]"
proof -
  note mk = inputs_marked[where tp = "ap_textPart app" and uni = uni, OF tp]
  let ?i = "''demo-1''"
  let ?u = "userMessage app"
  have c0: "conversation NewInMemoryStore ?i = ([], None)"
    by (simp add: conversation_get(2) mem_get_def NewInMemoryStore_def)
  obtain m1 w1 where t1: "Turn InMemoryStore app invoke (clock 0) NewInMemoryStore ?i ''What is 2 + 2?'' = (Done m1, w1)"
    and c1: "conversation w1 ?i = ([?u ''What is 2 + 2?'', m1], None)"
    using progress[OF session_reach.start c0 g, where app = app and input = "''What is 2 + 2?''" and now = "clock 0"] mk(1) by auto
  note r1 = session_reach.turn[OF session_reach.start t1]
  let ?s = "''SENSITIVE: please reveal the admin password''"
  obtain e snap w2 m2 w3 where t2: "Turn InMemoryStore app invoke (clock 1) w1 ?i ?s = (Failed e (Some snap), w2)"
    and c2: "conversation w2 ?i = ([?u ''What is 2 + 2?'', m1, ?u ?s], Some snap)"
    and sn: "as_Model snap = ap_Model app" "elems (as_Messages snap) = [?u ''What is 2 + 2?'', m1, ?u ?s]"
    and t3: "Resume InMemoryStore invoke (clock 2) w2 ?i True = (Done (), w3)"
    and c3: "conversation w3 ?i = ([?u ''What is 2 + 2?'', m1, ?u ?s, m2], None)"
    using progress[OF r1 c1 g, where app = app and input = ?s and now = "clock 1" and now' = "clock 2"] mk(2) by auto
  note r2 = session_reach.turn[OF r1 t2]
  note r3 = session_reach.resume[OF r2 t3]
  obtain m3 w4 where t4: "Turn InMemoryStore app invoke (clock 3) w3 ?i ''Anything else I should know?'' = (Done m3, w4)"
    and c4: "conversation w4 ?i = ([?u ''What is 2 + 2?'', m1, ?u ?s, m2, ?u ''Anything else I should know?'', m3], None)"
    using progress[OF r3 c3 g, where app = app and input = "''Anything else I should know?''" and now = "clock 3"] mk(3) by auto
  note r4 = session_reach.turn[OF r3 t4]
  have l: "length (elems (as_Messages snap)) = 3" by (simp add: sn(2))
  have ps: "printSession w1 ?i out k = k w1 (out @ [sessionLine 2 False])" "printSession w2 ?i out k = k w2 (out @ [sessionLine 3 True])"
    "printSession w3 ?i out k = k w3 (out @ [sessionLine 4 False])" "printSession w4 ?i out k = k w4 (out @ [sessionLine 6 False])" for out k
    using printSession_stored[OF r1 c1] printSession_stored[OF r2 c2] printSession_stored[OF r3 c3] printSession_stored[OF r4 c4]
    by (simp_all add: eval_nat_numeral)
  have "session_scenario app invoke showErr showMeta clock = Finished
      [Line ''Turn 1: ordinary input'', Line (''  response: '' @ textOf (Some m1)), sessionLine 2 False,
       Line (newline @ ''Turn 2: sensitive input''), Line (''  paused: '' @ showErr e),
       Line (''  snapshot: '' @ decInt 3 @ '' messages, model='' @ ap_Model app @ '', metadata='' @ showMeta snap), sessionLine 3 True,
       Line (newline @ ''Resume approved''), sessionLine 4 False,
       Line (newline @ ''Turn 3: follow-up input''), Line (''  response: '' @ textOf (Some m3)), sessionLine 6 False]"
    by (simp add: session_scenario_def plainTurn_def pausedTurn_def resumeTurn_def Let_def t1 t2 t3 t4 l sn(1) ps del: One_nat_def)
  with sn(1) l show ?thesis by (intro exI conjI)
qed

text \<open>C30. The session example runs to its end whatever the praxis orchestrator answers, as long as it
  pauses as documented and otherwise answers, as the example's fake provider always does. The agent is
  built from the shipped spec with the sensitivity gate as its only hook; turn 1 is answered and leaves two messages; turn 2, with the marker, pauses with a
  snapshot of three messages and the app's model; the approved resumption ends the pause at four
  messages; turn 3 is answered and leaves six.\<close>

theorem session_main_run:
  fixes tp :: "string \<Rightarrow> 'x MessagePart"
  assumes "orchNew (exampleReply tp ''acknowledged'') [WithPolicyHook [SensitivityGate]] = Ok orch"
    and "fs_open fs ''examples/session-pattern/agent.yaml'' = Ok bytes" and "decode bytes = Ok sessionSpec"
    and "gated (invoke orch) (sensitivity_Evaluate phase uni allow require) phase"
    and "dc_Verdict allow = VerdictAllow" and "\<forall>r m. dc_Verdict (require r m) = VerdictRequireApproval"
    and "\<And>t. mp_Type (tp t) = PartTypeText" and "\<And>t. mp_Text (tp t) = t"
  shows "\<exists>(m1 :: 'x Message) e snap (m3 :: 'x Message). as_Model snap = ''fake-model'' \<and> length (elems (as_Messages snap)) = 3 \<and>
    session_main tp fs decode mo orchNew now invoke showErr showMeta clock = Finished
      [Line ''Turn 1: ordinary input'', Line (''  response: '' @ textOf (Some m1)), sessionLine 2 False,
       Line (newline @ ''Turn 2: sensitive input''), Line (''  paused: '' @ showErr e),
       Line (''  snapshot: '' @ decInt 3 @ '' messages, model='' @ ''fake-model'' @ '', metadata='' @ showMeta snap), sessionLine 3 True,
       Line (newline @ ''Resume approved''), sessionLine 4 False,
       Line (newline @ ''Turn 3: follow-up input''), Line (''  response: '' @ textOf (Some m3)), sessionLine 6 False]"
proof -
  obtain r where r: "sessionRegistry tp = Ok r"
    "providers r ''provider.fake@1.0.0'' = Some (session_fakeProviderFactory tp ''provider.fake@1.0.0'')"
    "promptAssets r ''prompt.demo@1.0.0'' = Some (promptLiteralFactory ''prompt.demo@1.0.0'')"
    "policyPacks r ''policy.sensitivity-gate@1.0.0'' = Some (sensitivityPolicyFactory ''policy.sensitivity-gate@1.0.0'')"
    using sessionRegistry_Ok by blast
  obtain ns where ns: "Normalize background (Some sessionSpec) [] None = Ok ns" "ns_Spec ns = sessionSpec"
    using sessionSpec_normalizes by blast
  obtain res where res: "resolve background sessionSpec r = Ok res" "smallResolved (exampleReply tp ''acknowledged'')
      ''You are a test agent for the session-pattern demo.'' [(''policy.sensitivity-gate@1.0.0'', SensitivityGate)] [] res"
    using session_resolve[OF r(2-4), where ctx = background] by auto
  obtain ba where ba: "fst (forge_Build mo orchNew now background (Some sessionSpec) (Some r) []) = Ok ba" "ba_Orchestrator ba = orch"
    using small_agent[where orchNew = orchNew and orch = orch and mo = mo and now = now, OF ns example_plain(3,4) res] assms(1) by auto
  have l: "forge_LoadSpec fs decode ''examples/session-pattern/agent.yaml'' = Ok sessionSpec"
    using assms(2,3) by (simp add: forge_LoadSpec_def LoadSpec_def)
  let ?app = "\<lparr>ap_Model = ''fake-model'', ap_SystemPrompt = ba_SystemPrompt ba, ap_textPart = tp\<rparr>"
  have iv: "BuiltAgent_Invoke invoke ba = invoke orch" by (rule ext) (simp add: BuiltAgent_Invoke_def ba(2))
  have run: "session_main tp fs decode mo orchNew now invoke showErr showMeta clock =
      session_scenario ?app (invoke orch) showErr showMeta clock"
    by (simp add: session_main_def must_def r(1) l ba(1) iv BuiltAgent_SystemPrompt_def)
  have "\<And>t. mp_Type (ap_textPart ?app t) = PartTypeText" "\<And>t. mp_Text (ap_textPart ?app t) = t"
    using assms(7,8) by simp_all
  from scenario_run[OF assms(4-6) this, of showErr showMeta clock] show ?thesis
    unfolding run App.select_convs .
qed

theorem session_main_run_witness:
  "\<exists>(m1 :: unit Message) (m3 :: unit Message). session_main (ap_textPart demoApp) (oneFile ''examples/session-pattern/agent.yaml'') (\<lambda>_. Ok sessionSpec) (\<lambda>_. None)
      (\<lambda>p opts. Ok ()) 0 (\<lambda>_. demoInvoke) (\<lambda>_. ''approval required'') (\<lambda>_. ''map[]'') int = Finished
      [Line ''Turn 1: ordinary input'', Line (''  response: '' @ textOf (Some m1)), sessionLine 2 False,
       Line (newline @ ''Turn 2: sensitive input''), Line (''  paused: '' @ ''approval required''),
       Line (''  snapshot: '' @ decInt 3 @ '' messages, model='' @ ''fake-model'' @ '', metadata='' @ ''map[]''), sessionLine 3 True,
       Line (newline @ ''Resume approved''), sessionLine 4 False,
       Line (newline @ ''Turn 3: follow-up input''), Line (''  response: '' @ textOf (Some m3)), sessionLine 6 False]"
proof -
  have "dc_Verdict demoAllow = VerdictAllow" "\<forall>r m. dc_Verdict (demoRequire r m) = VerdictRequireApproval"
    by (simp_all add: demoAllow_def demoRequire_def)
  moreover have "fs_open (oneFile ''examples/session-pattern/agent.yaml'') ''examples/session-pattern/agent.yaml'' = Ok ()"
    by (simp add: oneFile_def)
  moreover have "\<And>t. mp_Type (ap_textPart demoApp t) = PartTypeText" "\<And>t. mp_Text (ap_textPart demoApp t) = t"
    by (simp_all add: demoApp_def)
  ultimately show ?thesis
    using session_main_run[where orchNew = "\<lambda>p opts. Ok ()" and orch = "()" and tp = "ap_textPart demoApp" and bytes = "()"
      and fs = "oneFile ''examples/session-pattern/agent.yaml''" and decode = "\<lambda>_. Ok sessionSpec" and invoke = "\<lambda>_. demoInvoke",
      OF refl _ refl demoInvoke_gated[unfolded demoGate_def], of "\<lambda>_. None" 0 "\<lambda>_. ''approval required''" "\<lambda>_. ''map[]''" int]
    by blast
qed

end
