(* ===== verification/ExampleConcurrent.thy ===== *)
theory ExampleConcurrent
  imports ExampleSession "HOL-Library.Multiset"
begin

text \<open>
  \<^verbatim>\<open>Turn\<close> and \<^verbatim>\<open>Resume\<close> of \<^verbatim>\<open>examples/session-pattern/session.go\<close> running at the same time.
  The mutex of \<^verbatim>\<open>InMemoryStore\<close> covers one \<^verbatim>\<open>Load\<close> or \<^verbatim>\<open>Save\<close>, not an operation, and the fields of a
  loaded session are read and written with no lock at all. An operation is a state machine whose steps
  are the store calls, the answer of the agent, and every single read or write of a field of the shared
  session: \<^verbatim>\<open>sess.Messages = append(sess.Messages, m)\<close> is a read and, later, a write. A schedule picks the
  operation that moves next. Run alone, the steps are the operations of \<open>ExampleSession\<close>.

  A slice is a value here. Go calls unsynchronized accesses of two operations to one field a data
  race and promises nothing about them; the schedules are those of sequential consistency, a lower
  bound on what can happen.
\<close>

section \<open>Operations in small steps\<close>

text \<open>
  Each state is named for what was done last; its fields are what the operation remembers. The
  \<open>Appending\<close> states and \<open>TurnStoring\<close> hold the history that was read and is about to be
  written back longer.
\<close>

datatype 'x opState =
    TurnCalled string string
  | TurnLoaded string nat string
  | TurnChecked string nat string
  | TurnAppending string nat "'x Message slice" string
  | TurnAppended string nat
  | TurnInvoked string nat "'x InvocationRequest"
  | TurnPausing string nat gerror "'x ApprovalSnapshot"
  | TurnAnswered string nat "'x Message"
  | TurnStoring string nat "'x Message slice" "'x Message"
  | TurnSaving string nat string "('x, 'x Message) outcome"
  | TurnReturned string "('x, 'x Message) outcome"
  | ResumeCalled string bool
  | ResumeLoaded string nat bool
  | ResumeChecked string nat bool
  | ResumeDenying string nat
  | ResumeInvoked string nat "'x ApprovalSnapshot"
  | ResumeAnswered string nat "'x ApprovalSnapshot" "'x Message option"
  | ResumeRestored string nat "'x Message option"
  | ResumeAppending string nat "'x Message slice" "'x Message"
  | ResumeStored string nat
  | ResumeSaving string nat
  | ResumeReturned string "('x, unit) outcome"

definition turnLoaded :: "string \<Rightarrow> nat \<Rightarrow> string \<Rightarrow> 'x Session \<Rightarrow> 'x opState" where
  "turnLoaded i a userInput sess =
     (if se_PendingApproval sess \<noteq> None
      then TurnReturned i (Failed (Errorf ''session %s: pending approval; call Resume first'' [AStr i]) None)
      else TurnChecked i a userInput)"

text \<open>The agent's answer, and what becomes of the turn. No shared field is touched here.\<close>

definition turnInvoked :: "'x agentInvoke \<Rightarrow> string \<Rightarrow> nat \<Rightarrow> 'x InvocationRequest \<Rightarrow> 'x opState" where
  "turnInvoked invoke i a req =
     (case invoke req of
        Failed err (Some snap) \<Rightarrow> TurnPausing i a err snap
      | Failed err None \<Rightarrow> TurnReturned i (Failed err None)
      | Crashed p \<Rightarrow> TurnReturned i (Crashed p)
      | Done None \<Rightarrow> TurnReturned i (Crashed nilDeref)
      | Done (Some resp) \<Rightarrow> TurnAnswered i a resp)"

definition resumeLoaded :: "string \<Rightarrow> nat \<Rightarrow> bool \<Rightarrow> 'x Session \<Rightarrow> 'x opState" where
  "resumeLoaded i a approved sess =
     (if se_PendingApproval sess = None
      then ResumeReturned i (Failed (Errorf ''session %s: no pending approval'' [AStr i]) None)
      else ResumeChecked i a approved)"

text \<open>\<^verbatim>\<open>snap := sess.PendingApproval\<close>, a second read, which may find the pause gone.\<close>

definition resumeChecked :: "string \<Rightarrow> nat \<Rightarrow> bool \<Rightarrow> 'x Session \<Rightarrow> 'x opState" where
  "resumeChecked i a approved sess =
     (if \<not> approved then ResumeDenying i a
      else (case se_PendingApproval sess of
          None \<Rightarrow> ResumeReturned i (Crashed nilDeref)
        | Some snap \<Rightarrow> ResumeInvoked i a snap))"

definition resumeInvoked :: "'x agentInvoke \<Rightarrow> string \<Rightarrow> nat \<Rightarrow> 'x ApprovalSnapshot \<Rightarrow> 'x opState" where
  "resumeInvoked invoke i a snap =
     (case invoke (resumeRequest snap) of
        Failed err x \<Rightarrow> ResumeReturned i (Failed err x)
      | Crashed p \<Rightarrow> ResumeReturned i (Crashed p)
      | Done resp \<Rightarrow> ResumeAnswered i a snap resp)"

definition resumeRestored :: "string \<Rightarrow> nat \<Rightarrow> 'x Message option \<Rightarrow> 'x Session \<Rightarrow> 'x opState" where
  "resumeRestored i a resp sess =
     (case resp of
        None \<Rightarrow> ResumeReturned i (Crashed nilDeref)
      | Some m \<Rightarrow> ResumeAppending i a (se_Messages sess) m)"

text \<open>A read of the session behind a pointer, and a write of one of its fields.\<close>

definition reading :: "'x memWorld \<Rightarrow> nat \<Rightarrow> (string \<Rightarrow> 'x opState) \<Rightarrow> ('x Session \<Rightarrow> 'x opState) \<Rightarrow> 'x opState \<times> 'x memWorld" where
  "reading w a crash k = (case mw_heap w a of None \<Rightarrow> (crash nilDeref, w) | Some sess \<Rightarrow> (k sess, w))"

definition writing :: "'x memWorld \<Rightarrow> nat \<Rightarrow> (string \<Rightarrow> 'x opState) \<Rightarrow> ('x Session \<Rightarrow> 'x Session) \<Rightarrow> 'x opState \<Rightarrow> 'x opState \<times> 'x memWorld" where
  "writing w a crash f t = (case mw_heap w a of None \<Rightarrow> (crash nilDeref, w) | Some sess \<Rightarrow> (t, mem_poke w a (f sess)))"

definition afterLoad :: "(nat \<Rightarrow> 'x opState) \<Rightarrow> (gerror \<Rightarrow> 'x opState) \<Rightarrow> (string \<Rightarrow> 'x opState) \<Rightarrow> nat result \<times> 'x memWorld \<Rightarrow>
    'x opState \<times> 'x memWorld" where
  "afterLoad ok err crash lw = (case lw of (Ok a, w) \<Rightarrow> (ok a, w) | (Err e, w) \<Rightarrow> (err e, w) | (Panic p, w) \<Rightarrow> (crash p, w))"

abbreviation turnCrash :: "string \<Rightarrow> string \<Rightarrow> 'x opState" where
  "turnCrash i p \<equiv> TurnReturned i (Crashed p)"

abbreviation resumeCrash :: "string \<Rightarrow> string \<Rightarrow> 'x opState" where
  "resumeCrash i p \<equiv> ResumeReturned i (Crashed p)"

fun opStep :: "'x App \<Rightarrow> 'x agentInvoke \<Rightarrow> int \<Rightarrow> 'x opState \<Rightarrow> 'x memWorld \<Rightarrow> 'x opState \<times> 'x memWorld" where
  "opStep app invoke now (TurnCalled i userInput) w =
     afterLoad (\<lambda>a. TurnLoaded i a userInput) (\<lambda>e. TurnReturned i (Failed e None)) (turnCrash i) (InMemoryStore_Load w i)"
| "opStep app invoke now (TurnLoaded i a userInput) w = reading w a (turnCrash i) (turnLoaded i a userInput)"
| "opStep app invoke now (TurnChecked i a userInput) w =
     reading w a (turnCrash i) (\<lambda>sess. TurnAppending i a (se_Messages sess) userInput)"
| "opStep app invoke now (TurnAppending i a ms userInput) w =
     writing w a (turnCrash i) (\<lambda>sess. sess\<lparr>se_Messages := Some (elems ms @ [userMessage app userInput])\<rparr>) (TurnAppended i a)"
| "opStep app invoke now (TurnAppended i a) w =
     reading w a (turnCrash i) (\<lambda>sess. TurnInvoked i a (turnRequest app sess))"
| "opStep app invoke now (TurnInvoked i a req) w = (turnInvoked invoke i a req, w)"
| "opStep app invoke now (TurnPausing i a err snap) w =
     writing w a (turnCrash i) (\<lambda>sess. sess\<lparr>se_PendingApproval := Some snap\<rparr>)
       (TurnSaving i a ''persist pending approval: %w'' (Failed err (Some snap)))"
| "opStep app invoke now (TurnAnswered i a resp) w =
     reading w a (turnCrash i) (\<lambda>sess. TurnStoring i a (se_Messages sess) resp)"
| "opStep app invoke now (TurnStoring i a ms resp) w =
     writing w a (turnCrash i) (\<lambda>sess. sess\<lparr>se_Messages := Some (elems ms @ [resp])\<rparr>) (TurnSaving i a ''persist turn: %w'' (Done resp))"
| "opStep app invoke now (TurnSaving i a fmt res) w =
     (case persist InMemoryStore now w a (\<lambda>e. Errorf fmt [AWrap e]) res of (r, w) \<Rightarrow> (TurnReturned i r, w))"
| "opStep app invoke now (ResumeCalled i approved) w =
     afterLoad (\<lambda>a. ResumeLoaded i a approved) (\<lambda>e. ResumeReturned i (Failed e None)) (resumeCrash i) (InMemoryStore_Load w i)"
| "opStep app invoke now (ResumeLoaded i a approved) w = reading w a (resumeCrash i) (resumeLoaded i a approved)"
| "opStep app invoke now (ResumeChecked i a approved) w = reading w a (resumeCrash i) (resumeChecked i a approved)"
| "opStep app invoke now (ResumeDenying i a) w =
     writing w a (resumeCrash i) (\<lambda>sess. sess\<lparr>se_PendingApproval := None\<rparr>) (ResumeSaving i a)"
| "opStep app invoke now (ResumeInvoked i a snap) w = (resumeInvoked invoke i a snap, w)"
| "opStep app invoke now (ResumeAnswered i a snap resp) w =
     writing w a (resumeCrash i) (\<lambda>sess. sess\<lparr>se_Messages := as_Messages snap\<rparr>) (ResumeRestored i a resp)"
| "opStep app invoke now (ResumeRestored i a resp) w = reading w a (resumeCrash i) (resumeRestored i a resp)"
| "opStep app invoke now (ResumeAppending i a ms resp) w =
     writing w a (resumeCrash i) (\<lambda>sess. sess\<lparr>se_Messages := Some (elems ms @ [resp])\<rparr>) (ResumeStored i a)"
| "opStep app invoke now (ResumeStored i a) w =
     writing w a (resumeCrash i) (\<lambda>sess. sess\<lparr>se_PendingApproval := None\<rparr>) (ResumeSaving i a)"
| "opStep app invoke now (ResumeSaving i a) w =
     (case persist InMemoryStore now w a (\<lambda>e. e) (Done ()) of (r, w) \<Rightarrow> (ResumeReturned i r, w))"
| "opStep app invoke now t w = (t, w)"

lemmas op_defs = turnLoaded_def turnInvoked_def resumeLoaded_def resumeChecked_def resumeInvoked_def resumeRestored_def
  reading_def writing_def afterLoad_def

text \<open>An operation that nobody interferes with.\<close>

fun opAlone :: "'x App \<Rightarrow> 'x agentInvoke \<Rightarrow> int \<Rightarrow> nat \<Rightarrow> 'x opState \<Rightarrow> 'x memWorld \<Rightarrow> 'x opState \<times> 'x memWorld" where
  "opAlone app invoke now 0 t w = (t, w)"
| "opAlone app invoke now (Suc n) t w = (case opStep app invoke now t w of (t, w) \<Rightarrow> opAlone app invoke now n t w)"

lemma mem_poke_heap [simp]: "mw_heap (mem_poke w a s) a = Some s"
  by (simp add: mem_poke_def)

lemma mem_poke_twice [simp]: "mem_poke (mem_poke w a s) a t = mem_poke w a t"
  by (simp add: mem_poke_def)

lemma mem_poke_same [simp]: "mw_heap w a = Some s \<Longrightarrow> mem_poke w a s = w"
  by (simp add: mem_poke_def fun_upd_idem)

text \<open>
  The small steps are the operations: nine steps of a turn or of a resumption that nothing
  interrupts give the result and the store that \<open>Turn\<close> or \<open>Resume\<close> gives.
\<close>

lemma turn_alone:
  "opAlone app invoke now 9 (TurnCalled i input) w = map_prod (TurnReturned i) id (Turn InMemoryStore app invoke now w i input)"
proof -
  obtain l w1 where l: "InMemoryStore_Load w i = (l, w1)" by fastforce
  show ?thesis
    by (cases l) (simp_all add: eval_nat_numeral l op_defs Turn_def Let_def addMessage_def split: option.split outcome.split prod.split)
qed

lemma resume_alone:
  "opAlone app invoke now 9 (ResumeCalled i ok) w = map_prod (ResumeReturned i) id (Resume InMemoryStore invoke now w i ok)"
proof -
  obtain l w1 where l: "InMemoryStore_Load w i = (l, w1)" by fastforce
  show ?thesis
    by (cases l) (simp_all add: eval_nat_numeral l op_defs Resume_def Let_def addMessage_def split: option.split outcome.split prod.split)
qed

section \<open>Schedules\<close>

inductive sched :: "'x App \<Rightarrow> 'x opState list \<Rightarrow> 'x memWorld \<Rightarrow> 'x opState list \<Rightarrow> 'x memWorld \<Rightarrow> bool" for app where
  idle: "sched app ts w ts w"
| step: "sched app ts w ts1 w1 \<Longrightarrow> k < length ts1 \<Longrightarrow> opStep app invoke now (ts1 ! k) w1 = (t, w2) \<Longrightarrow>
    sched app ts w (ts1[k := t]) w2"

fun opSession :: "'x opState \<Rightarrow> string" where
  "opSession (TurnCalled i _) = i" | "opSession (TurnLoaded i _ _) = i" | "opSession (TurnChecked i _ _) = i"
| "opSession (TurnAppending i _ _ _) = i" | "opSession (TurnAppended i _) = i" | "opSession (TurnInvoked i _ _) = i"
| "opSession (TurnPausing i _ _ _) = i" | "opSession (TurnAnswered i _ _) = i" | "opSession (TurnStoring i _ _ _) = i"
| "opSession (TurnSaving i _ _ _) = i" | "opSession (TurnReturned i _) = i" | "opSession (ResumeCalled i _) = i"
| "opSession (ResumeLoaded i _ _) = i" | "opSession (ResumeChecked i _ _) = i" | "opSession (ResumeDenying i _) = i"
| "opSession (ResumeInvoked i _ _) = i" | "opSession (ResumeAnswered i _ _ _) = i" | "opSession (ResumeRestored i _ _) = i"
| "opSession (ResumeAppending i _ _ _) = i" | "opSession (ResumeStored i _) = i" | "opSession (ResumeSaving i _) = i"
| "opSession (ResumeReturned i _) = i"

fun opCalled :: "'x opState \<Rightarrow> bool" where
  "opCalled (TurnCalled _ _) = True" | "opCalled (ResumeCalled _ _) = True" | "opCalled _ = False"

section \<open>Isolation\<close>

definition hasSession :: "'x memWorld \<Rightarrow> nat \<Rightarrow> string \<Rightarrow> bool" where
  "hasSession w a i \<longleftrightarrow> (\<exists>s. mw_heap w a = Some s \<and> se_ID s = i)"

text \<open>The record an operation has a pointer to.\<close>

fun opRecord :: "'x opState \<Rightarrow> nat option" where
  "opRecord (TurnLoaded _ a _) = Some a" | "opRecord (TurnChecked _ a _) = Some a"
| "opRecord (TurnAppending _ a _ _) = Some a" | "opRecord (TurnAppended _ a) = Some a" | "opRecord (TurnInvoked _ a _) = Some a"
| "opRecord (TurnPausing _ a _ _) = Some a" | "opRecord (TurnAnswered _ a _) = Some a" | "opRecord (TurnStoring _ a _ _) = Some a"
| "opRecord (TurnSaving _ a _ _) = Some a" | "opRecord (ResumeLoaded _ a _) = Some a" | "opRecord (ResumeChecked _ a _) = Some a"
| "opRecord (ResumeDenying _ a) = Some a" | "opRecord (ResumeInvoked _ a _) = Some a" | "opRecord (ResumeAnswered _ a _ _) = Some a"
| "opRecord (ResumeRestored _ a _) = Some a" | "opRecord (ResumeAppending _ a _ _) = Some a" | "opRecord (ResumeStored _ a) = Some a"
| "opRecord (ResumeSaving _ a) = Some a" | "opRecord _ = None"

definition opHolds :: "'x memWorld \<Rightarrow> 'x opState \<Rightarrow> bool" where
  "opHolds w t \<longleftrightarrow> (case opRecord t of None \<Rightarrow> True | Some a \<Rightarrow> hasSession w a (opSession t))"

text \<open>What a step of an operation on session \<open>i\<close> does to the store.\<close>

definition localTo :: "string \<Rightarrow> 'x memWorld \<Rightarrow> 'x memWorld \<Rightarrow> bool" where
  "localTo i w w' \<longleftrightarrow> mem_inv w' \<and> (\<forall>j. j \<noteq> i \<longrightarrow> mem_get w' j = mem_get w j) \<and> (\<forall>a j. hasSession w a j \<longrightarrow> hasSession w' a j)"

lemma localTo_refl: "mem_inv w \<Longrightarrow> localTo i w w"
  by (simp add: localTo_def)

lemma localTo_load:
  assumes "mem_inv w" "InMemoryStore_Load w i = (l, w')"
  shows "localTo i w w' \<and> (\<exists>a. l = Ok a \<and> hasSession w' a i)"
proof -
  obtain a where "l = Ok a" "mw_heap w' a = Some (orFresh mem_get w i)" using mem_load_keeps(3)[OF assms] by blast
  moreover have "hasSession w' b j" if "hasSession w b j" for b j
    using assms that mem_inv_heap[OF assms(1)]
    by (fastforce simp: InMemoryStore_Load_def hasSession_def split: option.splits)
  ultimately show ?thesis
    using mem_load_keeps(1,2)[OF assms] mem.orFresh_id[OF assms(1)] by (auto simp: localTo_def hasSession_def)
qed

lemma localTo_poke:
  assumes "mem_inv w" "mw_heap w a = Some s" "se_ID s = i" "se_ID s' = i"
  shows "localTo i w (mem_poke w a s') \<and> hasSession (mem_poke w a s') a i"
proof -
  have "hasSession (mem_poke w a s') b j" if "hasSession w b j" for b j
    using that assms by (auto simp: hasSession_def mem_poke_def)
  then show ?thesis using mem_poke_keeps[of w a s s'] assms by (auto simp: localTo_def hasSession_def)
qed

lemma persist_mem:
  assumes "mem_inv w" "mw_heap w a = Some s" "se_ID s = i"
  shows "persist InMemoryStore now w a wrap res =
      (res, (mem_poke w a (s\<lparr>se_Updated := now\<rparr>))\<lparr>mw_data := (mw_data w)(i \<mapsto> a)\<rparr>)"
  using assms(2,3) by (simp add: persist_def InMemoryStore_Save_def mem_poke_def Let_def)

lemma localTo_persist:
  assumes "mem_inv w" "hasSession w a i" "persist InMemoryStore now w a wrap res = (r, w')"
  shows "localTo i w w'"
proof -
  obtain s where s: "mw_heap w a = Some s" "se_ID s = i" using assms(2) by (auto simp: hasSession_def)
  then have k: "mem.keeps i w w'" using mem.persist_keeps[OF assms(1) _ _ assms(3)] by simp
  have "w' = (mem_poke w a (s\<lparr>se_Updated := now\<rparr>))\<lparr>mw_data := (mw_data w)(i \<mapsto> a)\<rparr>"
    using assms(3) persist_mem[OF assms(1) s, of now wrap res] by simp
  then have "hasSession w' b j" if "hasSession w b j" for b j
    using that s by (auto simp: hasSession_def mem_poke_def)
  with k show ?thesis by (simp add: localTo_def mem.keeps_def)
qed

lemma opStep_local:
  assumes w: "mem_inv w" "opHolds w t" and st: "opStep app invoke now t w = (t', w')"
  shows "localTo (opSession t) w w' \<and> opHolds w' t' \<and> opSession t' = opSession t"
proof (cases "opRecord t")
  case (Some a)
  then obtain s where s: "mw_heap w a = Some s" "se_ID s = opSession t" using w(2) by (auto simp: hasSession_def opHolds_def)
  have h: "hasSession w a (opSession t)" using s by (simp add: hasSession_def)
  show ?thesis
  proof (cases "\<exists>i b. t = ResumeSaving i b")
    case True
    then show ?thesis using Some st localTo_persist[OF w(1) h] by (auto simp: opHolds_def split: prod.splits)
  next
    case False
    then show ?thesis
      using Some st s h localTo_refl[OF w(1)] localTo_poke[OF w(1) s] localTo_persist[OF w(1) h]
      by (cases t) (auto simp: op_defs opHolds_def split: if_splits option.splits outcome.splits prod.splits)
  qed
next
  case None
  then show ?thesis
    using st w localTo_refl[OF w(1)] localTo_load[OF w(1), of "opSession t"]
    by (cases t) (auto simp: afterLoad_def opHolds_def split: prod.splits result.splits)
qed

lemma opHolds_kept: "localTo i w w' \<Longrightarrow> opHolds w t \<Longrightarrow> opHolds w' t"
  by (auto simp: localTo_def opHolds_def split: option.splits)

lemma sched_inv:
  assumes "sched app ts w ts' w'" "mem_inv w" "\<forall>t \<in> set ts. opHolds w t"
  shows "mem_inv w' \<and> (\<forall>t \<in> set ts'. opHolds w' t) \<and> map opSession ts' = map opSession ts"
  using assms
proof (induction rule: sched.induct)
  case (step ts w ts1 w1 k invoke now t w2)
  then have i: "mem_inv w1" "\<forall>t \<in> set ts1. opHolds w1 t" "map opSession ts1 = map opSession ts" by simp_all
  have st: "localTo (opSession (ts1 ! k)) w1 w2 \<and> opHolds w2 t \<and> opSession t = opSession (ts1 ! k)"
    using opStep_local[OF i(1) _ step.hyps(3)] i(2) step.hyps(2) by simp
  then have "\<forall>x \<in> set (ts1[k := t]). opHolds w2 x"
    using i(2) opHolds_kept set_update_subset_insert[of ts1 k t] by blast
  moreover have "map opSession (ts1[k := t]) = map opSession ts1"
    using st by (simp add: map_update list_update_id[of "map opSession ts1", symmetric] step.hyps(2)) (metis list_update_id nth_map step.hyps(2))
  ultimately show ?case using st i(3) by (simp add: localTo_def)
qed simp

lemma called_holds: "opCalled t \<Longrightarrow> opHolds w t"
  by (cases t) (simp_all add: opHolds_def)

text \<open>C32. However turns and resumptions of any sessions interleave, down to their single accesses, and whatever the
  agent answers them, a step of one changes the stored record of no other session, and every record is stored
  under its own id.\<close>

theorem concurrent_sessions_isolated:
  assumes "session_reach w" "list_all opCalled ts" "sched app ts w ts' w1"
    and "k < length ts'" "opStep app invoke now (ts' ! k) w1 = (t, w2)"
  shows "opSession t = opSession (ts ! k) \<and> (mem_get w2 i = Some s \<longrightarrow> se_ID s = i) \<and>
    (j \<noteq> opSession (ts ! k) \<longrightarrow> mem_get w2 j = mem_get w1 j)"
proof -
  have i: "mem_inv w1" "\<forall>t \<in> set ts'. opHolds w1 t" "map opSession ts' = map opSession ts"
    using sched_inv[OF assms(3) reach_inv[OF assms(1)]] assms(2) called_holds by (auto simp: list_all_iff)
  have "length ts' = length ts" using i(3) by (metis length_map)
  then have "opSession (ts' ! k) = opSession (ts ! k)" using i(3) assms(4) by (metis nth_map)
  with opStep_local[OF i(1) _ assms(5)] i(2) assms(4) show ?thesis
    using mem.get_id[of w2 i s] by (simp add: localTo_def)
qed

section \<open>Concurrent turns of one stored session\<close>

text \<open>What a turn that goes well has written so far, and that it goes well.\<close>

fun written :: "'x App \<Rightarrow> string \<Rightarrow> 'x opState \<Rightarrow> 'x Message list" where
  "written app inp (TurnAppended _ _) = [userMessage app inp]"
| "written app inp (TurnInvoked _ _ _) = [userMessage app inp]"
| "written app inp (TurnAnswered _ _ _) = [userMessage app inp]"
| "written app inp (TurnStoring _ _ _ _) = [userMessage app inp]"
| "written app inp (TurnSaving _ _ _ (Done m)) = [userMessage app inp, m]"
| "written app inp (TurnReturned _ (Done m)) = [userMessage app inp, m]"
| "written app inp _ = []"

fun goesWell :: "string \<Rightarrow> nat \<Rightarrow> string \<Rightarrow> 'x opState \<Rightarrow> bool" where
  "goesWell i a inp (TurnCalled j x) \<longleftrightarrow> j = i \<and> x = inp"
| "goesWell i a inp (TurnLoaded j b x) \<longleftrightarrow> j = i \<and> b = a \<and> x = inp"
| "goesWell i a inp (TurnChecked j b x) \<longleftrightarrow> j = i \<and> b = a \<and> x = inp"
| "goesWell i a inp (TurnAppending j b _ x) \<longleftrightarrow> j = i \<and> b = a \<and> x = inp"
| "goesWell i a inp (TurnAppended j b) \<longleftrightarrow> j = i \<and> b = a"
| "goesWell i a inp (TurnInvoked j b _) \<longleftrightarrow> j = i \<and> b = a"
| "goesWell i a inp (TurnAnswered j b _) \<longleftrightarrow> j = i \<and> b = a"
| "goesWell i a inp (TurnStoring j b _ _) \<longleftrightarrow> j = i \<and> b = a"
| "goesWell i a inp (TurnSaving j b _ (Done _)) \<longleftrightarrow> j = i \<and> b = a"
| "goesWell i a inp (TurnReturned j (Done _)) \<longleftrightarrow> j = i"
| "goesWell i a inp _ \<longleftrightarrow> False"

text \<open>The history an operation has read and is about to write back with one message more.\<close>

fun heldHistory :: "'x opState \<Rightarrow> 'x Message slice option" where
  "heldHistory (TurnAppending _ _ ms _) = Some ms"
| "heldHistory (TurnStoring _ _ ms _) = Some ms"
| "heldHistory (ResumeAppending _ _ ms _) = Some ms"
| "heldHistory _ = None"

text \<open>A turn that will not be answered never becomes one that was.\<close>

fun unanswered :: "'x opState \<Rightarrow> bool" where
  "unanswered (TurnSaving _ _ _ (Done _)) = False"
| "unanswered (TurnSaving _ _ _ _) = True"
| "unanswered (TurnPausing _ _ _ _) = True"
| "unanswered (TurnReturned _ (Done _)) = False"
| "unanswered (TurnReturned _ _) = True"
| "unanswered _ = False"

lemma unanswered_stays:
  assumes "unanswered t" "opStep app invoke now t w = (t', w')"
  shows "unanswered t'"
proof (cases t)
  case (TurnSaving i a f r)
  then show ?thesis using assms by (cases r) (auto simp: persist_def split: prod.splits result.splits)
next
  case (TurnReturned i r)
  then show ?thesis using assms by auto
qed (use assms in \<open>auto simp: writing_def split: option.splits\<close>)

lemma unanswered_list_stays:
  assumes "list_ex unanswered ts" "k < length ts" "opStep app invoke now (ts ! k) w = (t, w')"
  shows "list_ex unanswered (ts[k := t])"
proof -
  obtain l where l: "l < length ts" "unanswered (ts ! l)" using assms(1) by (auto simp: list_ex_iff in_set_conv_nth)
  then have "unanswered (ts[k := t] ! l)"
    using unanswered_stays assms(2,3) by (cases "l = k") auto
  then show ?thesis using l(1) by (metis length_list_update list_ex_length)
qed

definition cell :: "'x memWorld \<Rightarrow> nat \<Rightarrow> string \<Rightarrow> 'x Message list \<Rightarrow> bool" where
  "cell w a i ms \<longleftrightarrow> (\<exists>s. mw_heap w a = Some s \<and> se_ID s = i \<and> elems (se_Messages s) = ms \<and> se_PendingApproval s = None)"

lemma cell_conversation: "mw_data w i = Some a \<Longrightarrow> cell w a i ms \<Longrightarrow> conversation w i = (ms, None)"
  by (auto simp: cell_def conversation_get(1) mem_get_def)

text \<open>
  One step of a turn on the record at \<open>a\<close>: it reads at most, and then holds what it held or what it
  read, or it writes what it held with one message more.
\<close>

definition historyStep :: "'x App \<Rightarrow> string \<Rightarrow> nat \<Rightarrow> string \<Rightarrow> 'x Message list \<Rightarrow> 'x opState \<Rightarrow> 'x opState \<Rightarrow> 'x memWorld \<Rightarrow> bool" where
  "historyStep app i a inp ms t t' w' \<longleftrightarrow>
     written app inp t' = written app inp t \<and> cell w' a i ms \<and>
       (\<forall>v. heldHistory t' = Some v \<longrightarrow> heldHistory t = Some v \<or> elems v = ms) \<or>
     (\<exists>v m. heldHistory t = Some v \<and> written app inp t' = written app inp t @ [m] \<and> cell w' a i (elems v @ [m]) \<and>
       heldHistory t' = None)"

lemma turn_step:
  assumes g: "goesWell i a inp t" "\<not> (\<exists>x. t = TurnCalled i x)" and c: "cell w a i ms"
    and st: "opStep app invoke now t w = (t', w')"
  shows "unanswered t' \<or> goesWell i a inp t' \<and> \<not> (\<exists>x. t' = TurnCalled i x) \<and> historyStep app i a inp ms t t' w' \<and>
    (\<forall>b. b \<noteq> a \<longrightarrow> mw_heap w' b = mw_heap w b) \<and> (mw_data w' = mw_data w \<or> mw_data w' = (mw_data w)(i \<mapsto> a))"
proof -
  obtain s where s: "mw_heap w a = Some s" "se_ID s = i" "elems (se_Messages s) = ms" "se_PendingApproval s = None"
    using c by (auto simp: cell_def)
  show ?thesis
  proof (cases t)
    case (TurnInvoked j b req)
    then show ?thesis
      using g st s by (auto simp: turnInvoked_def historyStep_def cell_def split: outcome.splits option.splits)
  next
    case (TurnSaving j b f r)
    then obtain m where "r = Done m" "j = i" "b = a" using g by (cases r) auto
    with TurnSaving st s show ?thesis
      by (auto simp: persist_def InMemoryStore_Save_def Let_def historyStep_def cell_def split: prod.splits)
  next
    case (TurnReturned j r)
    then show ?thesis using g st c by (cases r) (auto simp: historyStep_def)
  qed (use g st s in \<open>auto simp: turnLoaded_def reading_def writing_def historyStep_def cell_def mem_poke_def\<close>)
qed

text \<open>What the turns have written together grows by what the one that moves writes.\<close>

definition allWritten :: "'x App \<Rightarrow> string list \<Rightarrow> 'x opState list \<Rightarrow> 'x Message multiset" where
  "allWritten app ins ts = (\<Sum>j<length ts. mset (written app (ins ! j) (ts ! j)))"

lemma allWritten_update:
  assumes "k < length ts" "written app (ins ! k) t = written app (ins ! k) (ts ! k) @ new"
  shows "allWritten app ins (ts[k := t]) = allWritten app ins ts + mset new"
proof -
  have "(\<Sum>j\<in>{..<length ts} - {k}. mset (written app (ins ! j) (ts[k := t] ! j))) =
      (\<Sum>j\<in>{..<length ts} - {k}. mset (written app (ins ! j) (ts ! j)))"
    by (rule sum.cong) auto
  then show ?thesis
    using assms by (simp add: allWritten_def sum.remove[of "{..<length ts}" k])
qed

lemma allWritten_called: "allWritten app ins (map (TurnCalled i) ins') = {#}"
  by (simp add: allWritten_def)

lemma allWritten_returned:
  assumes "length ins = length ms"
  shows "allWritten app ins (map (\<lambda>m. TurnReturned i (Done m)) ms) = mset (map (userMessage app) ins) + mset ms"
proof -
  have "(\<Sum>j<length ms. {#userMessage app (ins ! j), ms ! j#}) = mset (map (userMessage app) ins) + mset ms"
    using assms by (induction ins ms rule: list_induct2) (simp_all add: sum.lessThan_Suc_shift del: sum.lessThan_Suc)
  then show ?thesis by (simp add: allWritten_def)
qed

lemma two_held:
  assumes "k < length ts" "heldHistory (ts ! k) \<noteq> None" "heldHistory t = None" "u \<in> set (ts[k := t])" "heldHistory u \<noteq> None"
  shows "length (filter (\<lambda>t. heldHistory t \<noteq> None) ts) \<noteq> 1"
proof -
  have t: "ts = take k ts @ ts ! k # drop (Suc k) ts" using assms(1) by (rule id_take_nth_drop)
  have "u \<in> set (take k ts) \<union> set (drop (Suc k) ts)"
    using assms by (auto simp: upd_conv_take_nth_drop)
  then have "filter (\<lambda>t. heldHistory t \<noteq> None) (take k ts) \<noteq> [] \<or> filter (\<lambda>t. heldHistory t \<noteq> None) (drop (Suc k) ts) \<noteq> []"
    using assms(5) by (auto simp: filter_empty_conv)
  then show ?thesis using assms(2) by (subst t) auto
qed

text \<open>
  The state of turns that share the record at \<open>a\<close>: the record, and every history that is held, is the
  old one followed by something \<open>ok\<close> about what was written.
\<close>

definition sharedTurns :: "('x Message list \<Rightarrow> 'x Message multiset \<Rightarrow> bool) \<Rightarrow> 'x App \<Rightarrow> string \<Rightarrow> nat \<Rightarrow> 'x Message list \<Rightarrow>
    string list \<Rightarrow> 'x opState list \<Rightarrow> 'x memWorld \<Rightarrow> bool" where
  "sharedTurns ok app i a h ins ts w \<longleftrightarrow> mw_data w i = Some a \<and> list_all2 (goesWell i a) ins ts \<and>
     (\<exists>xs. cell w a i (h @ xs) \<and> ok xs (allWritten app ins ts)) \<and>
     (\<forall>t \<in> set ts. \<forall>v. heldHistory t = Some v \<longrightarrow> (\<exists>ys. elems v = h @ ys \<and> ok ys (allWritten app ins ts)))"

text \<open>
  A step of one of them. What is \<open>ok\<close> has to stay so when more is written, unless the writer was
  the only one to hold a history.
\<close>

lemma sharedTurns_step:
  assumes j: "sharedTurns ok app i a h ins ts w" and k: "k < length ts" and st: "opStep app invoke now (ts ! k) w = (t, w')"
    and mono: "\<And>ys ws m. heldHistory (ts ! k) \<noteq> None \<Longrightarrow> length (filter (\<lambda>t. heldHistory t \<noteq> None) ts) \<noteq> 1 \<Longrightarrow> ok ys ws \<Longrightarrow> ok ys (ws + {#m#})"
    and snoc: "\<And>ys ws m. ok ys ws \<Longrightarrow> ok (ys @ [m]) (ws + {#m#})"
  shows "unanswered t \<or> sharedTurns ok app i a h ins (ts[k := t]) w'"
proof -
  obtain xs where d: "mw_data w i = Some a" and g: "list_all2 (goesWell i a) ins ts" and c: "cell w a i (h @ xs)"
    and m: "ok xs (allWritten app ins ts)"
    and hd: "\<And>t v. t \<in> set ts \<Longrightarrow> heldHistory t = Some v \<Longrightarrow> \<exists>ys. elems v = h @ ys \<and> ok ys (allWritten app ins ts)"
    using j by (auto simp: sharedTurns_def)
  have gk: "goesWell i a (ins ! k) (ts ! k)" using g k by (simp add: list_all2_conv_all_nth)
  have upd: "list_all2 (goesWell i a) ins (ts[k := t])" if "goesWell i a (ins ! k) t"
    using g that k by (simp add: list_all2_conv_all_nth nth_list_update)
  have sub: "set (ts[k := t]) \<subseteq> insert t (set ts)" by (rule set_update_subset_insert)
  show ?thesis
  proof (cases "\<exists>x. ts ! k = TurnCalled i x")
    case True
    then have t: "ts ! k = TurnCalled i (ins ! k)" using gk by auto
    then have t': "t = TurnLoaded i a (ins ! k)" "w' = w" using st d by (auto simp: afterLoad_def InMemoryStore_Load_def)
    then have "allWritten app ins (ts[k := t]) = allWritten app ins ts"
      using allWritten_update[OF k, where t = t and app = app and ins = ins and new = "[]"] t by simp
    then show ?thesis using d c m upd t' hd sub by (auto simp: sharedTurns_def)
  next
    case False
    from turn_step[OF gk False c st] show ?thesis
    proof
      assume "goesWell i a (ins ! k) t \<and> \<not> (\<exists>x. t = TurnCalled i x) \<and> historyStep app i a (ins ! k) (h @ xs) (ts ! k) t w' \<and>
          (\<forall>b. b \<noteq> a \<longrightarrow> mw_heap w' b = mw_heap w b) \<and> (mw_data w' = mw_data w \<or> mw_data w' = (mw_data w)(i \<mapsto> a))"
      then have s: "goesWell i a (ins ! k) t" "historyStep app i a (ins ! k) (h @ xs) (ts ! k) t w'" "mw_data w' i = Some a"
        using d by auto
      from s(2) consider
          (quiet) "written app (ins ! k) t = written app (ins ! k) (ts ! k)" "cell w' a i (h @ xs)"
            "\<And>v. heldHistory t = Some v \<Longrightarrow> heldHistory (ts ! k) = Some v \<or> elems v = h @ xs"
        | (store) v m where "heldHistory (ts ! k) = Some v" "written app (ins ! k) t = written app (ins ! k) (ts ! k) @ [m]"
            "cell w' a i (elems v @ [m])" "heldHistory t = None"
        unfolding historyStep_def by blast
      then show ?thesis
      proof cases
        case quiet
        then have "allWritten app ins (ts[k := t]) = allWritten app ins ts"
          using allWritten_update[OF k, where t = t and app = app and ins = ins and new = "[]"] by simp
        moreover have "\<exists>ys. elems v = h @ ys \<and> ok ys (allWritten app ins ts)" if "heldHistory t = Some v" for v
          using quiet(3)[OF that] m hd[OF nth_mem[OF k]] by auto
        ultimately show ?thesis using quiet(2) m hd sub s upd by (auto simp: sharedTurns_def)
      next
        case store
        have a: "allWritten app ins (ts[k := t]) = allWritten app ins ts + {#m#}"
          using allWritten_update[OF k store(2)] by simp
        obtain ys where ys: "elems v = h @ ys" "ok ys (allWritten app ins ts)" using hd[OF _ store(1)] k by auto
        have "cell w' a i (h @ ys @ [m])" using store(3) ys(1) by simp
        moreover have "ok (ys @ [m]) (allWritten app ins (ts[k := t]))" using snoc[OF ys(2)] a by simp
        moreover have "\<exists>ys. elems v = h @ ys \<and> ok ys (allWritten app ins (ts[k := t]))"
          if "u \<in> set (ts[k := t])" "heldHistory u = Some v" for u v
        proof -
          have "u \<in> set ts" using that store(4) sub by auto
          moreover have "length (filter (\<lambda>t. heldHistory t \<noteq> None) ts) \<noteq> 1"
            using two_held[OF k _ store(4) that(1)] store(1) that(2) by simp
          ultimately show ?thesis using hd[OF _ that(2)] mono store(1) unfolding a by blast
        qed
        ultimately show ?thesis using s upd by (auto simp: sharedTurns_def)
      qed
    qed simp
  qed
qed

lemma sharedTurns_called:
  assumes "session_reach w" "mem_get w i = Some s" "se_PendingApproval s = None" "length ins = n" "ok [] {#}"
  obtains a where "sharedTurns ok app i a (elems (se_Messages s)) ins (map (TurnCalled i) ins) w"
proof -
  obtain a where a: "mw_data w i = Some a" "mw_heap w a = Some s" using assms(2) by (auto simp: mem_get_def split: option.splits)
  have "se_ID s = i" using mem.get_id[OF reach_inv[OF assms(1)] assms(2)] .
  with a assms(3,5) have "sharedTurns ok app i a (elems (se_Messages s)) ins (map (TurnCalled i) ins) w"
    by (auto simp: sharedTurns_def cell_def list_all2_conv_all_nth allWritten_called intro!: exI[of _ "[]"])
  then show ?thesis by (rule that)
qed

lemma sharedTurns_returned:
  assumes "sharedTurns ok app i a h ins (map (\<lambda>m. TurnReturned i (Done m)) ms) w"
  shows "\<exists>xs. conversation w i = (h @ xs, None) \<and> ok xs (mset (map (userMessage app) ins) + mset ms)"
proof -
  have "length ins = length ms" using assms by (auto simp: sharedTurns_def dest: list_all2_lengthD)
  from allWritten_returned[OF this] show ?thesis
    using assms cell_conversation by (fastforce simp: sharedTurns_def)
qed

text \<open>Any schedule: what is lost is lost, but nothing is duplicated or made up.\<close>

lemma sharedTurns_run:
  assumes "sched app ts w ts' w'"
    and "sharedTurns (\<lambda>xs ws. mset xs \<subseteq># ws) app i a h ins ts w \<or> list_ex unanswered ts"
  shows "sharedTurns (\<lambda>xs ws. mset xs \<subseteq># ws) app i a h ins ts' w' \<or> list_ex unanswered ts'"
  using assms
proof (induction rule: sched.induct)
  case (step ts w ts1 w1 k invoke now t w2)
  then consider "sharedTurns (\<lambda>xs ws. mset xs \<subseteq># ws) app i a h ins ts1 w1" | "list_ex unanswered ts1" by blast
  then show ?case
  proof cases
    case 1
    have "unanswered t \<or> sharedTurns (\<lambda>xs ws. mset xs \<subseteq># ws) app i a h ins (ts1[k := t]) w2"
      by (rule sharedTurns_step[OF 1 step.hyps(2,3)]) (auto intro: subset_mset.order_trans)
    then show ?thesis using step.hyps(2) by (auto simp: list_ex_iff set_update_memI)
  qed (use unanswered_list_stays[OF _ step.hyps(2,3)] in blast)
qed simp

text \<open>Schedules in which appends do not overlap: at most one operation at a time holds a history.\<close>

definition appendsApart :: "'x opState list \<Rightarrow> bool" where
  "appendsApart ts \<longleftrightarrow> length (filter (\<lambda>t. heldHistory t \<noteq> None) ts) \<le> 1"

inductive apartSched :: "'x App \<Rightarrow> 'x opState list \<Rightarrow> 'x memWorld \<Rightarrow> 'x opState list \<Rightarrow> 'x memWorld \<Rightarrow> bool" for app where
  apart_idle: "appendsApart ts \<Longrightarrow> apartSched app ts w ts w"
| apart_step: "apartSched app ts w ts1 w1 \<Longrightarrow> k < length ts1 \<Longrightarrow> opStep app invoke now (ts1 ! k) w1 = (t, w2) \<Longrightarrow>
    appendsApart (ts1[k := t]) \<Longrightarrow> apartSched app ts w (ts1[k := t]) w2"

lemma apartSched_apart: "apartSched app ts w ts' w' \<Longrightarrow> appendsApart ts'"
  by (induction rule: apartSched.induct) auto

lemma apartTurns_run:
  assumes "apartSched app ts w ts' w'"
    and "sharedTurns (\<lambda>xs ws. mset xs = ws) app i a h ins ts w \<or> list_ex unanswered ts"
  shows "sharedTurns (\<lambda>xs ws. mset xs = ws) app i a h ins ts' w' \<or> list_ex unanswered ts'"
  using assms
proof (induction rule: apartSched.induct)
  case (apart_step ts w ts1 w1 k invoke now t w2)
  then consider "sharedTurns (\<lambda>xs ws. mset xs = ws) app i a h ins ts1 w1" | "list_ex unanswered ts1" by blast
  then show ?case
  proof cases
    case 1
    have "unanswered t \<or> sharedTurns (\<lambda>xs ws. mset xs = ws) app i a h ins (ts1[k := t]) w2"
    proof (rule sharedTurns_step[OF 1 apart_step.hyps(2,3)])
      assume "heldHistory (ts1 ! k) \<noteq> None" "length (filter (\<lambda>t. heldHistory t \<noteq> None) ts1) \<noteq> 1"
      moreover from this(1) have "filter (\<lambda>t. heldHistory t \<noteq> None) ts1 \<noteq> []"
        using apart_step.hyps(2) by (auto simp: filter_empty_conv)
      ultimately show "mset ys = ws + {#m#}" for ys ws m
        using apartSched_apart[OF apart_step.hyps(1)] unfolding appendsApart_def
        by (metis le_neq_implies_less length_0_conv less_one)
    qed simp
    then show ?thesis using apart_step.hyps(2) by (auto simp: list_ex_iff set_update_memI)
  qed (use unanswered_list_stays[OF _ apart_step.hyps(2,3)] in blast)
qed simp

text \<open>C33. Turns of one stored session that run at the same time share its record, and if all of
  them are answered then, in whatever order their accesses happen, the history keeps what it held before and
  grows by some of the users' messages and the answers, none of them twice. When no two of them
  are at the same time between reading the history and writing it back, no message is lost: the
  history has grown by exactly the users' messages and the answers, in some order.\<close>

theorem concurrent_turns_keep_messages:
  assumes "session_reach w" "mem_get w i = Some s" "se_PendingApproval s = None"
    and "sched app (map (TurnCalled i) ins) w (map (\<lambda>m. TurnReturned i (Done m)) ms) w'"
  shows "\<exists>xs. conversation w' i = (elems (se_Messages s) @ xs, None) \<and>
    mset xs \<subseteq># mset (map (userMessage app) ins) + mset ms \<and>
    (apartSched app (map (TurnCalled i) ins) w (map (\<lambda>m. TurnReturned i (Done m)) ms) w' \<longrightarrow>
      mset xs = mset (map (userMessage app) ins) + mset ms)"
proof -
  let ?h = "elems (se_Messages s)" and ?all = "mset (map (userMessage app) ins) + mset ms"
  have n: "\<not> list_ex unanswered (map (\<lambda>m. TurnReturned i (Done m)) ms)" by (auto simp: list_ex_iff)
  obtain a where "sharedTurns (\<lambda>xs ws. mset xs \<subseteq># ws) app i a ?h ins (map (TurnCalled i) ins) w"
    using sharedTurns_called[OF assms(1-3) refl, where ok = "\<lambda>xs ws. mset xs \<subseteq># ws"] by auto
  then have "sharedTurns (\<lambda>xs ws. mset xs \<subseteq># ws) app i a ?h ins (map (\<lambda>m. TurnReturned i (Done m)) ms) w'"
    using sharedTurns_run[OF assms(4)] n by blast
  from sharedTurns_returned[OF this] have 1: "\<exists>xs. conversation w' i = (?h @ xs, None) \<and> mset xs \<subseteq># ?all" .
  have 2: "\<exists>xs. conversation w' i = (?h @ xs, None) \<and> mset xs = ?all"
    if ap: "apartSched app (map (TurnCalled i) ins) w (map (\<lambda>m. TurnReturned i (Done m)) ms) w'"
  proof -
    obtain a where "sharedTurns (\<lambda>xs ws. mset xs = ws) app i a ?h ins (map (TurnCalled i) ins) w"
      using sharedTurns_called[OF assms(1-3) refl, where ok = "\<lambda>xs ws. mset xs = ws"] by auto
    then have "sharedTurns (\<lambda>xs ws. mset xs = ws) app i a ?h ins (map (\<lambda>m. TurnReturned i (Done m)) ms) w'"
      using apartTurns_run[OF ap] n by blast
    from sharedTurns_returned[OF this] show ?thesis .
  qed
  show ?thesis using 1 2 by fastforce
qed

section \<open>Overlapping appends\<close>

text \<open>A turn that has not written yet, and one that has.\<close>

fun preTurn :: "string \<Rightarrow> nat \<Rightarrow> 'x Session \<Rightarrow> string \<Rightarrow> 'x opState \<Rightarrow> bool" where
  "preTurn i a s x (TurnCalled j y) \<longleftrightarrow> j = i \<and> y = x"
| "preTurn i a s x (TurnLoaded j b y) \<longleftrightarrow> j = i \<and> b = a \<and> y = x"
| "preTurn i a s x (TurnChecked j b y) \<longleftrightarrow> j = i \<and> b = a \<and> y = x"
| "preTurn i a s x (TurnAppending j b ms y) \<longleftrightarrow> j = i \<and> b = a \<and> y = x \<and> ms = se_Messages s"
| "preTurn i a s x _ \<longleftrightarrow> False"

fun past :: "'x opState \<Rightarrow> bool" where
  "past (TurnCalled _ _) = False" | "past (TurnLoaded _ _ _) = False" | "past (TurnChecked _ _ _) = False"
| "past (TurnAppending _ _ _ _) = False" | "past _ = True"

lemma past_stays: "past t \<Longrightarrow> opStep app invoke now t w = (t', w') \<Longrightarrow> past t'"
  by (cases t) (auto simp: op_defs split: option.splits outcome.splits if_splits prod.splits result.splits)

lemma preTurn_step:
  assumes "preTurn i a s x t" "mw_data w i = Some a" "mw_heap w a = Some s" "se_PendingApproval s = None"
    and "opStep app invoke now t w = (t', w')"
  shows "past t' \<or> preTurn i a s x t' \<and> w' = w"
  using assms by (cases t) (auto simp: op_defs InMemoryStore_Load_def)

lemma preTurns_run:
  assumes "sched app ts w ts' w'" "mw_data w i = Some a" "mw_heap w a = Some s" "se_PendingApproval s = None"
    and "list_all2 (preTurn i a s) xs ts"
  shows "list_ex past ts' \<or> list_all2 (preTurn i a s) xs ts' \<and> w' = w"
  using assms
proof (induction rule: sched.induct)
  case (step ts w ts1 w1 k invoke now t w2)
  then consider "list_ex past ts1" | "list_all2 (preTurn i a s) xs ts1" "w1 = w" by blast
  then show ?case
  proof cases
    case 1
    then obtain l where l: "l < length ts1" "past (ts1 ! l)" by (auto simp: list_ex_iff in_set_conv_nth)
    then have "past (ts1[k := t] ! l)" using past_stays step.hyps(2,3) by (cases "l = k") auto
    then show ?thesis using l(1) by (metis length_list_update list_ex_length)
  next
    case 2
    have "preTurn i a s (xs ! k) (ts1 ! k)" using 2(1) step.hyps(2) by (simp add: list_all2_conv_all_nth)
    then consider "past t" | "preTurn i a s (xs ! k) t" "w2 = w"
      using preTurn_step[OF _ _ _ step.prems(3) step.hyps(3)] step.prems 2(2) by blast
    then show ?thesis
    proof cases
      case 1
      then show ?thesis using step.hyps(2) by (auto simp: list_ex_iff set_update_memI)
    next
      case 2
      then show ?thesis using \<open>list_all2 _ xs ts1\<close> step.hyps(2) by (simp add: list_all2_conv_all_nth nth_list_update)
    qed
  qed
qed simp

text \<open>A history that is missing one of two messages.\<close>

definition oneLost :: "'x Message \<Rightarrow> 'x Message \<Rightarrow> 'x Message multiset \<Rightarrow> 'x Message list \<Rightarrow> bool" where
  "oneLost u v ans ys \<longleftrightarrow> mset ys \<subseteq># {#u#} + ans \<or> mset ys \<subseteq># {#v#} + ans"

lemma oneLost_intros:
  "oneLost u v ans []" "oneLost u v ans [u]" "oneLost u v ans [v]"
  "oneLost u v ans ys \<Longrightarrow> oneLost u v (add_mset m ans) ys" "oneLost u v ans ys \<Longrightarrow> oneLost u v (add_mset m ans) (ys @ [m])"
  by (auto simp: oneLost_def intro: subset_mset.order_trans)

fun answersOf :: "'x opState \<Rightarrow> 'x Message multiset" where
  "answersOf (TurnSaving _ _ _ (Done m)) = {#m#}" | "answersOf (TurnReturned _ (Done m)) = {#m#}" | "answersOf _ = {#}"

text \<open>A turn past its read: until it writes it holds the old history, afterwards only histories that miss one.\<close>

definition racing :: "string \<Rightarrow> nat \<Rightarrow> 'x Message list \<Rightarrow> ('x Message list \<Rightarrow> bool) \<Rightarrow> string \<Rightarrow> 'x opState \<Rightarrow> bool" where
  "racing i a h ok x t \<longleftrightarrow> goesWell i a x t \<and>
     (case t of TurnCalled _ _ \<Rightarrow> False | TurnLoaded _ _ _ \<Rightarrow> False | TurnChecked _ _ _ \<Rightarrow> False
      | TurnAppending _ _ ms _ \<Rightarrow> elems ms = h
      | TurnStoring _ _ ms _ \<Rightarrow> (\<exists>ys. elems ms = h @ ys \<and> ok ys)
      | _ \<Rightarrow> True)"

lemma racing_mono: "racing i a h ok x t \<Longrightarrow> (\<And>ys. ok ys \<Longrightarrow> ok' ys) \<Longrightarrow> racing i a h ok' x t"
  by (cases t) (auto simp: racing_def)

lemma racing_step:
  assumes r: "racing i a h (oneLost u v (answersOf t + B)) x t" and u: "userMessage app x \<in> {u, v}"
    and c: "cell w a i (h @ xs)" "oneLost u v (answersOf t + B) xs" and st: "opStep app invoke now t w = (t', w')"
  shows "unanswered t' \<or> racing i a h (oneLost u v (answersOf t' + B)) x t' \<and>
    (\<exists>ys. cell w' a i (h @ ys) \<and> oneLost u v (answersOf t' + B) ys) \<and>
    (\<forall>ys. oneLost u v (answersOf t + B) ys \<longrightarrow> oneLost u v (answersOf t' + B) ys) \<and>
    (mw_data w' = mw_data w \<or> mw_data w' = (mw_data w)(i \<mapsto> a))"
proof -
  obtain s where s: "mw_heap w a = Some s" "se_ID s = i" "elems (se_Messages s) = h @ xs" "se_PendingApproval s = None"
    using c(1) by (auto simp: cell_def)
  show ?thesis
  proof (cases t)
    case (TurnAppending j b ms y)
    then show ?thesis using r u st s
      by (auto simp: racing_def writing_def cell_def mem_poke_def intro!: exI[of _ "[userMessage app x]"] intro: oneLost_intros)
  next
    case (TurnInvoked j b req)
    then show ?thesis using r st s c(2)
      by (auto simp: racing_def turnInvoked_def cell_def split: outcome.splits option.splits)
  next
    case (TurnStoring j b ms m)
    then obtain ys where "elems ms = h @ ys" "oneLost u v B ys" using r by (auto simp: racing_def)
    then show ?thesis using r st s TurnStoring
      by (auto simp: racing_def writing_def cell_def mem_poke_def intro!: exI[of _ "ys @ [m]"] intro: oneLost_intros)
  next
    case (TurnSaving j b f q)
    then obtain m where "q = Done m" "j = i" "b = a" using r by (cases q) (auto simp: racing_def)
    with TurnSaving st s c(2) show ?thesis
      by (auto simp: racing_def persist_def InMemoryStore_Save_def Let_def cell_def split: prod.splits)
  next
    case (TurnReturned j q)
    then show ?thesis using r st c by (cases q) (auto simp: racing_def)
  qed (use r st s c(2) in \<open>auto simp: racing_def reading_def cell_def\<close>)
qed

definition racingTurns :: "'x App \<Rightarrow> string \<Rightarrow> nat \<Rightarrow> 'x Message list \<Rightarrow> string \<Rightarrow> string \<Rightarrow> 'x opState \<Rightarrow> 'x opState \<Rightarrow> 'x memWorld \<Rightarrow> bool" where
  "racingTurns app i a h x y t t' w \<longleftrightarrow> (let ok = oneLost (userMessage app x) (userMessage app y) (answersOf t + answersOf t') in
     mw_data w i = Some a \<and> racing i a h ok x t \<and> racing i a h ok y t' \<and> (\<exists>ys. cell w a i (h @ ys) \<and> ok ys))"

lemma oneLost_swap: "oneLost u v = oneLost v u"
  by (auto simp: oneLost_def fun_eq_iff)

lemma racingTurns_swap: "racingTurns app i a h x y t t' w \<longleftrightarrow> racingTurns app i a h y x t' t w"
  unfolding racingTurns_def Let_def oneLost_swap[of "userMessage app x"] by (auto simp: add.commute)

lemma racingTurns_step:
  assumes "racingTurns app i a h x y t u w" "opStep app invoke now t w = (t', w')"
  shows "unanswered t' \<or> racingTurns app i a h x y t' u w'"
proof -
  obtain ys where c: "cell w a i (h @ ys)" "oneLost (userMessage app x) (userMessage app y) (answersOf t + answersOf u) ys"
    and r: "racing i a h (oneLost (userMessage app x) (userMessage app y) (answersOf t + answersOf u)) x t"
      "racing i a h (oneLost (userMessage app x) (userMessage app y) (answersOf t + answersOf u)) y u" "mw_data w i = Some a"
    using assms(1) unfolding racingTurns_def Let_def by blast
  from racing_step[OF r(1) _ c assms(2)] show ?thesis
    using racing_mono[OF r(2)] r(3) unfolding racingTurns_def Let_def by auto
qed

lemma racingTurns_run:
  assumes "sched app ts w ts' w'" "(\<exists>t u. ts = [t, u] \<and> racingTurns app i a h x y t u w) \<or> list_ex unanswered ts"
  shows "(\<exists>t u. ts' = [t, u] \<and> racingTurns app i a h x y t u w') \<or> list_ex unanswered ts'"
  using assms
proof (induction rule: sched.induct)
  case (step ts w ts1 w1 k invoke now t w2)
  then consider (well) t1 t2 where "ts1 = [t1, t2]" "racingTurns app i a h x y t1 t2 w1" | (ill) "list_ex unanswered ts1" by blast
  then show ?case
  proof cases
    case well
    then consider "k = 0" | "k = 1" using step.hyps(2) by fastforce
    then show ?thesis
    proof cases
      case 1
      then show ?thesis using racingTurns_step[OF well(2)] step.hyps(3) well(1) by auto
    next
      case 2
      then show ?thesis
        using racingTurns_step[OF well(2)[unfolded racingTurns_swap[of app i a h x]]] step.hyps(3) well(1)
        by (auto simp: racingTurns_swap[of app i a h x])
    qed
  qed (use unanswered_list_stays[OF _ step.hyps(2,3)] in blast)
qed simp

text \<open>C31. No lock covers \<^verbatim>\<open>sess.Messages = append(sess.Messages, m)\<close>. If two turns of one stored session have
  both read the history before either writes it back, then whatever happens next, when both have
  returned their answer the stored history lacks the message of one of the two users: each caller was told
  its turn was stored.\<close>

theorem concurrent_appends_lose_one:
  assumes "session_reach w" "mem_get w i = Some s" "se_PendingApproval s = None"
    and "sched app [TurnCalled i x, TurnCalled i y] w [TurnAppending i a ms x, TurnAppending i b ms' y] w1"
    and "sched app [TurnAppending i a ms x, TurnAppending i b ms' y] w1 [TurnReturned i (Done m), TurnReturned i (Done n)] w'"
  shows "\<exists>xs. conversation w' i = (elems (se_Messages s) @ xs, None) \<and>
    (mset xs \<subseteq># {#userMessage app x, m, n#} \<or> mset xs \<subseteq># {#userMessage app y, m, n#})"
proof -
  obtain c where c: "mw_data w i = Some c" "mw_heap w c = Some s" using assms(2) by (auto simp: mem_get_def split: option.splits)
  have "se_ID s = i" using mem.get_id[OF reach_inv[OF assms(1)] assms(2)] .
  then have k: "cell w c i (elems (se_Messages s))" using c(2) assms(3) by (simp add: cell_def)
  from preTurns_run[OF assms(4) c assms(3), of "[x, y]"]
  have p: "a = c" "b = c" "ms = se_Messages s" "ms' = se_Messages s" "w1 = w" by auto
  have "racingTurns app i c (elems (se_Messages s)) x y (TurnAppending i a ms x) (TurnAppending i b ms' y) w1"
    unfolding racingTurns_def Let_def racing_def p
    using c(1) k by (auto intro!: exI[of _ "[]"] oneLost_intros(1))
  then have "racingTurns app i c (elems (se_Messages s)) x y (TurnReturned i (Done m)) (TurnReturned i (Done n)) w'"
    using racingTurns_run[OF assms(5), of i c "elems (se_Messages s)" x y] by auto
  then obtain ys where ys: "mw_data w' i = Some c" "cell w' c i (elems (se_Messages s) @ ys)"
    "oneLost (userMessage app x) (userMessage app y) {#n, m#} ys"
    by (auto simp: racingTurns_def Let_def)
  from ys(3) have "mset ys \<subseteq># {#userMessage app x, m, n#} \<or> mset ys \<subseteq># {#userMessage app y, m, n#}"
    by (simp add: oneLost_def add_mset_commute)
  with cell_conversation[OF ys(1,2)] show ?thesis by blast
qed

section \<open>Concurrent first turns\<close>

text \<open>A turn on a record of its own, to which the store leads once the turn has been saved.\<close>

fun returned :: "'x opState \<Rightarrow> bool" where
  "returned (TurnReturned _ _) = True" | "returned _ = False"

definition ownTurn :: "'x App \<Rightarrow> string \<Rightarrow> nat \<Rightarrow> string \<Rightarrow> 'x opState \<Rightarrow> 'x memWorld \<Rightarrow> bool" where
  "ownTurn app i a inp t w \<longleftrightarrow> goesWell i a inp t \<and> (\<forall>x. t \<noteq> TurnCalled i x) \<and> cell w a i (written app inp t) \<and>
     (\<forall>v. heldHistory t = Some v \<longrightarrow> elems v = written app inp t)"

lemma ownTurn_step:
  assumes "ownTurn app i a inp t w" "opStep app invoke now t w = (t', w')"
  shows "unanswered t' \<or> ownTurn app i a inp t' w' \<and> (\<forall>b. b \<noteq> a \<longrightarrow> mw_heap w' b = mw_heap w b) \<and>
    (mw_data w' = mw_data w \<and> returned t' = returned t \<or> mw_data w' = (mw_data w)(i \<mapsto> a) \<and> returned t')"
proof -
  have t: "goesWell i a inp t" "\<not> (\<exists>x. t = TurnCalled i x)" "cell w a i (written app inp t)"
    and h: "\<And>v. heldHistory t = Some v \<Longrightarrow> elems v = written app inp t"
    using assms(1) by (auto simp: ownTurn_def)
  obtain s where s: "mw_heap w a = Some s" "se_ID s = i" using t(3) by (auto simp: cell_def)
  have r: "unanswered t' \<or> mw_data w' = mw_data w \<and> returned t' = returned t \<or> mw_data w' = (mw_data w)(i \<mapsto> a) \<and> returned t'"
  proof (cases t)
    case (TurnSaving j b f r)
    then obtain m where "r = Done m" "j = i" "b = a" using t(1) by (cases r) auto
    with TurnSaving assms(2) s show ?thesis
      by (auto simp: persist_def InMemoryStore_Save_def Let_def split: prod.splits)
  next
    case (TurnInvoked j b q)
    then show ?thesis
      using t assms(2) by (auto simp: turnInvoked_def split: option.splits outcome.splits)
  qed (use t s assms(2) in \<open>auto simp: turnLoaded_def reading_def writing_def mem_poke_def split: if_splits\<close>)
  from turn_step[OF t assms(2)] r h show ?thesis by (auto simp: ownTurn_def historyStep_def)
qed

definition separateTurns :: "'x App \<Rightarrow> string \<Rightarrow> nat \<Rightarrow> nat \<Rightarrow> string \<Rightarrow> string \<Rightarrow> 'x opState \<Rightarrow> 'x opState \<Rightarrow> 'x memWorld \<Rightarrow> bool" where
  "separateTurns app i a b x y t u w \<longleftrightarrow> ownTurn app i a x t w \<and> ownTurn app i b y u w \<and>
     (mw_data w i = None \<and> \<not> returned t \<and> \<not> returned u \<or> mw_data w i = Some a \<and> returned t \<or> mw_data w i = Some b \<and> returned u)"

lemma ownTurn_other: "ownTurn app i b y u w \<Longrightarrow> mw_heap w' b = mw_heap w b \<Longrightarrow> ownTurn app i b y u w'"
  by (simp add: ownTurn_def cell_def)

lemma separateTurns_swap: "separateTurns app i a b x y t u w \<longleftrightarrow> separateTurns app i b a y x u t w"
  by (auto simp: separateTurns_def)

lemma separateTurns_step:
  assumes "separateTurns app i a b x y t u w" "a \<noteq> b" "opStep app invoke now t w = (t', w')"
  shows "unanswered t' \<or> separateTurns app i a b x y t' u w'"
  using ownTurn_step[OF _ assms(3), of i a x] ownTurn_other[of app i b y u w w'] assms(1,2)
  by (auto simp: separateTurns_def)

lemma separateTurns_run:
  assumes "sched app ts w ts' w'" "a \<noteq> b" "(\<exists>t u. ts = [t, u] \<and> separateTurns app i a b x y t u w) \<or> list_ex unanswered ts"
  shows "(\<exists>t u. ts' = [t, u] \<and> separateTurns app i a b x y t u w') \<or> list_ex unanswered ts'"
  using assms
proof (induction rule: sched.induct)
  case (step ts w ts1 w1 k invoke now t w2)
  then consider (well) t1 t2 where "ts1 = [t1, t2]" "separateTurns app i a b x y t1 t2 w1" | (ill) "list_ex unanswered ts1" by blast
  then show ?case
  proof cases
    case well
    then consider "k = 0" | "k = 1" using step.hyps(2) by fastforce
    then show ?thesis
    proof cases
      case 1
      then show ?thesis using separateTurns_step[OF well(2) step.prems(1)] step.hyps(3) well(1) by auto
    next
      case 2
      then show ?thesis
        using separateTurns_step[OF well(2)[unfolded separateTurns_swap[of app i a]] step.prems(1)[symmetric]] step.hyps(3) well(1)
        by (auto simp: separateTurns_swap[of app i a])
    qed
  qed (use unanswered_list_stays[OF _ step.hyps(2,3)] in blast)
qed simp

text \<open>C34. Two first turns of one session race: if both have loaded the session before one is saved,
  each has a fresh record of its own, and when both have returned their answer the stored history
  holds the exchange of one of them only. The other turn reported success and its
  messages are gone.\<close>

theorem concurrent_first_turns_lose_one:
  assumes "session_reach w" "mem_get w i = None"
    and "InMemoryStore_Load w i = (Ok a, w1)" "InMemoryStore_Load w1 i = (Ok b, w2)"
    and "sched app [TurnLoaded i a x, TurnLoaded i b y] w2 [TurnReturned i (Done m), TurnReturned i (Done n)] w'"
  shows "conversation w' i = ([userMessage app x, m], None) \<or> conversation w' i = ([userMessage app y, n], None)"
proof -
  have d: "mw_data w i = None"
  proof (cases "mw_data w i")
    case (Some c)
    obtain s where "mw_heap w c = Some s" by (rule mem_inv_data[OF reach_inv[OF assms(1)] Some])
    then show ?thesis using Some assms(2) by (simp add: mem_get_def)
  qed
  then have l: "a = mw_next w" "b = Suc (mw_next w)" "mw_data w2 i = None"
    "mw_heap w2 a = Some (freshSession i)" "mw_heap w2 b = Some (freshSession i)"
    using assms(3,4) by (auto simp: InMemoryStore_Load_def)
  then have "separateTurns app i a b x y (TurnLoaded i a x) (TurnLoaded i b y) w2"
    by (simp add: separateTurns_def ownTurn_def cell_def freshSession_def)
  moreover have "a \<noteq> b" using l by simp
  ultimately have "separateTurns app i a b x y (TurnReturned i (Done m)) (TurnReturned i (Done n)) w'"
    using separateTurns_run[OF assms(5), of a b i x y] by auto
  then show ?thesis by (auto simp: separateTurns_def ownTurn_def dest: cell_conversation)
qed

section \<open>Late resumptions\<close>


section \<open>Schedules that run\<close>

text \<open>The schedule that gives each of the listed operations one step, in that order.\<close>

fun runSched :: "'x App \<Rightarrow> 'x agentInvoke \<Rightarrow> int \<Rightarrow> nat list \<Rightarrow> 'x opState list \<Rightarrow> 'x memWorld \<Rightarrow> 'x opState list \<times> 'x memWorld" where
  "runSched app invoke now [] ts w = (ts, w)"
| "runSched app invoke now (k # ks) ts w = (case opStep app invoke now (ts ! k) w of (t, w) \<Rightarrow> runSched app invoke now ks (ts[k := t]) w)"

lemma runSched_append:
  "runSched app invoke now (ks @ ls) ts w = (case runSched app invoke now ks ts w of (ts, w) \<Rightarrow> runSched app invoke now ls ts w)"
  by (induction ks arbitrary: ts w) (simp_all split: prod.split)

lemma sched_trans: "sched app ts1 w1 ts2 w2 \<Longrightarrow> sched app ts w ts1 w1 \<Longrightarrow> sched app ts w ts2 w2"
  by (induction rule: sched.induct) (auto intro: sched.step)

lemma runSched_sched:
  "list_all (\<lambda>k. k < length ts) ks \<Longrightarrow> runSched app invoke now ks ts w = (ts', w') \<Longrightarrow> sched app ts w ts' w'"
proof (induction ks arbitrary: ts w)
  case (Cons k ks)
  obtain t w1 where t: "opStep app invoke now (ts ! k) w = (t, w1)" by fastforce
  have "sched app (ts[k := t]) w1 ts' w'" using Cons t by simp
  moreover have "sched app ts w (ts[k := t]) w1" using sched.step[OF sched.idle _ t] Cons.prems(1) by simp
  ultimately show ?case by (rule sched_trans)
qed (simp add: sched.idle)

fun runApart :: "'x App \<Rightarrow> 'x agentInvoke \<Rightarrow> int \<Rightarrow> nat list \<Rightarrow> 'x opState list \<Rightarrow> 'x memWorld \<Rightarrow> bool" where
  "runApart app invoke now [] ts w = appendsApart ts"
| "runApart app invoke now (k # ks) ts w = (appendsApart ts \<and> k < length ts \<and>
     (case opStep app invoke now (ts ! k) w of (t, w) \<Rightarrow> runApart app invoke now ks (ts[k := t]) w))"

lemma apartSched_trans: "apartSched app ts1 w1 ts2 w2 \<Longrightarrow> apartSched app ts w ts1 w1 \<Longrightarrow> apartSched app ts w ts2 w2"
  by (induction rule: apartSched.induct) (auto intro: apartSched.apart_step)

lemma runApart_starts: "runApart app invoke now ks ts w \<Longrightarrow> appendsApart ts"
  by (cases ks) auto

lemma runApart_sched:
  "runApart app invoke now ks ts w \<Longrightarrow> runSched app invoke now ks ts w = (ts', w') \<Longrightarrow> apartSched app ts w ts' w'"
proof (induction ks arbitrary: ts w)
  case (Cons k ks)
  obtain t w1 where t: "opStep app invoke now (ts ! k) w = (t, w1)" by fastforce
  have "apartSched app (ts[k := t]) w1 ts' w'" using Cons t by simp
  moreover have "apartSched app ts w (ts[k := t]) w1"
    using apart_step[OF apart_idle _ t] Cons.prems(1) t runApart_starts[of app invoke now ks "ts[k := t]" w1] by auto
  ultimately show ?case by (rule apartSched_trans)
qed (simp add: apart_idle)

text \<open>Two turns of the stored session \<open>a\<close>, answered alike.\<close>

abbreviation twoTurns :: "unit opState list" where
  "twoTurns \<equiv> [TurnCalled ''a'' ''bye'', TurnCalled ''a'' ''ciao'']"

abbreviation twoAnswers :: "unit opState list" where
  "twoAnswers \<equiv> [TurnReturned ''a'' (Done okMessage), TurnReturned ''a'' (Done okMessage)]"

lemma demoWorld_cell:
  obtains a where "mw_data demoWorld ''a'' = Some a" "mw_heap demoWorld a = Some \<lparr>se_ID = ''a'',
    se_Messages = Some [userMessage demoApp ''hi'', okMessage], se_PendingApproval = None, se_Updated = 1\<rparr>"
  using demoWorld_get by (auto simp: mem_get_def split: option.splits)

lemmas run_simps = op_defs InMemoryStore_Load_def Let_def mem_poke_def persist_def InMemoryStore_Save_def eval_nat_numeral

lemma demo_apart:
  "\<exists>w. runSched demoApp (\<lambda>_. Done (Some okMessage)) 2 [0, 1, 0, 1, 0, 0, 1, 1, 0, 1, 1, 0, 1, 1, 0, 0, 1, 0] twoTurns demoWorld = (twoAnswers, w)"
  "runApart demoApp (\<lambda>_. Done (Some okMessage)) 2 [0, 1, 0, 1, 0, 0, 1, 1, 0, 1, 1, 0, 1, 1, 0, 0, 1, 0] twoTurns demoWorld"
proof -
  obtain a where "mw_data demoWorld ''a'' = Some a" "mw_heap demoWorld a = Some \<lparr>se_ID = ''a'',
    se_Messages = Some [userMessage demoApp ''hi'', okMessage], se_PendingApproval = None, se_Updated = 1\<rparr>"
    by (rule demoWorld_cell)
  then show "\<exists>w. runSched demoApp (\<lambda>_. Done (Some okMessage)) 2 [0, 1, 0, 1, 0, 0, 1, 1, 0, 1, 1, 0, 1, 1, 0, 0, 1, 0] twoTurns demoWorld = (twoAnswers, w)"
    "runApart demoApp (\<lambda>_. Done (Some okMessage)) 2 [0, 1, 0, 1, 0, 0, 1, 1, 0, 1, 1, 0, 1, 1, 0, 0, 1, 0] twoTurns demoWorld"
    by (simp_all add: run_simps appendsApart_def)
qed

theorem concurrent_turns_keep_messages_witness:
  "\<exists>w' xs. apartSched demoApp twoTurns demoWorld twoAnswers w' \<and>
     conversation w' ''a'' = ([userMessage demoApp ''hi'', okMessage] @ xs, None) \<and>
     mset xs = {#userMessage demoApp ''bye'', userMessage demoApp ''ciao'', okMessage, okMessage#}"
proof -
  obtain w' where w: "runSched demoApp (\<lambda>_. Done (Some okMessage)) 2 [0, 1, 0, 1, 0, 0, 1, 1, 0, 1, 1, 0, 1, 1, 0, 0, 1, 0] twoTurns demoWorld = (twoAnswers, w')"
    using demo_apart(1) by blast
  have "sched demoApp twoTurns demoWorld twoAnswers w'" using runSched_sched[OF _ w] by simp
  moreover have a: "apartSched demoApp twoTurns demoWorld twoAnswers w'" by (rule runApart_sched[OF demo_apart(2) w])
  ultimately show ?thesis
    using concurrent_turns_keep_messages[OF demoWorld_reach demoWorld_get _, where app = demoApp and w' = w'
        and ins = "[''bye'', ''ciao'']" and ms = "[okMessage, okMessage]"]
    by (auto simp: add_mset_commute)
qed

theorem concurrent_appends_lose_one_witness:
  "\<exists>a ms w1 w'. runSched demoApp (\<lambda>_. Done (Some okMessage)) 2 [0, 1, 0, 1, 0, 1] twoTurns demoWorld =
      ([TurnAppending ''a'' a ms ''bye'', TurnAppending ''a'' a ms ''ciao''], w1) \<and>
     runSched demoApp (\<lambda>_. Done (Some okMessage)) 2 [0, 1, 0, 1, 0, 1, 0, 0, 1, 1, 0, 1]
       [TurnAppending ''a'' a ms ''bye'', TurnAppending ''a'' a ms ''ciao''] w1 = (twoAnswers, w') \<and>
     conversation w' ''a'' = ([userMessage demoApp ''hi'', okMessage, userMessage demoApp ''ciao'', okMessage, okMessage], None) \<and>
     (\<exists>xs. conversation w' ''a'' = ([userMessage demoApp ''hi'', okMessage] @ xs, None) \<and>
       (mset xs \<subseteq># {#userMessage demoApp ''bye'', okMessage, okMessage#} \<or> mset xs \<subseteq># {#userMessage demoApp ''ciao'', okMessage, okMessage#}))"
proof -
  let ?run = "runSched demoApp (\<lambda>_. Done (Some okMessage)) 2" and ?ms = "Some [userMessage demoApp ''hi'', okMessage]"
  obtain a where c: "mw_data demoWorld ''a'' = Some a" "mw_heap demoWorld a = Some \<lparr>se_ID = ''a'',
    se_Messages = ?ms, se_PendingApproval = None, se_Updated = 1\<rparr>"
    by (rule demoWorld_cell)
  let ?ts = "[TurnAppending ''a'' a ?ms ''bye'', TurnAppending ''a'' a ?ms ''ciao'']"
  have 1: "?run [0, 1, 0, 1, 0, 1] twoTurns demoWorld = (?ts, demoWorld)" using c by (simp add: run_simps)
  obtain w' where 2: "?run [0, 1, 0, 1, 0, 1, 0, 0, 1, 1, 0, 1] ?ts demoWorld = (twoAnswers, w')"
    and 3: "conversation w' ''a'' = ([userMessage demoApp ''hi'', okMessage, userMessage demoApp ''ciao'', okMessage, okMessage], None)"
    using c by (simp add: run_simps conversation_def orFresh_def mem_get_def)
  have s: "sched demoApp twoTurns demoWorld ?ts demoWorld" "sched demoApp ?ts demoWorld twoAnswers w'"
    using runSched_sched[OF _ 1] runSched_sched[OF _ 2] by simp_all
  from concurrent_appends_lose_one[OF demoWorld_reach demoWorld_get _ s] 1 2 3 show ?thesis by auto
qed

theorem concurrent_first_turns_lose_one_witness:
  "\<exists>w'. runSched demoApp (\<lambda>_. Done (Some okMessage)) 1 ([0, 1] @ [0, 1, 0, 1, 0, 1, 0, 1, 0, 1, 0, 1, 0, 1, 0, 1]) (map (TurnCalled ''a'') [''bye'', ''ciao'']) NewInMemoryStore =
      ([TurnReturned ''a'' (Done okMessage), TurnReturned ''a'' (Done okMessage)], w') \<and>
     (conversation w' ''a'' = ([userMessage demoApp ''bye'', okMessage], None) \<or>
      conversation w' ''a'' = ([userMessage demoApp ''ciao'', okMessage], None))"
proof -
  let ?two = "[TurnReturned ''a'' (Done okMessage), TurnReturned ''a'' (Done okMessage)]"
  let ?run = "runSched demoApp (\<lambda>_. Done (Some okMessage)) 1"
  define w1 :: "unit memWorld" where "w1 = snd (InMemoryStore_Load NewInMemoryStore ''a'')"
  define w2 where "w2 = snd (InMemoryStore_Load w1 ''a'')"
  have l: "InMemoryStore_Load NewInMemoryStore ''a'' = (Ok 0, w1)" "InMemoryStore_Load w1 ''a'' = (Ok 1, w2)"
    by (simp_all add: w1_def w2_def InMemoryStore_Load_def NewInMemoryStore_def)
  have "\<exists>w'. ?run [0, 1, 0, 1, 0, 1, 0, 1, 0, 1, 0, 1, 0, 1, 0, 1] [TurnLoaded ''a'' 0 ''bye'', TurnLoaded ''a'' 1 ''ciao''] w2 = (?two, w')"
    unfolding w1_def w2_def
    by (simp add: op_defs InMemoryStore_Load_def NewInMemoryStore_def freshSession_def addMessage_def Let_def mem_poke_def persist_def InMemoryStore_Save_def)
  then obtain w' where w: "?run [0, 1, 0, 1, 0, 1, 0, 1, 0, 1, 0, 1, 0, 1, 0, 1] [TurnLoaded ''a'' 0 ''bye'', TurnLoaded ''a'' 1 ''ciao''] w2 = (?two, w')"
    by blast
  then have "sched demoApp [TurnLoaded ''a'' 0 ''bye'', TurnLoaded ''a'' 1 ''ciao''] w2 ?two w'"
    by (rule runSched_sched[rotated]) simp
  from concurrent_first_turns_lose_one[OF session_reach.start _ l this]
  have c: "conversation w' ''a'' = ([userMessage demoApp ''bye'', okMessage], None) \<or>
      conversation w' ''a'' = ([userMessage demoApp ''ciao'', okMessage], None)"
    by (simp add: mem_get_def NewInMemoryStore_def)
  have "?run ([0, 1] @ [0, 1, 0, 1, 0, 1, 0, 1, 0, 1, 0, 1, 0, 1, 0, 1]) (map (TurnCalled ''a'') [''bye'', ''ciao'']) NewInMemoryStore = (?two, w')"
  proof -
    have "?run [0, 1] (map (TurnCalled ''a'') [''bye'', ''ciao'']) NewInMemoryStore = ([TurnLoaded ''a'' 0 ''bye'', TurnLoaded ''a'' 1 ''ciao''], w2)"
      using l by (simp add: afterLoad_def)
    then show ?thesis unfolding runSched_append using w by simp
  qed
  with c show ?thesis by simp
qed

theorem concurrent_sessions_isolated_witness:
  "\<exists>t w2. opStep demoApp (\<lambda>_. Done None) 2 (TurnCalled ''b'' ''yo'') demoWorld = (t, w2) \<and> opSession t = ''b'' \<and>
     mem_get w2 ''a'' = mem_get demoWorld ''a''"
proof -
  obtain t w2 where t: "opStep demoApp (\<lambda>_. Done None) 2 (TurnCalled ''b'' ''yo'') demoWorld = (t, w2)" by fastforce
  then show ?thesis
    using concurrent_sessions_isolated[OF demoWorld_reach _ sched.idle[of demoApp "[TurnCalled ''b'' ''yo'']"], of 0 "\<lambda>_. Done None" 2 t w2 _ _ "''a''"]
    by auto
qed

section \<open>A late resumption that runs\<close>







end
