(* ===== verification/ForgeText.thy ===== *)
theory ForgeText
  imports SpecTypes GoTime GoJson
begin

text \<open>
  The text of an error, what its \<^verbatim>\<open>Error\<close> method returns. The rest of the development keeps an error as
  it is constructed: a sentinel, or a format with its operands. This theory gives the sentinels their
  messages and formats the rest as \<^verbatim>\<open>fmt.Errorf\<close> does, for the verbs the program uses: \<open>%s\<close>, \<open>%q\<close>,
  \<open>%d\<close>, \<open>%v\<close>, \<open>%T\<close> and \<open>%w\<close>. Formatting is partial: a verb without an operand, an operand without
  a verb, or one of another type has no text here (Go prints a diagnostic such as \<open>%!d(string=x)\<close> into the
  message). \<open>renders\<close> says that an error has a text, and the rules of the last section carry it through
  the error plumbing of the model. Which runes are printable, \<^verbatim>\<open>strconv.IsPrint\<close>, is a table of the
  standard library and an argument.
\<close>

section \<open>Sentinels\<close>

type_synonym printing = "nat \<Rightarrow> bool"

definition registryErrorText :: "sentinel \<rightharpoonup> string" where
  "registryErrorText s = (case s of
       ErrRegistryFrozen \<Rightarrow> Some ''registry: frozen, cannot register after Build''
     | ErrDuplicate \<Rightarrow> Some ''registry: duplicate (kind, id)''
     | ErrNotFound \<Rightarrow> Some ''registry: factory not found''
     | ErrKindMismatch \<Rightarrow> Some ''registry: id registered under different kind''
     | _ \<Rightarrow> None)"

definition specErrorText :: "sentinel \<rightharpoonup> string" where
  "specErrorText s = (case s of
       ErrValidation \<Rightarrow> Some ''spec validation failed''
     | ErrNoSpecStore \<Rightarrow> Some ''forge: extends present but no SpecStore configured''
     | ErrSpecNotFound \<Rightarrow> Some ''spec store: ref not found''
     | ErrExtendsInvalid \<Rightarrow> Some ''extends: invalid''
     | ErrLockedFieldOverride \<Rightarrow> Some ''locked field overridden''
     | ErrPhaseGatedInOverlay \<Rightarrow> Some ''phase-gated field in overlay''
     | ErrCompositionLimit \<Rightarrow> Some ''composition limit exceeded''
     | _ \<Rightarrow> None)"

definition routerErrorText :: "sentinel \<rightharpoonup> string" where
  "routerErrorText s = (case s of
       ErrToolNameCollision \<Rightarrow> Some ''tool name collision across tool packs''
     | ErrToolNotFound \<Rightarrow> Some ''tool not found in router''
     | ErrToolNameReservedPrefix \<Rightarrow> Some ''tool name uses reserved prefix mcp''
     | _ \<Rightarrow> None)"

definition budgetErrorText :: "sentinel \<rightharpoonup> string" where
  "budgetErrorText s = (case s of ErrBudgetLoosening \<Rightarrow> Some ''budget override loosens a profile ceiling'' | _ \<Rightarrow> None)"

definition filterErrorText :: "sentinel \<rightharpoonup> string" where
  "filterErrorText s = (case s of ErrFilterBlocked \<Rightarrow> Some ''filter: stage blocked'' | _ \<Rightarrow> None)"

text \<open>Errors of other packages: \<^verbatim>\<open>path/filepath\<close>, \<^verbatim>\<open>context\<close>, and whatever an argument of the model returns.\<close>

definition libraryErrorText :: "sentinel \<rightharpoonup> string" where
  "libraryErrorText s = (case s of
       ErrBadPattern \<Rightarrow> Some ''syntax error in pattern''
     | CtxCanceled \<Rightarrow> Some ''context canceled''
     | CtxDeadlineExceeded \<Rightarrow> Some ''context deadline exceeded''
     | ErrExternal t \<Rightarrow> Some t
     | _ \<Rightarrow> None)"

definition sentinelText :: "sentinel \<rightharpoonup> string" where
  "sentinelText = registryErrorText ++ specErrorText ++ routerErrorText ++ budgetErrorText ++ filterErrorText ++ libraryErrorText"

lemma sentinelText_named: "\<exists>t. sentinelText s = Some t"
  by (cases s) (simp_all add: sentinelText_def map_add_def registryErrorText_def specErrorText_def routerErrorText_def
      budgetErrorText_def filterErrorText_def libraryErrorText_def)

section \<open>Verbs\<close>

text \<open>\<^verbatim>\<open>%q\<close>: the first rune of a non-empty string as \<^verbatim>\<open>strconv.Quote\<close> writes it.\<close>

definition quoteRune :: "printing \<Rightarrow> string \<Rightarrow> string" where
  "quoteRune pr s =
     (let (r, w) = decode_rune s; c = hd s; hex = (\<lambda>n k. map (\<lambda>i. hexDigit (n div 16 ^ i)) (rev [0..<k])) in
      if badRune s then backslash # CHR ''x'' # hex (byte c) 2
      else if r = 34 \<or> r = 92 then [backslash, c]
      else if pr r then take w s
      else if r = 7 then backslash # ''a'' else if r = 8 then backslash # ''b'' else if r = 12 then backslash # ''f''
      else if r = 10 then backslash # ''n'' else if r = 13 then backslash # ''r'' else if r = 9 then backslash # ''t''
      else if r = 11 then backslash # ''v''
      else if r < 32 \<or> r = 127 then backslash # CHR ''x'' # hex r 2
      else if r < 65536 then backslash # CHR ''u'' # hex r 4
      else backslash # CHR ''U'' # hex r 8)"

function quoteRunes :: "printing \<Rightarrow> string \<Rightarrow> string" where
  "quoteRunes pr [] = []"
| "quoteRunes pr (c # cs) = quoteRune pr (c # cs) @ quoteRunes pr (drop (snd (decode_rune (c # cs))) (c # cs))"
  by pat_completeness auto
termination
  by (relation "measure (\<lambda>(_, s). length s)") (use decode_rune_width_pos in \<open>auto intro!: diff_less\<close>)

definition Quote :: "printing \<Rightarrow> string \<Rightarrow> string" where
  "Quote pr s = CHR 0x22 # quoteRunes pr s @ [CHR 0x22]"

text \<open>\<^verbatim>\<open>%v\<close> of a \<^verbatim>\<open>time.Duration\<close>, in the unit its size calls for and without trailing zeros.\<close>

definition fracText :: "nat \<Rightarrow> nat \<Rightarrow> string" where
  "fracText prec v =
     (let ds = rev (dropWhile (\<lambda>c. c = CHR ''0'') (map (\<lambda>k. digitChar (v div 10 ^ k)) [0..<prec]))
      in if ds = [] then [] else CHR ''.'' # ds)"

definition secondsText :: "nat \<Rightarrow> string" where
  "secondsText u =
     (let s = u div 10 ^ 9; m = s div 60; h = m div 60 in
      (if h > 0 then decNat h @ ''h'' else []) @ (if m > 0 then decNat (m mod 60) @ ''m'' else []) @
      decNat (s mod 60) @ fracText 9 u @ ''s'')"

definition durationText :: "int \<Rightarrow> string" where
  "durationText d =
     (let u = nat \<bar>d\<bar>; sign = (if d < 0 then ''-'' else []) in
      sign @ (if u = 0 then ''0s''
        else if u < 10 ^ 3 then decNat u @ ''ns''
        else if u < 10 ^ 6 then decNat (u div 10 ^ 3) @ fracText 3 u @ [CHR 0xC2, CHR 0xB5, CHR ''s'']
        else if u < 10 ^ 9 then decNat (u div 10 ^ 6) @ fracText 6 u @ ''ms''
        else secondsText u))"

text \<open>\<^verbatim>\<open>%T\<close>.\<close>

fun typeName :: "goval \<Rightarrow> string" where
  "typeName VNil = ''<nil>''" | "typeName (VBool _) = ''bool''" | "typeName (VInt _) = ''int''"
| "typeName (VInt64 _) = ''int64''" | "typeName (VFloat64 _) = ''float64''" | "typeName (VString _) = ''string''"
| "typeName (VSlice _) = ''[]interface {}''" | "typeName (VStrings _) = ''[]string''"
| "typeName (VMap _) = ''map[string]interface {}''" | "typeName (VOther ty) = ty"

section \<open>Sprintf\<close>

text \<open>Every verb is a percent sign and one letter; an operand is what it prints under a verb.\<close>

fun weave :: "string \<Rightarrow> (char \<Rightarrow> string option) list \<Rightarrow> string option" where
  "weave [] as = (if as = [] then Some [] else None)"
| "weave (c # f) as =
     (if c \<noteq> CHR ''%'' then map_option (Cons c) (weave f as)
      else case (f, as) of
        (v # f, a # as) \<Rightarrow> (case (a v, weave f as) of (Some t, Some r) \<Rightarrow> Some (t @ r) | _ \<Rightarrow> None)
      | _ \<Rightarrow> None)"

fun joinText :: "string \<Rightarrow> string option list \<Rightarrow> string option" where
  "joinText sep [] = Some []"
| "joinText sep [t] = t"
| "joinText sep (t # u # ts) = (case (t, joinText sep (u # ts)) of (Some a, Some b) \<Rightarrow> Some (a @ sep @ b) | _ \<Rightarrow> None)"

definition ExtendsError_Error :: "string list \<Rightarrow> string \<Rightarrow> string" where
  "ExtendsError_Error chain reason = ''extends: '' @ reason @ '' detected through chain ['' @ join chain '' -> '' @ '']''"

fun errorText :: "printing \<Rightarrow> gerror \<Rightarrow> string option"
  and argText :: "printing \<Rightarrow> garg \<Rightarrow> char \<Rightarrow> string option" where
  "errorText pr (Sentinel s) = sentinelText s"
| "errorText pr (Errorf f as) = weave f (map (argText pr) as)"
| "errorText pr (ErrorsAgg msgs ss) =
     (case (sentinelText ErrValidation, joinText ''; '' (map (\<lambda>m. argText pr m CHR ''s'') msgs)) of
        (Some v, Some t) \<Rightarrow> Some (v @ '': '' @ t) | _ \<Rightarrow> None)"
| "errorText pr (ExtendsError chain reason) =
     Some (ExtendsError_Error chain reason)"
| "argText pr (AStr s) v = (if v = CHR ''s'' then Some s else if v = CHR ''q'' then Some (Quote pr s) else None)"
| "argText pr (AInt i) v = (if v = CHR ''d'' then Some (decInt i) else if v = CHR ''v'' then Some (durationText i) else None)"
| "argText pr (AVal x) v = (if v = CHR ''T'' then Some (typeName x) else None)"
| "argText pr (AStrs ss) v = (if v = CHR ''v'' then Some (''['' @ join ss '' '' @ '']'') else None)"
| "argText pr (AFmt f as) v = (if v = CHR ''s'' then weave f (map (argText pr) as) else None)"
| "argText pr (AErr e) v = (if v = CHR ''s'' \<or> v = CHR ''v'' then errorText pr e else None)"
| "argText pr (AWrap e) v = (if v = CHR ''w'' then errorText pr e else None)"

section \<open>Formats that fit\<close>

text \<open>An error renders when every verb has an operand of its kind and no operand is left over.\<close>

definition renders :: "printing \<Rightarrow> gerror \<Rightarrow> bool" where
  "renders pr e \<longleftrightarrow> errorText pr e \<noteq> None"

definition argRenders :: "printing \<Rightarrow> garg \<Rightarrow> char \<Rightarrow> bool" where
  "argRenders pr a v \<longleftrightarrow> argText pr a v \<noteq> None"

definition fits :: "printing \<Rightarrow> string \<Rightarrow> garg list \<Rightarrow> bool" where
  "fits pr f as \<longleftrightarrow> weave f (map (argText pr) as) \<noteq> None"

lemma fits_simps [simp]:
  "fits pr [] [] = True" "fits pr [] (a # as) = False"
  "c \<noteq> CHR ''%'' \<Longrightarrow> fits pr (c # f) as = fits pr f as"
  "fits pr (CHR ''%'' # v # f) (a # as) = (argRenders pr a v \<and> fits pr f as)"
  "fits pr (CHR ''%'' # f) [] = False" "fits pr [CHR ''%''] as = False"
  by (auto simp: fits_def argRenders_def split: option.splits list.splits)

lemma fits_plain: "CHR ''%'' \<notin> set p \<Longrightarrow> fits pr (p @ f) as = fits pr f as"
  by (induction p) auto

lemma argRenders_simps [simp]:
  "argRenders pr (AStr s) v \<longleftrightarrow> v = CHR ''s'' \<or> v = CHR ''q''"
  "argRenders pr (AInt i) v \<longleftrightarrow> v = CHR ''d'' \<or> v = CHR ''v''"
  "argRenders pr (AVal x) v \<longleftrightarrow> v = CHR ''T''"
  "argRenders pr (AStrs ss) v \<longleftrightarrow> v = CHR ''v''"
  "argRenders pr (AFmt f as) v \<longleftrightarrow> v = CHR ''s'' \<and> fits pr f as"
  "argRenders pr (AErr e) v \<longleftrightarrow> (v = CHR ''s'' \<or> v = CHR ''v'') \<and> renders pr e"
  "argRenders pr (AWrap e) v \<longleftrightarrow> v = CHR ''w'' \<and> renders pr e"
  by (simp_all add: argRenders_def fits_def renders_def)

lemma joinText_None: "joinText sep ts \<noteq> None \<longleftrightarrow> list_all (\<lambda>t. t \<noteq> None) ts"
proof (induction sep ts rule: joinText.induct)
  case (3 sep t u ts)
  then show ?case by (cases t; cases "joinText sep (u # ts)") simp_all
qed simp_all

lemma renders_simps [simp]:
  "renders pr (Sentinel s)" "renders pr (ExtendsError ch r)"
  "renders pr (Errorf f as) = fits pr f as"
  "renders pr (ErrorsAgg msgs ss) = list_all (\<lambda>m. argRenders pr m CHR ''s'') msgs"
proof -
  show "renders pr (ErrorsAgg msgs ss) = list_all (\<lambda>m. argRenders pr m CHR ''s'') msgs"
    using joinText_None[of "''; ''" "map (\<lambda>m. argText pr m CHR ''s'') msgs"] sentinelText_named[of ErrValidation]
    by (auto simp: renders_def argRenders_def list_all_iff split: option.splits)
  show "renders pr (Sentinel s)" using sentinelText_named[of s] by (auto simp: renders_def)
qed (simp_all add: renders_def fits_def)

text \<open>A computation whose error, if it fails, has a text.\<close>

definition rendersR :: "printing \<Rightarrow> 'a result \<Rightarrow> bool" where
  "rendersR pr r \<longleftrightarrow> (\<forall>e. r = Err e \<longrightarrow> renders pr e)"

lemma rendersR_simps [simp]:
  "rendersR pr (Ok x)" "rendersR pr (Panic p)" "rendersR pr (Err e) = renders pr e"
  by (simp_all add: rendersR_def)

lemma rendersR_bindR [intro]:
  "rendersR pr r \<Longrightarrow> (\<And>x. r = Ok x \<Longrightarrow> rendersR pr (f x)) \<Longrightarrow> rendersR pr (bindR r f)"
  by (cases r) simp_all

lemma rendersR_wrapErr [intro]:
  "rendersR pr r \<Longrightarrow> (\<And>e. renders pr e \<Longrightarrow> renders pr (g e)) \<Longrightarrow> rendersR pr (wrapErr g r)"
  by (cases r) simp_all

lemma rendersR_loopR: "(\<And>j x. x \<in> set xs \<Longrightarrow> rendersR pr (f j x)) \<Longrightarrow> rendersR pr (loopR f i xs)"
  by (induction xs arbitrary: i) (auto intro!: rendersR_bindR)

lemma rendersR_foldR: "(\<And>j x s. x \<in> set xs \<Longrightarrow> rendersR pr (f j x s)) \<Longrightarrow> rendersR pr (foldR f i xs s)"
  by (induction xs arbitrary: i s) (auto intro!: rendersR_bindR)

lemma rendersR_seqR: "(\<And>r. r \<in> set rs \<Longrightarrow> rendersR pr r) \<Longrightarrow> rendersR pr (seqR rs)"
  by (induction rs) (auto intro!: rendersR_bindR)

end
