(* ===== verification/ForgeErrors.thy ===== *)
theory ForgeErrors
  imports ForgeText ForgeFacade
begin

text \<open>
  The errors of a build render: in every format the spec and build packages use, the verbs match the
  operands. One lemma per operation, from validation to \<open>forge_Build\<close>; the errors of registered
  factories, of a spec store, of the context and of the orchestrator's constructor come from outside, and
  that they render is a premise.
\<close>

section \<open>spec: validation and normalization\<close>

definition msgsRender :: "printing \<Rightarrow> Errors \<Rightarrow> bool" where
  "msgsRender pr errs \<longleftrightarrow> list_all (\<lambda>m. argRenders pr m CHR ''s'') (er_msgs errs)"

lemma msgsRender_simps [simp]:
  "msgsRender pr noErrors"
  "msgsRender pr (Addf f as errs) \<longleftrightarrow> msgsRender pr errs \<and> fits pr f as"
  "msgsRender pr (Wrap s f as errs) \<longleftrightarrow> msgsRender pr errs \<and> fits pr f as"
  by (simp_all add: msgsRender_def)

lemma msgsRender_OrNil: "msgsRender pr errs \<Longrightarrow> OrNil errs = Some e \<Longrightarrow> renders pr e"
  by (auto simp: OrNil_def msgsRender_def split: if_splits)

lemma msgsRender_whenE: "msgsRender pr e \<Longrightarrow> msgsRender pr (f e) \<Longrightarrow> msgsRender pr (whenE b f e)"
  by (simp add: whenE_def)

lemma msgsRender_forE: "(\<And>i x e. msgsRender pr e \<Longrightarrow> msgsRender pr (f i x e)) \<Longrightarrow> msgsRender pr e \<Longrightarrow> msgsRender pr (forE f i xs e)"
  by (induction xs arbitrary: i e) auto

lemma ParseID_renders [simp]: "rendersR pr (ParseID s)"
  by (simp add: ParseID_def split: option.split)

lemma ParseID_Err: "ParseID s = Err e \<Longrightarrow> renders pr e"
  using ParseID_renders[of pr s] by (simp del: ParseID_renders)

lemma validateRef_renders:
  "msgsRender pr e \<Longrightarrow> argRenders pr f CHR ''s'' \<Longrightarrow> msgsRender pr (validateRef f ref e)"
  "msgsRender pr e \<Longrightarrow> argRenders pr f CHR ''s'' \<Longrightarrow> msgsRender pr (validateKindPrefixedRef f ref p e)"
  by (auto simp: validateRef_def validateKindPrefixedRef_def ParseID_Err split: result.split)

lemma dupTools_renders: "msgsRender pr e \<Longrightarrow> msgsRender pr (dupTools seen i ts e)"
  by (induction seen i ts e rule: dupTools.induct) (auto split: option.splits)

lemma refLoop_renders:
  "msgsRender pr e \<Longrightarrow> (\<And>i. fits pr f [AInt i]) \<Longrightarrow> msgsRender pr (refLoop f xs e)"
  unfolding refLoop_def by (rule msgsRender_forE) (auto simp: idxField_def intro!: validateRef_renders)

lemma optRef_renders: "msgsRender pr e \<Longrightarrow> msgsRender pr (optRef g f x e)"
  by (auto simp: optRef_def intro!: validateRef_renders split: option.split)

lemma Match_empty_renders: "Match_empty s = Some e \<Longrightarrow> renders pr e"
  by (auto simp: Match_empty_def split: if_splits prod.splits)

lemma validateMCP_renders:
  assumes "argRenders pr f CHR ''s''" "msgsRender pr e"
  shows "msgsRender pr (validateMCPConnection f conn e)" "msgsRender pr (validateMCPOnNewTool f v e)"
    "msgsRender pr (validateMCPAuth f auth e)" "msgsRender pr (validateGlobList f ps e)"
proof -
  have "msgsRender pr (validateGlob f i p e)" if "msgsRender pr e" for i p e
    using that assms(1) by (auto simp: validateGlob_def Match_empty_renders split: option.split)
  then show "msgsRender pr (validateGlobList f ps e)"
    using assms(2) unfolding validateGlobList_def by (intro msgsRender_forE)
qed (use assms in \<open>auto simp: validateMCPConnection_def validateMCPOnNewTool_def validateMCPAuth_def Let_def intro!: msgsRender_whenE\<close>)

lemma sub_renders: "CHR ''%'' \<notin> set s \<Longrightarrow> argRenders pr f CHR ''s'' \<Longrightarrow> argRenders pr (sub f s) CHR ''s''"
  using fits_plain[of s pr "[]" "[]"] by (simp add: sub_def)

lemma mcpField_renders: "argRenders pr (mcpField i) CHR ''s''"
  by (simp add: mcpField_def)

lemma validateMCPBody_renders: "msgsRender pr e \<Longrightarrow> msgsRender pr (validateMCPBody i cfg e)"
  unfolding validateMCPBody_def Let_def by (intro validateMCP_renders sub_renders mcpField_renders) auto

lemma validateMCPLoop_renders: "msgsRender pr e \<Longrightarrow> msgsRender pr (validateMCPLoop seen i refs e)"
  by (induction seen i refs e rule: validateMCPLoop.induct)
    (auto simp: Let_def mcpField_renders validateMCPBody_renders split: option.split)

lemma msgsRender_Let:
  "msgsRender pr e \<Longrightarrow> (\<And>x. msgsRender pr x \<Longrightarrow> msgsRender pr (f x)) \<Longrightarrow> msgsRender pr (Let e f)"
  by simp

lemma Validate_renders: "Validate s = Some e \<Longrightarrow> renders pr e"
proof -
  have p: "msgsRender pr e \<Longrightarrow> msgsRender pr (forE (\<lambda>i mi. validateKindPrefixedRef (idxField f i) (cr_Ref mi) p) 0 xs e)"
    if "\<And>i. fits pr f [AInt i]" for f p xs e
    using that by (intro msgsRender_forE validateRef_renders) (auto simp: idxField_def)
  have prompt: "msgsRender pr (case x of None \<Rightarrow> Addf ''prompt.system: required'' [] errs
      | Some r \<Rightarrow> if cr_Ref r = [] then Addf ''prompt.system: required'' [] errs
          else validateRef (AStr ''prompt.system.ref'') (cr_Ref r) errs)" if "msgsRender pr errs" for x errs
    using that by (simp add: validateRef_renders split: option.split)
  have contract: "msgsRender pr (case x of None \<Rightarrow> errs
      | Some oc \<Rightarrow> validateKindPrefixedRef (AStr ''outputContract.ref'') (cr_Ref oc) ''outputcontract.'' errs)"
    if "msgsRender pr errs" for x errs
    using that by (simp add: validateRef_renders split: option.split)
  have mcp: "msgsRender pr (validateMCPImportsStructure refs errs)" if "msgsRender pr errs" for refs errs
    using that by (simp add: validateMCPImportsStructure_def validateMCPLoop_renders)
  have "msgsRender pr (validateErrs s noErrors)"
    unfolding validateErrs_def
    by (intro msgsRender_Let msgsRender_whenE validateRef_renders refLoop_renders optRef_renders prompt contract mcp p dupTools_renders)
      simp_all
  then show "Validate s = Some e \<Longrightarrow> renders pr e" unfolding Validate_def by (rule msgsRender_OrNil)
qed

lemma scanLockedDrift_renders: "msgsRender pr e \<Longrightarrow> msgsRender pr (scanLockedDrift s i ovs e)"
  by (induction s i ovs e rule: scanLockedDrift.induct)
    (auto simp: scanOne_def lockedField_def lockedMsg_def Let_def split: option.split)

lemma walk_renders:
  "(\<And>n ref. rendersR pr (store ctx n ref)) \<Longrightarrow> (\<And>n e. ctx n = Some e \<Longrightarrow> renders pr e) \<Longrightarrow>
     rendersR pr (walk store ctx node depth path st)"
proof (induction store ctx node depth path st rule: walk.induct)
  case (1 store ctx node depth path st)
  let ?rec = "\<lambda>parent. walk store ctx parent (depth + 1)"
  show ?case
  proof (cases "ctx (w_clock st) = None \<and> \<not> depth > MaxExtendsDepth \<and> node \<noteq> None")
    case False
    then show ?thesis using "1.prems"(2) by (subst walk.simps) (auto split: option.splits)
  next
    case True
    then obtain s where c: "ctx (w_clock st) = None" and d: "\<not> depth > MaxExtendsDepth" and n: "node = Some s" by auto
    have rec: "rendersR pr (?rec p q t)" for p q t
      using "1.IH"[OF c refl d n] "1.prems" by blast
    have "rendersR pr (walkStep store ctx ?rec path r t)" for r t
      using "1.prems"(1) rec
      by (auto simp: walkStep_def Let_def resolveErr_def intro!: rendersR_bindR rendersR_wrapErr split: option.split)
    then show ?thesis
      using c d n by (subst walk.simps) (auto intro: rendersR_foldR)
  qed
qed

lemma applyOverlays_renders [simp]: "rendersR pr (applyOverlays ovs st)"
  by (simp add: applyOverlays_def)

lemma Normalize_renders:
  assumes "\<And>ld n ref. store = Some ld \<Longrightarrow> rendersR pr (ld ctx n ref)" "\<And>n e. ctx n = Some e \<Longrightarrow> renders pr e"
  shows "rendersR pr (Normalize ctx base ovs store)"
proof (cases base)
  case (Some s)
  have "rendersR pr (resolveExtendsChain ctx s store)"
    using assms by (auto simp: resolveExtendsChain_def intro!: walk_renders rendersR_bindR split: option.split)
  moreover have "renders pr e" if "OrNil (scanLockedDrift s 0 ovs noErrors) = Some e" for e
    using msgsRender_OrNil[OF scanLockedDrift_renders that] by simp
  ultimately show ?thesis unfolding Some
    by (auto simp: Normalize_def Validate_renders intro!: rendersR_bindR split: option.split prod.split)
qed (simp add: Normalize_def)

section \<open>build\<close>

text \<open>Registered factories whose errors render.\<close>

definition tableRenders :: "printing \<Rightarrow> 'v table \<Rightarrow> bool" where
  "tableRenders pr t \<longleftrightarrow> (\<forall>cid f ctx cfg. t cid = Some f \<longrightarrow> rendersR pr (f_Build f ctx cfg))"

definition registryRenders :: "printing \<Rightarrow> 'h ComponentRegistry \<Rightarrow> bool" where
  "registryRenders pr r \<longleftrightarrow> tableRenders pr (providers r) \<and> tableRenders pr (promptAssets r) \<and> tableRenders pr (toolPacks r) \<and>
     tableRenders pr (policyPacks r) \<and> tableRenders pr (preLLMFilters r) \<and> tableRenders pr (preToolFilters r) \<and>
     tableRenders pr (postToolFilters r) \<and> tableRenders pr (budgetProfiles r) \<and> tableRenders pr (telemetryProfiles r) \<and>
     tableRenders pr (credResolvers r) \<and> tableRenders pr (identitySigners r) \<and> tableRenders pr (skills r) \<and>
     tableRenders pr (outputContracts r) \<and> tableRenders pr (mcpBindings r)"

definition lookupRenders :: "printing \<Rightarrow> (string \<Rightarrow> 'v Factory result) \<Rightarrow> bool" where
  "lookupRenders pr lk \<longleftrightarrow> (\<forall>ref. rendersR pr (lk ref)) \<and> (\<forall>ref f ctx cfg. lk ref = Ok f \<longrightarrow> rendersR pr (f_Build f ctx cfg))"

lemma lookups_render:
  assumes "registryRenders pr r"
  shows "lookupRenders pr (LookupProvider r)" "lookupRenders pr (LookupPromptAsset r)" "lookupRenders pr (LookupToolPack r)"
    "lookupRenders pr (LookupPolicyPack r)" "lookupRenders pr (LookupPreLLMFilter r)" "lookupRenders pr (LookupPreToolFilter r)"
    "lookupRenders pr (LookupPostToolFilter r)" "lookupRenders pr (LookupBudgetProfile r)"
    "lookupRenders pr (LookupTelemetryProfile r)" "lookupRenders pr (LookupCredentialResolver r)"
    "lookupRenders pr (LookupIdentitySigner r)" "lookupRenders pr (LookupSkill r)" "lookupRenders pr (LookupOutputContract r)"
    "lookupRenders pr (LookupMCPBinding r)"
  using assms
  by (auto simp: lookupRenders_def registryRenders_def tableRenders_def lookup_defs notFoundErr_def split: option.splits)

lemma build_renders:
  assumes "lookupRenders pr lk"
  shows "CHR ''%'' \<notin> set slot \<Longrightarrow> CHR ''%'' \<notin> set kind \<Longrightarrow> rendersR pr (buildOne lk ctx slot kind ref cfg)"
    "CHR ''%'' \<notin> set slot \<Longrightarrow> rendersR pr (buildRefs lk ctx slot refs)"
    "CHR ''%'' \<notin> set slot \<Longrightarrow> rendersR pr (buildOpt lk ctx slot o1)"
proof -
  have r: "rendersR pr (buildRef lk ctx rE bE ref cfg)"
    if "\<And>e. renders pr e \<Longrightarrow> renders pr (rE e)" "\<And>e. renders pr e \<Longrightarrow> renders pr (bE e)" for rE bE ref cfg
    using assms that by (auto simp: buildRef_def lookupRenders_def intro!: rendersR_bindR rendersR_wrapErr)
  show one: "rendersR pr (buildOne lk ctx slot kind ref cfg)" if "CHR ''%'' \<notin> set slot" "CHR ''%'' \<notin> set kind" for slot kind ref cfg
    unfolding buildOne_def by (rule r) (use that in \<open>simp_all add: fits_plain\<close>)
  show "rendersR pr (buildRefs lk ctx slot refs)" if "CHR ''%'' \<notin> set slot"
    unfolding buildRefs_def by (intro rendersR_loopR r) (use that in \<open>simp_all add: fits_plain\<close>)
  show "rendersR pr (buildOpt lk ctx slot o1)" if "CHR ''%'' \<notin> set slot"
    using one that by (auto simp: buildOpt_def intro!: rendersR_bindR split: option.split)
qed

lemma resolve_renders: "registryRenders pr r \<Longrightarrow> rendersR pr (resolve ctx s r)"
  unfolding resolve_def
  by (auto intro!: rendersR_bindR build_renders lookups_render split: option.split)

lemma toJSON_renders: "rendersR pr (toJSON mo v)"
proof (induction mo v rule: toJSON.induct)
  case (8 mo vs)
  then show ?case by (auto intro!: rendersR_bindR rendersR_seqR)
next
  case (12 mo kvs)
  have "rendersR pr (toJSON mo (snd x))" if "x \<in> set kvs" for x
    using 12[of x "fst x" "snd x"] that by auto
  then show ?case by (auto intro!: rendersR_bindR rendersR_seqR)
qed (auto simp: marshalErr_def split: option.split)

lemma CanonicalConfigsEqual_renders: "rendersR pr (CanonicalConfigsEqual mo a b)"
  by (auto simp: CanonicalConfigsEqual_def canonicalizeConfig_eq toJSON_renders intro!: rendersR_bindR rendersR_wrapErr)

lemma findExisting_renders: "rendersR pr (findExisting mo k sk rc want refs)"
  by (induction refs) (auto simp: CanonicalConfigsEqual_renders intro!: rendersR_bindR rendersR_wrapErr)

lemma injectRequired_renders: "rendersR pr (injectRequired mo k sk rc st)"
  by (auto simp: injectRequired_def findExisting_renders intro!: rendersR_bindR rendersR_wrapErr)

lemma injectOutputContract_renders: "rendersR pr (injectOutputContract mo sk rc st)"
  by (auto simp: injectOutputContract_def Let_def CanonicalConfigsEqual_renders
      intro!: rendersR_bindR rendersR_wrapErr split: option.split)

lemma expandSkills_renders:
  assumes "registryRenders pr r"
  shows "rendersR pr (expandSkills mo ctx s r)"
proof -
  have "rendersR pr (LookupSkill r ref)" "LookupSkill r ref = Ok f \<Longrightarrow> rendersR pr (f_Build f ctx cfg)" for ref f ctx cfg
    using lookups_render(12)[OF assms] by (auto simp: lookupRenders_def)
  then have "rendersR pr (expandOne mo ctx r i ref st)" for i ref st
    by (auto simp: expandOne_def Let_def injectTools_def injectPolicies_def injectContract_def
        injectRequired_renders injectOutputContract_renders intro!: rendersR_bindR rendersR_wrapErr rendersR_foldR split: option.split)
  then show ?thesis by (auto simp: expandSkills_def intro!: rendersR_bindR rendersR_foldR)
qed

lemma resolveOutputContract_renders:
  assumes "registryRenders pr r"
  shows "rendersR pr (resolveOutputContract ctx es r)"
  using lookups_render(13)[OF assms]
  by (auto simp: resolveOutputContract_def lookupRenders_def intro!: rendersR_bindR rendersR_wrapErr split: option.split)

lemma resolveMCPBindings_renders:
  assumes "registryRenders pr r"
  shows "rendersR pr (resolveMCPBindings ctx s r)"
  using lookups_render(4,10,14)[OF assms]
  by (auto simp: resolveMCPBindings_def resolveMCPBinding_def lookupRenders_def mcpErr_def
      intro!: rendersR_bindR rendersR_wrapErr rendersR_loopR split: option.split)

lemma routePacks_renders: "rendersR pr (routePacks ps st)"
proof -
  have "rendersR pr (routeDefs ivk ds st)" for ivk ds st
    by (induction ivk ds st rule: routeDefs.induct) auto
  then show ?thesis by (induction ps arbitrary: st) (auto intro!: rendersR_bindR)
qed

lemma ParseDuration_renders: "rendersR pr (ParseDuration s)"
proof -
  have c: "rendersR pr (durComponent orig s)" for orig s
    by (auto simp: durComponent_def Let_def durErr_def split: option.split prod.split)
  have "rendersR pr (durLoop orig d s)" for orig d s
  proof (induction orig d s rule: durLoop.induct)
    case (1 orig d s)
    then show ?case using c[of orig s]
      by (subst durLoop.simps) (auto simp: durErr_def split: result.split prod.split)
  qed
  then show ?thesis by (auto simp: ParseDuration_def Let_def durErr_def intro!: rendersR_bindR)
qed

lemma applyBudgetOverrides_renders: "rendersR pr (applyBudgetOverrides d ov)"
proof -
  have t: "rendersR pr (tightenInt64 f a b c)" for f a b c
    by (simp add: tightenInt64_def)
  have "rendersR pr (wallClock d ov out)" for out
    by (simp add: wallClock_def ParseDuration_renders rendersR_bindR rendersR_wrapErr)
  then show ?thesis unfolding applyBudgetOverrides_def Let_def
    by (intro rendersR_bindR t rendersR_simps)
qed

lemma materialize_renders:
  assumes "\<And>p opts. rendersR pr (orchNew p opts)" "rendersR pr (buildManifest mo now (ns_Spec ns) res ns m es)"
  shows "rendersR pr (materialize mo orchNew now ns m es res)"
proof -
  have "rendersR pr (toolOptions res)"
    by (auto simp: toolOptions_def newToolRouter_def routePacks_renders intro!: rendersR_bindR rendersR_wrapErr)
  moreover have "rendersR pr (budgetOptions res)"
    by (auto simp: budgetOptions_def applyBudgetOverrides_renders split: option.split)
  moreover have "rendersR pr (wrapErr (\<lambda>err. Errorf ''orchestrator.New: %w'' [AWrap err]) (orchNew (re_provider res) opts))" for opts
    by (rule rendersR_wrapErr) (use assms(1) in simp_all)
  ultimately show ?thesis
    unfolding materialize_def Let_def by (intro rendersR_bindR) (auto intro!: rendersR_bindR assms(2))
qed

lemma isOk_renders: "isOk r \<Longrightarrow> rendersR pr r"
  by (cases r) simp_all

lemma buildFrozen_renders:
  assumes "registryRenders pr r" "\<And>p opts. rendersR pr (orchNew p opts)"
  shows "rendersR pr (buildFrozen mo orchNew now ctx ns m r)"
  unfolding buildFrozen_def Let_def
  by (intro rendersR_bindR expandSkills_renders resolveOutputContract_renders resolve_renders resolveMCPBindings_renders
      materialize_renders assms isOk_renders buildManifest_isOk stamps_aligned resolve_aligned)

lemma forge_Build_renders:
  assumes "registryRenders pr r" "\<And>p opts. rendersR pr (orchNew p opts)" "\<And>n e. ctx n = Some e \<Longrightarrow> renders pr e"
    "\<And>ld n ref. op_store (collected opts) = Some ld \<Longrightarrow> rendersR pr (ld ctx n ref)"
  shows "rendersR pr (fst (forge_Build mo orchNew now ctx s (Some r) opts))"
proof -
  have "registryRenders pr (Freeze r)" using assms(1) by (simp add: registryRenders_def Freeze_def)
  then have "rendersR pr (buildFrozen mo orchNew now ctx ns freshMemos (Freeze r))" for ns
    by (rule buildFrozen_renders) (rule assms(2))
  then have "rendersR pr (fst (Build mo orchNew now ctx ns freshMemos (Some r)))" for ns by (simp add: Build_Some)
  moreover have "rendersR pr (Normalize ctx s (op_overlays (collected opts)) (op_store (collected opts)))"
    by (rule Normalize_renders) (use assms(3,4) in auto)
  ultimately show ?thesis by (auto simp: forge_Build_cases split: result.split)
qed

end
