(* ===== verification/FactoryErrors.thy ===== *)
theory FactoryErrors
  imports ForgeErrors ExampleDemoRuns
begin

text \<open>
  The errors of the shipped factories render, and with them those of every build over the demo's
  registry; \<open>fatalText\<close> is the line a main function of the examples dies with.
\<close>

text \<open>\<^verbatim>\<open>log.Fatalf\<close> of a format and an error that is not nil, \<^verbatim>\<open>log.Fatal\<close> of an error or a string.\<close>

definition fatalText :: "printing \<Rightarrow> string \<Rightarrow> gerror option \<Rightarrow> string option" where
  "fatalText pr msg err = (case err of None \<Rightarrow> Some msg
     | Some e \<Rightarrow> if msg = [] then errorText pr e else errorText pr (Errorf msg [AErr e]))"

section \<open>The shipped factories\<close>

lemma wrapID_renders: "rendersR pr r \<Longrightarrow> rendersR pr (wrapErr (\<lambda>err. Errorf ''%s: %w'' [AStr fid, AWrap err]) r)"
  by (erule rendersR_wrapErr) simp

lemma provider_prompt_render:
  "rendersR pr (anthropic_Build oor mk fid key cfg)"
  "rendersR pr (promptLiteral_Build fid cfg)"
proof -
  have "rendersR pr (anthropic_decode oor cfg)"
    by (auto simp: anthropic_decode_def split: option.split)
  then show "rendersR pr (anthropic_Build oor mk fid key cfg)"
    by (auto simp: anthropic_Build_def intro!: rendersR_bindR wrapID_renders)
qed (auto simp: promptLiteral_Build_def split: option.split)

lemma tool_policy_render:
  "rendersR pr (httpGet_Build oor ivk fid cfg)"
  "rendersR pr (pii_Build hook fid cfg)"
proof -
  have "rendersR pr (timeoutOf oor cfg)"
    by (auto simp: timeoutOf_def toInt_def intro!: rendersR_bindR rendersR_wrapErr split: option.split)
  moreover have "rendersR pr (hostElem i h)" for i h
    by (auto simp: hostElem_def split: option.split)
  ultimately have "rendersR pr (httpGet_decode oor cfg)"
    by (auto simp: httpGet_decode_def intro!: rendersR_bindR rendersR_loopR split: option.split goval.split)
  then show "rendersR pr (httpGet_Build oor ivk fid cfg)"
    by (auto simp: httpGet_Build_def intro!: rendersR_bindR wrapID_renders)
qed (auto simp: pii_Build_def split: option.split)

lemma filter_render: "rendersR pr (outputTruncate_Build oor fid cfg)"
proof -
  have "rendersR pr (requireInt oor cfg ''maxBytes'')"
    by (auto simp: requireInt_def split: option.split)
  then show ?thesis by (auto simp: outputTruncate_Build_def intro!: rendersR_bindR wrapID_renders)
qed

lemma runtime_render:
  "rendersR pr (slog_Build em en fid cfg)"
  "(\<And>iss l. rendersR pr (mk iss l)) \<Longrightarrow> rendersR pr (identity_Build oor mk fid cfg)"
proof -
  have "rendersR pr (slog_decode cfg)"
    by (auto simp: slog_decode_def split: option.split)
  then show "rendersR pr (slog_Build em en fid cfg)"
    by (auto simp: slog_Build_def intro!: rendersR_bindR wrapID_renders)
  have "rendersR pr (identity_toInt oor v)" for v
    by (auto simp: identity_toInt_def split: option.split)
  then have "rendersR pr (identity_decode oor cfg)"
    by (auto simp: identity_decode_def intro!: rendersR_bindR rendersR_wrapErr split: option.split)
  then show "rendersR pr (identity_Build oor mk fid cfg)" if "\<And>iss l. rendersR pr (mk iss l)"
    using that unfolding identity_Build_def by (intro rendersR_bindR wrapID_renders)
qed

lemma jsonSchema_render: "rendersR pr (jsonSchema_Build fid cfg)"
  by (auto simp: jsonSchema_Build_def split: option.split goval.split)

subsection \<open>MCP bindings\<close>

lemma RegistryParseID_renders: "rendersR pr (RegistryParseID s)"
  by (auto simp: RegistryParseID_def intro!: rendersR_bindR split: option.split)

lemma strings_render: "rendersR pr (stringList raw)" "rendersR pr (stringMap raw)"
proof -
  have "rendersR pr (stringElem i el)" "rendersR pr (stringMapEntry i kv)" for i el kv
    by (auto simp: stringElem_def stringMapEntry_def split: option.split)
  then show "rendersR pr (stringList raw)" "rendersR pr (stringMap raw)"
    by (auto simp: stringList_def stringMap_def intro!: rendersR_bindR rendersR_loopR split: goval.split)
qed

lemma mcp_connection_render: "rendersR pr (decodeConnection fid raw)"
proof -
  have "rendersR pr (wrapErr (\<lambda>err. Errorf ''%s: connection.env: %w'' [AStr fid, AWrap err]) (stringMap v))"
    "rendersR pr (wrapErr (\<lambda>err. Errorf ''%s: connection.headers: %w'' [AStr fid, AWrap err]) (stringMap v))" for v
    by (simp_all add: rendersR_wrapErr strings_render)
  then show ?thesis
    by (simp add: decodeConnection_def Let_def rendersR_bindR split: goval.split option.split result.split)
qed

lemma mcp_auth_render: "rendersR pr (decodeAuth fid raw)"
proof -
  have "rendersR pr (wrapErr (\<lambda>err. Errorf ''%s: auth.credentialRef: %w'' [AStr fid, AWrap err]) (RegistryParseID v))" for v
    by (simp add: rendersR_wrapErr RegistryParseID_renders)
  then show ?thesis by (simp add: decodeAuth_def Let_def rendersR_bindR split: goval.split)
qed

lemma mcp_lists_render: "rendersR pr (decodeGlobList fid fld raw)" "rendersR pr (decodePolicyIDs fid raw)"
proof -
  have c: "rendersR pr (checkGlob fid fld i p)" for i p
    by (simp add: checkGlob_def Match_empty_renders split: option.split)
  have l: "rendersR pr (wrapErr (\<lambda>err. Errorf ''%s: %s: %w'' [AStr fid, AStr fld, AWrap err]) (stringList raw))"
    "rendersR pr (wrapErr (\<lambda>err. Errorf ''%s: policies: %w'' [AStr fid, AWrap err]) (stringList raw))"
    by (simp_all add: rendersR_wrapErr strings_render)
  have p: "rendersR pr (wrapErr (\<lambda>err. Errorf ''%s: policies[%d] %q: %w'' [AStr fid, AInt (int i), AStr s, AWrap err]) (RegistryParseID s))" for i s
    by (simp add: rendersR_wrapErr RegistryParseID_renders)
  show "rendersR pr (decodeGlobList fid fld raw)"
    using l c by (simp add: decodeGlobList_def rendersR_bindR rendersR_loopR)
  show "rendersR pr (decodePolicyIDs fid raw)"
    using l p by (simp add: decodePolicyIDs_def rendersR_bindR rendersR_loopR)
qed

lemma mcp_trust_render: "rendersR pr (decodeTrust fid raw)" "rendersR pr (decodeOnNewTool fid raw)"
proof -
  have "rendersR pr (wrapErr (\<lambda>err. Errorf ''%s: trust.tags: %w'' [AStr fid, AWrap err]) (stringList v))" for v
    by (simp add: rendersR_wrapErr strings_render)
  then show "rendersR pr (decodeTrust fid raw)"
    by (simp add: decodeTrust_def Let_def rendersR_bindR split: goval.split option.split)
qed (simp add: decodeOnNewTool_def split: goval.split)

lemma mcp_render: "rendersR pr (mcp_Build fid cfg)"
proof -
  have "rendersR pr (if b then Err (Errorf f [AStr fid]) else r)" if "fits pr f [AStr fid]" "rendersR pr r" for b f and r :: "'z result"
    using that by simp
  then show ?thesis unfolding mcp_Build_def Let_def
    by (simp add: rendersR_bindR mcp_connection_render mcp_auth_render mcp_lists_render mcp_trust_render)
qed

subsection \<open>The demo's registry\<close>

lemma demo_registry_renders:
  assumes "\<And>iss l. rendersR pr (px_signer px priv iss l)"
  shows "registryRenders pr (demoTables px key priv structured mcpDemo)"
proof -
  have "rendersR pr (okBuild)" if "okBuild = Ok x" for okBuild and x :: 'z using that by simp
  show ?thesis
    unfolding registryRenders_def
    by (simp add: demoTables_def tableRenders_def factory_defs Let_def provider_prompt_render tool_policy_render filter_render
        runtime_render assms jsonSchema_render mcp_render rendersR_bindR budgetDefault_Build_def)
qed

section \<open>Properties\<close>

text \<open>C16. Every error of a build has a text: in whatever way \<open>forge_Build\<close> fails, from validation over
  expansion, resolution and the MCP checks to the budget overrides, each verb of each format finds an operand
  of its type and no operand is left over, so the message never holds one of Go's formatting
  diagnostics. The errors that come from outside (the registered factories, the spec store, the context and
  the orchestrator's constructor) are required to have one.\<close>

theorem forge_Build_errors_render:
  assumes "registryRenders pr r" "\<And>p opts. rendersR pr (orchNew p opts)" "\<And>n e. ctx n = Some e \<Longrightarrow> renders pr e"
    and "\<And>ld n ref. op_store (collected opts) = Some ld \<Longrightarrow> rendersR pr (ld ctx n ref)"
    and "fst (forge_Build mo orchNew now ctx s (Some r) opts) = Err e"
  shows "\<exists>t. errorText pr e = Some t"
proof -
  have "rendersR pr (fst (forge_Build mo orchNew now ctx s (Some r) opts))"
    by (rule forge_Build_renders) (use assms(1-4) in blast)+
  then show ?thesis using assms(5) by (simp add: renders_def)
qed

theorem forge_Build_errors_render_witness:
  "fst (forge_Build (\<lambda>_. None) (\<lambda>p opts. Ok (length opts)) 0 background (Some structuredSpec) (Some (demoTables samplePraxis ''sk-key'' () True False)) []) = Err structuredConflict \<and>
   (\<exists>t. errorText (\<lambda>_. True) structuredConflict = Some t)"
proof -
  have r: "registryRenders (\<lambda>_. True) (demoTables samplePraxis ''sk-key'' () True False)"
    by (rule demo_registry_renders) (simp add: samplePraxis_def)
  show ?thesis
    using forge_Build_errors_render[OF r _ _ _ structured_build, where orchNew = "\<lambda>p opts. Ok (length opts)"]
      structured_build[of "\<lambda>_. None" "\<lambda>p opts. Ok (length opts)" 0]
    by (simp add: background_def collected_def noOptions_def)
qed

text \<open>C39. The demo's \<^verbatim>\<open>-structured\<close> run never gets past the build: the spec file it ships declares the
  json-schema contract with its schema, as the skill's own comment asks, and expansion rejects exactly
  that. Where that file is read and decoded as shipped, the program ends with a fatal message whatever
  praxis, the orchestrator, the agent and the other flag are: without an API key with the one that asks
  for it, and with any key with the one that says the skill's contract requirement conflicts with the
  user's configuration.\<close>

theorem demo_structured_fatal:
  assumes "fs_open fs ''examples/demo/agent-structured.yaml'' = Ok bytes" and "decode bytes = Ok structuredSpec"
  shows "demo_main px zero apiKey priv True mcpDemo fs decode mo orchNew now invoke =
      (if apiKey = [] then Fatal ''ANTHROPIC_API_KEY not set'' None []
       else Fatal ''build: %v'' (Some structuredConflict) []) \<and>
    fatalText pr ''build: %v'' (Some structuredConflict) =
      Some (''build: skill_conflict_output_contract_user_override: skill skill.structured-output@1.0.0'' @
        '' requires outputcontract.json-schema@1.0.0 but user config differs'')"
proof -
  have "forge_LoadSpec fs decode (demoSpecPath True mcpDemo) = Ok structuredSpec"
    using assms by (simp add: forge_LoadSpec_def LoadSpec_def demoSpecPath_def)
  then show ?thesis
    by (simp add: demo_main_def must_def demoRegistry_tables structured_build fatalText_def structuredConflict_def errCodeOutputUserOverride_def)
qed

theorem demo_structured_fatal_witness:
  "demo_main samplePraxis () ''sk-key'' () True False (oneFile ''examples/demo/agent-structured.yaml'') (\<lambda>_. Ok structuredSpec)
     (\<lambda>_. None) (\<lambda>p opts. Ok (length opts)) 0 (\<lambda>o1 req. Ok None) = Fatal ''build: %v'' (Some structuredConflict) [] \<and>
   fatalText (\<lambda>_. True) ''build: %v'' (Some structuredConflict) =
      Some (''build: skill_conflict_output_contract_user_override: skill skill.structured-output@1.0.0'' @
        '' requires outputcontract.json-schema@1.0.0 but user config differs'')"
  using demo_structured_fatal[of "oneFile ''examples/demo/agent-structured.yaml''" "()" "\<lambda>_. Ok structuredSpec" samplePraxis "()" "''sk-key''" "()"
      False "\<lambda>_. None" "\<lambda>p opts. Ok (length opts)" 0 "\<lambda>o1 req. Ok None" "\<lambda>_. True"]
  by (simp add: oneFile_def)

end
