(* ===== verification/Spec2Isabelle.thy ===== *)
theory Spec2Isabelle
  imports GoGlob RegistryLog BuildManifest SpecOverlayYaml ExampleRuns ExampleConcurrent FactoryErrors
begin

text \<open>
  A model of \<^verbatim>\<open>praxis-forge\<close>: a Go library that turns a declarative agent spec (a base, the
  parents it extends and overlays) and a registry of component factories into a wired agent with
  a manifest, together with the factories it ships and the examples that show its use.

  \<^bold>\<open>The program.\<close> \<^verbatim>\<open>forge.Build\<close> (\<^verbatim>\<open>forge.go\<close>) calls \<^verbatim>\<open>spec.Normalize\<close> and then
  \<^verbatim>\<open>build.Build\<close>. Normalizing resolves the extends chain through a spec store, merges parents,
  base and overlays layer by layer with provenance, rejects overlays of locked fields, validates the
  result and gives it a canonical JSON form and a hash. Building freezes the registry, expands
  skills into the components they require, looks up and builds every component, composes the runtime
  chains (tool router, policy chain, filter chains, tightened budget) and writes the manifest.

  \<^bold>\<open>Conventions\<close> (theory \<open>ForgePrelude\<close>). A Go call has a result: a value, an error or a panic. Slices
  that may be nil are list options; maps are association lists whose order stands for Go's
  unspecified iteration order; configuration values are the datatype \<open>goval\<close> of dynamic types. Errors
  are kept as format string and arguments, \<^verbatim>\<open>errors.Is\<close> follows the \<^verbatim>\<open>%w\<close> operands, and \<open>ForgeText\<close> renders them.
  \<^verbatim>\<open>int\<close> and \<^verbatim>\<open>int64\<close> are 64-bit words read as signed.

  \<^bold>\<open>Theories and sources\<close> (paths under \<^verbatim>\<open>src/\<close>).
  \<^item> \<open>SpecTypes\<close>, \<open>SpecIds\<close>: \<^verbatim>\<open>spec/types.go\<close>, \<^verbatim>\<open>spec/overlay.go\<close>, \<^verbatim>\<open>spec/provenance.go\<close>,
    \<^verbatim>\<open>spec/errors.go\<close>, \<^verbatim>\<open>spec/ids.go\<close>, \<^verbatim>\<open>registry/id.go\<close>. An id splits in one way only.
  \<^item> \<open>SpecMerge\<close>, \<open>SpecOverlays\<close>: \<^verbatim>\<open>spec/merge.go\<close> and the layering of \<^verbatim>\<open>spec/normalize.go\<close>. The
    merge of a chain and the application of overlays are shown to be \<^emph>\<open>last layer that sets a field
    wins\<close>, provenance included.
  \<^item> \<open>SpecExtends\<close>, \<open>SpecFileStore\<close>: the walk over \<^verbatim>\<open>extends\<close>, the map store and the file store of
    \<^verbatim>\<open>spec/store.go\<close>, \<^verbatim>\<open>spec/load.go\<close>, \<^verbatim>\<open>spec/load_overlay.go\<close>. The walk ends (its measure is
    the depth left below \<^verbatim>\<open>MaxExtendsDepth\<close>, 8), reports every error it documents, and the file store
    opens only files below its root, on slash-separated paths (theory \<open>GoPath\<close>: \<^verbatim>\<open>filepath\<close>).
  \<^item> \<open>SpecOverlayYaml\<close>: the YAML hooks of \<^verbatim>\<open>spec/overlay.go\<close> over a node tree; absent, null and listed
    are kept apart.
  \<^item> \<open>SpecValidate\<close>: \<^verbatim>\<open>spec/validate.go\<close>, \<^verbatim>\<open>spec/validate_mcp.go\<close>, with \<^verbatim>\<open>filepath.Match\<close> and UTF-8 decoding
    in \<open>GoGlob\<close> and \<open>GoUtf8\<close>. Validate decides a declarative predicate.
  \<^item> \<open>SpecNormalize\<close>: \<^verbatim>\<open>spec/normalize.go\<close>, \<^verbatim>\<open>spec/locked.go\<close>. Normalize refines a specification that does
    not mention loops, keeps locked fields, is idempotent, and never panics.
  \<^item> \<open>GoJson\<close>, \<open>SpecCanonical\<close>, \<open>SpecHash\<close>: \<^verbatim>\<open>spec/canonical.go\<close>, with \<^verbatim>\<open>encoding/json\<close> and SHA-256.
    Canonical encoding is injective on pruned trees; comparing configurations decides equality up to
    empty collections and key order.
  \<^item> \<open>Registry\<close>: \<^verbatim>\<open>registry/\<close>. Fourteen tables, one law set (locale \<open>kind_table\<close>), a step relation and its
    invariants; a frozen registry never changes.
  \<^item> \<open>RegistryLog\<close>: what every lookup finds and every registration answers, as a function of the calls made so
    far (locale \<open>logged_table\<close>, interpreted by all fourteen tables).
  \<^item> \<open>BuildExpand\<close>, \<open>BuildAgent\<close>, \<open>BuildBudget\<close>, \<open>GoTime\<close>, \<open>BuildChains\<close>, \<open>BuildProps\<close>,
    \<open>BuildManifest\<close>, \<open>ManifestJson\<close>: \<^verbatim>\<open>build/\<close>, \<^verbatim>\<open>manifest/\<close>. Expansion only adds and meets every
    requirement; building never panics; the manifest lists exactly the references of the expanded spec,
    in order, and marshals to JSON whenever that spec does; budgets are never loosened; the chains have
    their sequential meaning.
  \<^item> \<open>FactoryMCP\<close>, \<open>FactoryFilters\<close>, \<open>FactoryPolicy\<close>, \<open>FactoryTools\<close>, \<open>FactoryMisc\<close>: \<^verbatim>\<open>factories/\<close>, with
    \<open>GoRegexp\<close> (leftmost-first matching) and \<open>GoConv\<close> (number conversion). No pattern of the scrubber
    survives scrubbing, the HTTP tool asks an allow-listed host and goes where that host redirects it, the
    MCP factory agrees with the validator, an SSN is found wherever it stands.
  \<^item> \<open>FactoryCatalog\<close>: the \<^verbatim>\<open>NewFactory\<close> functions of \<^verbatim>\<open>factories/\<close> over one type of built
    components, and what those components do when the runtime chains call them.
  \<^item> \<open>ForgeFacade\<close>: \<^verbatim>\<open>forge.go\<close>, its options, loaders and accessors, and what its \<^verbatim>\<open>Build\<close> amounts to.
  \<^item> \<open>ForgeText\<close>, \<open>ForgeErrors\<close>, \<open>FactoryErrors\<close>: the messages of the sentinels (\<^verbatim>\<open>registry/errors.go\<close>,
    \<^verbatim>\<open>spec/errors.go\<close> and those of \<^verbatim>\<open>build/\<close>) and \<^verbatim>\<open>fmt\<close>'s formatting, partial where Go would print a
    diagnostic. Every error of a build and of the shipped factories has a text.
  \<^item> \<open>ExampleWindow\<close>, \<open>ExampleSession\<close>: the filter, policy and session store of \<^verbatim>\<open>examples/\<close>. The session
    store has pointers, so sessions live on a heap; the locale \<open>session_store\<close> is the contract of
    the \<^verbatim>\<open>Store\<close> interface, \<open>reliable_store\<close> extends it, and the in-memory store interprets both.
  \<^item> \<open>ExampleConcurrent\<close>: the session operations as state machines whose steps, single reads and writes of the
    shared session, interleave. Run alone they are the operations of \<open>ExampleSession\<close>; other sessions are
    never touched; turns of a stored session lose no message when their appends do not overlap, and
    one when they do; of two overlapping first turns one is lost, and a resumption that is answered
    late overwrites what was stored since its check.
  \<^item> \<open>ExampleDemo\<close>, \<open>ExampleMains\<close>: the \<^verbatim>\<open>main\<close> functions of \<^verbatim>\<open>examples/\<close>, the fake provider of
    \<^verbatim>\<open>internal/testutil\<close> and the spec files they load, as decoded values. \<open>ExampleDemoRuns\<close>,
    \<open>ExampleRuns\<close>: what these programs print, for every orchestrator that accepts the components.
  \<^item> This theory: the facade's \<^verbatim>\<open>Build\<close> from spec to manifest, and that it never panics.

  \<^bold>\<open>Arguments.\<close> Code of other packages is an argument of the definitions that use it: the YAML decoder,
  the file system, the network client and URL parser, the orchestrator constructor and its \<^verbatim>\<open>Invoke\<close>,
  the constructors of praxis, the clock, the environment, and the Unicode tables of
  \<^verbatim>\<open>strings.ToUpper\<close>. Go leaves the conversion of a float outside the range of \<^verbatim>\<open>int\<close> open, so its
  value is an argument too, as are the table of printable runes
  behind \<^verbatim>\<open>%q\<close> and the JSON of the build time. A context is a stream that says at each poll whether it is
  cancelled. What a theorem needs of an argument is a named hypothesis, and its witness gives a
  function that satisfies it.

  \<^bold>\<open>Bounds.\<close> No definition of the code uses fuel; \<open>opAlone\<close> takes a number of steps, and nine finish any session
  operation. An HTTP request follows redirects up to ten requests, the bound of \<^verbatim>\<open>net/http\<close>. Loops over slices are structural; the walk over \<^verbatim>\<open>extends\<close>, the glob
  matcher, the regular-expression replacement and the path cleaner have measures.

  \<^bold>\<open>Not modelled.\<close> An operation under a lock is one step, and slices are values, so concurrent operations
  do not meet in a shared backing array. A factory is a record of its id, its description and its build
  function, so its accessor methods are the record's selectors.
\<close>

lemma skillSpec_normalizes: "\<exists>ns. Normalize background (Some skillSpec) [] None = Ok ns \<and> ns_Spec ns = skillSpec"
proof -
  have "elems (s_Extends skillSpec) = []" by (simp add: skillSpec_def sampleSpec_def zeroAgentSpec_def)
  moreover have "isOk (applyOverlays [] (mergeChain [] skillSpec)) \<and>
      fst (okOr undefined (applyOverlays [] (mergeChain [] skillSpec))) = skillSpec"
    by code_simp
  moreover have "Validate skillSpec = None" by code_simp
  ultimately show ?thesis
    by (auto simp: Normalize_def resolveExtendsChain_def isOk_iff okOr_def)
qed

section \<open>Properties\<close>

text \<open>C2. A build that succeeds normalized its spec first: the spec it was built from is valid and
  flat, the manifest carries that spec's id, version, hash, chain and overlays, an id or
  version the caller set is the manifest's, and the registry is left frozen.\<close>

theorem forge_Build_traces_spec:
  assumes "forge_Build mo orchNew now ctx (Some s) (Some r) opts = (Ok ba, r')"
  shows "Normalize ctx (Some s) (op_overlays (collected opts)) (op_store (collected opts)) = Ok (ba_NormalizedSpec ba) \<and>
    valid_spec (ns_Spec (ba_NormalizedSpec ba)) \<and> s_Extends (ns_Spec (ba_NormalizedSpec ba)) = None \<and>
    mf_SpecID (ba_Manifest ba) = md_ID (s_Metadata (ns_Spec (ba_NormalizedSpec ba))) \<and>
    (md_ID (s_Metadata s) \<noteq> [] \<longrightarrow> mf_SpecID (ba_Manifest ba) = md_ID (s_Metadata s)) \<and>
    (md_Version (s_Metadata s) \<noteq> [] \<longrightarrow> mf_SpecVersion (ba_Manifest ba) = md_Version (s_Metadata s)) \<and>
    mf_NormalizedHash (ba_Manifest ba) =
      okOr [] (fst (NormalizedHash mo (ns_Spec (ba_NormalizedSpec ba)) freshMemos)) \<and>
    mf_ExtendsChain (ba_Manifest ba) = elems (ns_ExtendsChain (ba_NormalizedSpec ba)) \<and>
    mf_Overlays (ba_Manifest ba) = elems (ns_Overlays (ba_NormalizedSpec ba)) \<and> r' = Some (Freeze r)"
proof -
  obtain ns where n: "Normalize ctx (Some s) (op_overlays (collected opts)) (op_store (collected opts)) = Ok ns"
    and b: "buildFrozen mo orchNew now ctx ns freshMemos (Freeze r) = Ok ba" and r: "r' = Some (Freeze r)"
    using forge_Build_Ok[OF assms] by (metis option.inject)
  have "valid_spec (ns_Spec ns)" using n unfolding Normalize_Ok_iff Validate_None_iff by blast
  then show ?thesis
    using n r Normalize_locked[OF n] Normalize_flat[OF n] by (simp add: buildFrozen_manifest[OF b])
qed

theorem forge_Build_traces_spec_witness:
  "\<exists>ba :: nat BuiltAgent. fst (forge_Build (\<lambda>_. None) fakeNew 0 background (Some skillSpec) (Some fullRegistry) []) = Ok ba \<and>
     mf_SpecID (ba_Manifest ba) = ''acme.demo''"
proof -
  obtain ns where n: "Normalize background (Some skillSpec) [] None = Ok ns" "ns_Spec ns = skillSpec"
    using skillSpec_normalizes by blast
  obtain ba r' where b: "forge_Build (\<lambda>_. None) fakeNew 0 background (Some skillSpec) (Some fullRegistry) [] = (Ok ba, r')"
    using n(1) fullRegistry_builds[OF n(2), of 0]
    by (auto simp: forge_Build_cases Build_Some collected_def noOptions_def buildFrozen_Freeze)
  from forge_Build_traces_spec[OF b] b show ?thesis
    by (auto simp: skillSpec_def sampleSpec_def)
qed

text \<open>C15. \<^verbatim>\<open>forge.Build\<close> panics on nil arguments only. With a spec store that neither panics nor
  hands out a nil spec, and with factories and an orchestrator constructor that return values or errors,
  a call with a spec and a registry, whatever the overlays (nil ones included) and the context, returns an
  agent or an error: normalization dereferences no nil, what it accepts names a system prompt, and the
  build never indexes past the end of the resolver's parallel slices. A nil spec always panics; a nil
  registry panics exactly when normalization succeeds.\<close>

theorem forge_Build_never_panics:
  assumes "registry_safe r" and "\<And>p opts. noPanic (orchNew p opts)"
    and "\<And>ld n ref. op_store (collected opts) = Some ld \<Longrightarrow> noPanic (ld ctx n ref) \<and> ld ctx n ref \<noteq> Ok None"
  shows "noPanic (fst (forge_Build mo orchNew now ctx (Some s) (Some r) opts)) \<and>
    \<not> noPanic (fst (forge_Build mo orchNew now ctx None reg opts)) \<and>
    (noPanic (fst (forge_Build mo orchNew now ctx (Some s) None opts)) \<longleftrightarrow>
       \<not> isOk (Normalize ctx (Some s) (op_overlays (collected opts)) (op_store (collected opts))))"
proof -
  let ?n = "Normalize ctx (Some s) (op_overlays (collected opts)) (op_store (collected opts))"
  have n: "noPanic ?n" by (rule Normalize_never_panics) (rule assms(3))
  moreover have "noPanic (fst (Build mo orchNew now ctx ns freshMemos (Some r)))" if "?n = Ok ns" for ns
  proof (rule Build_never_panics[OF assms(1)])
    show "valid_spec (ns_Spec ns)" using that unfolding Normalize_Ok_iff Validate_None_iff by blast
  qed (rule assms(2))
  ultimately have "noPanic (fst (forge_Build mo orchNew now ctx (Some s) (Some r) opts))"
    by (cases ?n) (auto simp: forge_Build_cases)
  moreover have "\<not> noPanic (fst (forge_Build mo orchNew now ctx None reg opts))"
    by (simp add: forge_Build_cases Normalize_def)
  moreover have "noPanic (fst (forge_Build mo orchNew now ctx (Some s) None opts)) \<longleftrightarrow> \<not> isOk ?n"
    using n by (cases ?n) (auto simp: forge_Build_cases Build_def)
  ultimately show ?thesis by blast
qed

theorem forge_Build_never_panics_witness:
  "noPanic (fst (forge_Build (\<lambda>_. None) fakeNew 0 background (Some sampleLeaf) (Some fullRegistry)
     [WithOverlays [None], WithSpecStore (Some (MapSpecStore_Load (specMap sampleStore)))]))"
proof (rule forge_Build_never_panics[OF fullRegistry_wf(2), THEN conjunct1])
  fix ld n ref
  assume "op_store (collected [WithOverlays [None], WithSpecStore (Some (MapSpecStore_Load (specMap sampleStore)))]) = Some ld"
  then have "ld = MapSpecStore_Load (specMap sampleStore)"
    by (simp add: collected_def WithOverlays_def WithSpecStore_def)
  then show "noPanic (ld background n ref) \<and> ld background n ref \<noteq> Ok None" using mapStore.load_noPanic by blast
qed (simp add: fakeNew_def)

end
